theory Spec2Isabelle
  imports Complex_Main
begin

section \<open>Numbers and samples\<close>

text \<open>
  The three source files (\<^verbatim>\<open>slider.js\<close>, the unnamed variant \<^verbatim>\<open>part_000\<close> and
  \<^verbatim>\<open>TouchSlider.js\<close>) are three variants of one touch carousel.  Definitions taken from
  \<^verbatim>\<open>slider.js\<close> carry the prefix \<open>sl_\<close>, those from \<^verbatim>\<open>part_000\<close> the prefix \<open>p0_\<close>,
  those from \<^verbatim>\<open>TouchSlider.js\<close> keep the names of its methods (with the prefix \<open>ts_\<close>
  where a name is taken); code that is textually the same in \<^verbatim>\<open>slider.js\<close> and
  \<^verbatim>\<open>part_000\<close> is modelled once, without prefix.

  JavaScript numbers are modelled as reals (rounding of IEEE doubles is not modelled);
  \<^verbatim>\<open>Date.now()\<close> is an integer number of milliseconds and is passed in as an argument.
  Where the source can produce \<^verbatim>\<open>undefined\<close> or \<^verbatim>\<open>NaN\<close>, the value is a \<open>real option\<close>
  and \<open>None\<close> stands for not-a-number.
\<close>

record point =
  pt_x :: real
  pt_time :: int

subsection \<open>Velocity estimator of \<^verbatim>\<open>slider.js\<close> and \<^verbatim>\<open>part_000\<close>\<close>

definition trackVelocity :: "int \<Rightarrow> real \<Rightarrow> point list \<Rightarrow> point list" where
  "trackVelocity now x positions =
     filter (\<lambda>p. now - pt_time p < 100) (positions @ [\<lparr>pt_x = x, pt_time = now\<rparr>])"

definition calculateVelocity :: "point list \<Rightarrow> real" where
  "calculateVelocity positions =
     (if length positions < 2 then 0
      else let first = hd positions; lst = last positions;
               dt = pt_time lst - pt_time first
           in if dt = 0 then 0 else (pt_x lst - pt_x first) / real_of_int dt)"

subsection \<open>Velocity estimator of \<^verbatim>\<open>TouchSlider.js\<close>\<close>

definition ts_recentHistory :: "int \<Rightarrow> point list \<Rightarrow> point list" where
  "ts_recentHistory now history = filter (\<lambda>p. now - pt_time p \<le> 100) history"

definition ts_calculateVelocity :: "int \<Rightarrow> point list \<Rightarrow> real" where
  "ts_calculateVelocity now history =
     (let recentHistory = ts_recentHistory now history
      in if length recentHistory < 2 then 0
         else let firstPoint = hd recentHistory; lastPoint = last recentHistory;
                  deltaX = pt_x lastPoint - pt_x firstPoint;
                  deltaTime = pt_time lastPoint - pt_time firstPoint
              in if deltaTime = 0 then 0 else deltaX / real_of_int deltaTime)"

text \<open>
  A drag session of \<^verbatim>\<open>slider.js\<close> records one sample at touch start and one per
  horizontal move; \<open>recordAll\<close> replays the calls of \<open>trackVelocity\<close> on the samples
  of a session in order.
\<close>

fun recordAll :: "point list \<Rightarrow> point list \<Rightarrow> point list" where
  "recordAll positions [] = positions"
| "recordAll positions (s # ss) = recordAll (trackVelocity (pt_time s) (pt_x s) positions) ss"

section \<open>The carousel of \<^verbatim>\<open>slider.js\<close> and \<^verbatim>\<open>part_000\<close>\<close>

subsection \<open>Host values and instance state\<close>

text \<open>
  A touch sample as the handlers read it: \<^verbatim>\<open>e.touches[0].clientX\<close>, \<^verbatim>\<open>clientY\<close> and
  \<^verbatim>\<open>e.cancelable\<close>.  The frame callback handed to \<^verbatim>\<open>requestAnimationFrame\<close> is a
  closure; \<open>callback\<close> holds its captured variables: \<open>InertiaStep velocity current
  lastTime\<close> for \<^verbatim>\<open>step\<close> of \<^verbatim>\<open>startInertia\<close>, and \<open>AnimLoop start target startTime
  duration easing index\<close> for \<^verbatim>\<open>loop\<close> of \<^verbatim>\<open>animateTo\<close> (\<open>index\<close> is the slide index
  its completion callback reports, if it has one).  Field \<open>rafId\<close> is \<^verbatim>\<open>state.rafId\<close>:
  \<open>Null\<close>, or \<open>Pending cb\<close> when the host holds \<open>cb\<close> for the next frame, or \<open>Fired\<close> when
  the identifier is still stored but its callback has already run.  Field \<open>events\<close> logs
  the names passed to \<^verbatim>\<open>emit\<close>.  Writing the style
  and \<^verbatim>\<open>checkVisibilityEvents\<close> belong to the host and are left out.
\<close>

record touch =
  clientX :: real
  clientY :: real
  cancelable :: bool

datatype touch_type = TouchEnd | TouchCancel

datatype easing = EaseOutQuad | EaseOutQuart

datatype callback =
  InertiaStep real real int
| AnimLoop real "real option" int real easing "nat option"

datatype 'c raf = Null | Fired | Pending 'c

record options =
  freeMode :: bool
  centered :: bool
  friction :: real
  angleThreshold :: real
  speed :: real
  springK :: real
  springDamping :: real

record slider =
  opts :: options
  slidesGrid :: "real list"
  minTranslate :: real
  maxTranslate :: real
  isDragging :: bool
  startTouchX :: real
  startTouchY :: real
  currentTranslate :: real
  startTranslate :: real
  startTime :: int
  isHorizontal :: "bool option"
  rafId :: "callback raf"
  velocity :: real
  positions :: "point list"
  events :: "string list"

text \<open>\<^verbatim>\<open>Math.atan2(y, x)\<close>, in radians.\<close>

definition Math_atan2 :: "real \<Rightarrow> real \<Rightarrow> real" where
  "Math_atan2 y x =
     (if x > 0 then arctan (y / x)
      else if x < 0 then (if y \<ge> 0 then arctan (y / x) + pi else arctan (y / x) - pi)
      else if y > 0 then pi / 2
      else if y < 0 then - pi / 2
      else 0)"

definition emit :: "string \<Rightarrow> slider \<Rightarrow> slider" where
  "emit name s = s\<lparr>events := events s @ [name]\<rparr>"

definition setTranslate :: "real \<Rightarrow> slider \<Rightarrow> slider" where
  "setTranslate translate s = s\<lparr>currentTranslate := translate\<rparr>"

definition requestAnimationFrame :: "callback \<Rightarrow> slider \<Rightarrow> slider" where
  "requestAnimationFrame cb s = s\<lparr>rafId := Pending cb\<rparr>"

definition stopTransition :: "slider \<Rightarrow> slider" where
  "stopTransition s = (if rafId s \<noteq> Null then s\<lparr>rafId := Null\<rparr> else s)"

subsection \<open>Touch start\<close>

definition onTouchStart :: "int \<Rightarrow> touch \<Rightarrow> slider \<Rightarrow> slider" where
  "onTouchStart now e s =
     (let s1 = (if rafId s \<noteq> Null then emit ''sliderTouchStop'' (stopTransition s) else s);
          s2 = s1\<lparr>startTouchX := clientX e, startTouchY := clientY e, startTime := now,
                  startTranslate := currentTranslate s1,
                  isDragging := True, isHorizontal := None, positions := []\<rparr>;
          s3 = s2\<lparr>positions := trackVelocity now (clientX e) (positions s2)\<rparr>
      in emit ''sliderDragStart'' s3)"

subsection \<open>Nearest slide and timed animation\<close>

text \<open>
  The scan of \<^verbatim>\<open>snapToNearest\<close>: the loop over \<^verbatim>\<open>slidesGrid[1..]\<close> carries
  \<open>(closest, minDiff, closestIndex)\<close> and replaces them only on a strictly smaller
  distance.
\<close>

fun scanGrid :: "real \<Rightarrow> real list \<Rightarrow> nat \<Rightarrow> real \<times> real \<times> nat \<Rightarrow> real \<times> real \<times> nat" where
  "scanGrid searchPos [] i acc = acc"
| "scanGrid searchPos (pos # rest) i (closest, minDiff, closestIndex) =
     (let diff = \<bar>searchPos - pos\<bar>
      in if diff < minDiff then scanGrid searchPos rest (i + 1) (pos, diff, i)
         else scanGrid searchPos rest (i + 1) (closest, minDiff, closestIndex))"

text \<open>
  The target and the index that \<^verbatim>\<open>snapToNearest\<close> hands to \<^verbatim>\<open>animateTo\<close>.  With an
  empty grid \<^verbatim>\<open>slidesGrid[0]\<close> is \<^verbatim>\<open>undefined\<close>, the loop does not run, both clamping
  comparisons with \<^verbatim>\<open>undefined\<close> are false, and the target stays \<^verbatim>\<open>undefined\<close>.
\<close>

definition snapTarget :: "real \<Rightarrow> real list \<Rightarrow> real \<Rightarrow> real \<Rightarrow> real option \<times> nat" where
  "snapTarget searchPos grid minT maxT =
     (case grid of
        [] \<Rightarrow> (None, 0)
      | g # rest \<Rightarrow>
          (case scanGrid searchPos rest 1 (g, \<bar>searchPos - g\<bar>, 0) of
             (closest, minDiff, closestIndex) \<Rightarrow>
               (let c1 = (if closest > minT then minT else closest);
                    c2 = (if c1 < maxT then maxT else c1)
                in (Some c2, closestIndex))))"

text \<open>
  \<^verbatim>\<open>animateTo\<close> cancels the pending frame and schedules \<^verbatim>\<open>loop\<close>; the duration and the
  easing are arguments here (\<^verbatim>\<open>options.speed\<close> and \<^verbatim>\<open>easeOutQuad\<close> in \<^verbatim>\<open>slider.js\<close>, the
  values the caller passes in \<^verbatim>\<open>part_000\<close>).  One frame of
  \<^verbatim>\<open>loop\<close> writes \<^verbatim>\<open>start + distance * ease\<close> with \<^verbatim>\<open>distance = target - start\<close>;
  with \<^verbatim>\<open>target\<close> undefined the distance and the written offset are \<^verbatim>\<open>NaN\<close>.
\<close>

definition animateTo :: "int \<Rightarrow> real option \<Rightarrow> real \<Rightarrow> easing \<Rightarrow> nat option \<Rightarrow> slider \<Rightarrow> slider" where
  "animateTo now target duration ease cb s =
     requestAnimationFrame (AnimLoop (currentTranslate s) target now duration ease cb)
       (stopTransition s)"

definition applyEasing :: "easing \<Rightarrow> real \<Rightarrow> real" where
  "applyEasing ease t = (case ease of EaseOutQuad \<Rightarrow> t * (2 - t) | EaseOutQuart \<Rightarrow> 1 - (1 - t) ^ 4)"

definition loopNewPos :: "real \<Rightarrow> real option \<Rightarrow> real \<Rightarrow> real option" where
  "loopNewPos start target ease =
     (case target of None \<Rightarrow> None | Some t \<Rightarrow> Some (start + (t - start) * ease))"

definition sl_snapToNearest :: "int \<Rightarrow> slider \<Rightarrow> slider" where
  "sl_snapToNearest now s =
     (case snapTarget (currentTranslate s) (slidesGrid s) (minTranslate s) (maxTranslate s) of
        (closest, closestIndex) \<Rightarrow>
          animateTo now closest (speed (opts s)) EaseOutQuad (Some closestIndex) s)"

definition p0_snapToNearest :: "int \<Rightarrow> real option \<Rightarrow> slider \<Rightarrow> slider" where
  "p0_snapToNearest now targetPosition s =
     (let searchPos = (case targetPosition of Some p \<Rightarrow> p | None \<Rightarrow> currentTranslate s)
      in case snapTarget searchPos (slidesGrid s) (minTranslate s) (maxTranslate s) of
           (closest, closestIndex) \<Rightarrow>
             animateTo now closest 500 EaseOutQuart (Some closestIndex) s)"

definition p0_snapToBounds :: "int \<Rightarrow> slider \<Rightarrow> slider" where
  "p0_snapToBounds now s =
     (if currentTranslate s > minTranslate s
      then animateTo now (Some (minTranslate s)) 700 EaseOutQuart None s
      else if currentTranslate s < maxTranslate s
      then animateTo now (Some (maxTranslate s)) 700 EaseOutQuart None s
      else s)"

subsection \<open>Touch move\<close>

text \<open>
  The block under \<^verbatim>\<open>if (this.state.isHorizontal)\<close> of \<^verbatim>\<open>slider.js\<close>.  The event's
  \<^verbatim>\<open>cancelable\<close> flag only guards \<^verbatim>\<open>preventDefault\<close> (a host effect); the offset is
  written in either case.  \<^verbatim>\<open>Math.pow(overscroll, 0.75)\<close> is \<open>powr\<close>: the overscroll is
  positive in both branches.
\<close>

definition sl_resist :: "real \<Rightarrow> real \<Rightarrow> real \<Rightarrow> real" where
  "sl_resist minT maxT translate =
     (if translate > minT then minT + (translate - minT) powr 0.75
      else if translate < maxT then maxT - (maxT - translate) powr 0.75
      else translate)"

definition sl_drag :: "int \<Rightarrow> touch \<Rightarrow> real \<Rightarrow> slider \<Rightarrow> slider" where
  "sl_drag now e deltaX s =
     (let translate = sl_resist (minTranslate s) (maxTranslate s) (startTranslate s + deltaX);
          s1 = setTranslate translate s;
          s2 = s1\<lparr>positions := trackVelocity now (clientX e) (positions s1)\<rparr>
      in emit ''sliderMove'' s2)"

definition sl_onTouchMove :: "int \<Rightarrow> touch \<Rightarrow> slider \<Rightarrow> slider" where
  "sl_onTouchMove now e s =
     (if \<not> isDragging s then s
      else
        let deltaX = clientX e - startTouchX s;
            deltaY = clientY e - startTouchY s
        in case isHorizontal s of
             None \<Rightarrow>
               (let absX = \<bar>deltaX\<bar>; absY = \<bar>deltaY\<bar>
                in if absX < 10 \<and> absY < 10 then s
                   else
                     let angleRad = Math_atan2 absY absX;
                         angleDeg = angleRad * 180 / pi
                     in if angleDeg < angleThreshold (opts s)
                        then sl_drag now e deltaX (s\<lparr>isHorizontal := Some True\<rparr>)
                        else s\<lparr>isHorizontal := Some False, isDragging := False\<rparr>)
           | Some True \<Rightarrow> sl_drag now e deltaX s
           | Some False \<Rightarrow> s\<lparr>isDragging := False\<rparr>)"

text \<open>
  The same handler in \<^verbatim>\<open>part_000\<close>: the dead zone is 5px, a non-cancelable event
  returns before any offset is written, and the resistance is a quarter of the overscroll.
\<close>

definition p0_resist :: "real \<Rightarrow> real \<Rightarrow> real \<Rightarrow> real" where
  "p0_resist minT maxT translate =
     (if translate > minT then minT + (translate - minT) * 0.25
      else if translate < maxT then maxT - (maxT - translate) * 0.25
      else translate)"

definition p0_drag :: "int \<Rightarrow> touch \<Rightarrow> real \<Rightarrow> slider \<Rightarrow> slider" where
  "p0_drag now e deltaX s =
     (if \<not> cancelable e then s
      else
        let translate = p0_resist (minTranslate s) (maxTranslate s) (startTranslate s + deltaX);
            s1 = setTranslate translate s;
            s2 = s1\<lparr>positions := trackVelocity now (clientX e) (positions s1)\<rparr>
        in emit ''sliderMove'' s2)"

definition p0_onTouchMove :: "int \<Rightarrow> touch \<Rightarrow> slider \<Rightarrow> slider" where
  "p0_onTouchMove now e s =
     (if \<not> isDragging s then s
      else
        let deltaX = clientX e - startTouchX s;
            deltaY = clientY e - startTouchY s
        in case isHorizontal s of
             None \<Rightarrow>
               (let absX = \<bar>deltaX\<bar>; absY = \<bar>deltaY\<bar>
                in if absX < 5 \<and> absY < 5 then s
                   else
                     let angleRad = Math_atan2 absY absX;
                         angleDeg = angleRad * 180 / pi
                     in if angleDeg < angleThreshold (opts s)
                        then p0_drag now e deltaX (s\<lparr>isHorizontal := Some True\<rparr>)
                        else s\<lparr>isHorizontal := Some False, isDragging := False\<rparr>)
           | Some True \<Rightarrow> p0_drag now e deltaX s
           | Some False \<Rightarrow> s\<lparr>isDragging := False\<rparr>)"

subsection \<open>Touch end and inertia\<close>

definition startInertia :: "int \<Rightarrow> slider \<Rightarrow> slider" where
  "startInertia now s =
     requestAnimationFrame (InertiaStep (velocity s) (currentTranslate s) now) s"

definition sl_onTouchEnd :: "int \<Rightarrow> touch_type \<Rightarrow> slider \<Rightarrow> slider" where
  "sl_onTouchEnd now ty s =
     (if \<not> isDragging s then s
      else if isHorizontal s = None then s\<lparr>isDragging := False\<rparr>
      else if isHorizontal s = Some False then s\<lparr>isDragging := False\<rparr>
      else
        let s1 = emit ''sliderDragEnd'' (s\<lparr>isDragging := False\<rparr>)
        in if ty = TouchCancel then sl_snapToNearest now s1
           else
             let v = calculateVelocity (positions s1);
                 s2 = s1\<lparr>velocity := (if \<bar>v\<bar> < 0.05 then 0 else v)\<rparr>
             in startInertia now s2)"


text \<open>
  One run of \<^verbatim>\<open>step\<close> with the closure variables \<open>v\<close>, \<open>cur\<close> and \<open>lastTime\<close>, in
  \<^verbatim>\<open>slider.js\<close> (spring beyond the bounds) and in \<^verbatim>\<open>part_000\<close> (heavy friction beyond
  the bounds, then \<^verbatim>\<open>snapToBounds\<close>).
\<close>

definition sl_step :: "int \<Rightarrow> real \<Rightarrow> real \<Rightarrow> int \<Rightarrow> slider \<Rightarrow> slider" where
  "sl_step now v cur lastTime s =
     (if isDragging s then s
      else
        let dt = min (real_of_int (now - lastTime)) 60;
            force = (if cur > minTranslate s then (minTranslate s - cur) * springK (opts s)
                     else if cur < maxTranslate s then (maxTranslate s - cur) * springK (opts s)
                     else 0);
            isOutOfBounds = (cur > minTranslate s \<or> cur < maxTranslate s)
        in if isOutOfBounds then
             (let v1 = (v + force * (dt / 16)) * springDamping (opts s)
              in if \<bar>v1\<bar> < 0.01 \<and> \<bar>force\<bar> < 0.01
                 then emit ''sliderStop''
                        (setTranslate (if cur > minTranslate s then minTranslate s
                                       else maxTranslate s) s)
                 else requestAnimationFrame (InertiaStep v1 (cur + v1 * dt) now)
                        (setTranslate (cur + v1 * dt) s))
           else
             (let v1 = v * friction (opts s)
              in if \<bar>v1\<bar> < 0.01
                 then (if freeMode (opts s) then emit ''sliderStop'' s
                       else sl_snapToNearest now s)
                 else requestAnimationFrame (InertiaStep v1 (cur + v1 * dt) now)
                        (setTranslate (cur + v1 * dt) s)))"

definition p0_step :: "int \<Rightarrow> real \<Rightarrow> real \<Rightarrow> int \<Rightarrow> slider \<Rightarrow> slider" where
  "p0_step now v cur lastTime s =
     (if isDragging s then s
      else
        let dt = min (real_of_int (now - lastTime)) 60;
            isOutOfBounds = (cur > minTranslate s \<or> cur < maxTranslate s)
        in if isOutOfBounds then
             (let v1 = v * 0.6
              in if \<bar>v1\<bar> < 0.1 then p0_snapToBounds now s
                 else requestAnimationFrame (InertiaStep v1 (cur + v1 * dt) now)
                        (setTranslate (cur + v1 * dt) s))
           else
             (let v1 = v * friction (opts s)
              in if \<bar>v1\<bar> < 0.01
                 then (if freeMode (opts s) then emit ''sliderStop'' s
                       else p0_snapToNearest now None s)
                 else requestAnimationFrame (InertiaStep v1 (cur + v1 * dt) now)
                        (setTranslate (cur + v1 * dt) s)))"

text \<open>
  The host fires the pending callback once per frame: it takes it out of its queue and
  runs it.  Only the frames of the inertia loop are modelled; \<open>runFrames\<close> fires one frame
  per timestamp while an inertia step is pending.
\<close>

definition sl_frame :: "int \<Rightarrow> slider \<Rightarrow> slider" where
  "sl_frame now s =
     (case rafId s of
        Pending (InertiaStep v cur lastTime) \<Rightarrow> sl_step now v cur lastTime (s\<lparr>rafId := Fired\<rparr>)
      | _ \<Rightarrow> s)"

definition p0_frame :: "int \<Rightarrow> slider \<Rightarrow> slider" where
  "p0_frame now s =
     (case rafId s of
        Pending (InertiaStep v cur lastTime) \<Rightarrow> p0_step now v cur lastTime (s\<lparr>rafId := Fired\<rparr>)
      | _ \<Rightarrow> s)"


datatype phase = Idle | Inertia | Animating

definition phase :: "slider \<Rightarrow> phase" where
  "phase s =
     (case rafId s of
        Pending (InertiaStep v cur lastTime) \<Rightarrow> Inertia
      | Pending (AnimLoop start target t0 duration ease cb) \<Rightarrow> Animating
      | _ \<Rightarrow> Idle)"

subsection \<open>Geometry and bounds\<close>

text \<open>
  What the handlers read from the document: for \<^verbatim>\<open>slider.js\<close> and \<^verbatim>\<open>TouchSlider.js\<close>
  each slide's \<^verbatim>\<open>offsetWidth\<close> and right margin; for \<^verbatim>\<open>part_000\<close> the bounding
  rectangles.  \<^verbatim>\<open>window.getComputedStyle\<close> raises a \<^verbatim>\<open>TypeError\<close> when its argument
  is not an element; in \<^verbatim>\<open>slider.js\<close> that is the case for \<^verbatim>\<open>slides[slides.length - 1]\<close>
  of an empty slide list.  The result is then the error alone: the fields assigned before
  the exception are not tracked.
\<close>

record slide =
  offsetWidth :: real
  marginRight :: real

datatype error = TypeError

record geometry =
  g_slidesGrid :: "real list"
  g_wrapperWidth :: real
  g_minTranslate :: real
  g_maxTranslate :: real

definition getMarginRight :: "slide option \<Rightarrow> error + real" where
  "getMarginRight element =
     (case element of None \<Rightarrow> Inl TypeError | Some sl \<Rightarrow> Inr (marginRight sl))"

text \<open>The \<^verbatim>\<open>forEach\<close> of \<^verbatim>\<open>updateDimensions\<close> in \<^verbatim>\<open>slider.js\<close>, with its running offset.\<close>

fun sl_grid :: "real \<Rightarrow> real \<Rightarrow> slide list \<Rightarrow> real list \<times> real" where
  "sl_grid cw offset [] = ([], offset)"
| "sl_grid cw offset (sl # rest) =
     (let centerOffset = (cw - offsetWidth sl) / 2
      in case sl_grid cw (offset + (offsetWidth sl + marginRight sl)) rest of
           (grid, offset') \<Rightarrow> ((- offset + centerOffset) # grid, offset'))"

definition sl_updateDimensions :: "real \<Rightarrow> slide list \<Rightarrow> error + geometry" where
  "sl_updateDimensions cw slides =
     (case sl_grid cw 0 slides of
        (grid, offset) \<Rightarrow>
          (case getMarginRight (if slides = [] then None else Some (last slides)) of
             Inl err \<Rightarrow> Inl err
           | Inr m \<Rightarrow>
               Inr \<lparr>g_slidesGrid = grid, g_wrapperWidth = offset - m,
                    g_minTranslate = (if grid \<noteq> [] then hd grid else 0),
                    g_maxTranslate = (if grid \<noteq> [] then last grid else 0)\<rparr>))"

text \<open>
  \<^verbatim>\<open>init\<close> of \<^verbatim>\<open>slider.js\<close>: geometry first, then the initial offset (the first grid
  entry, or 0 for an empty grid).
\<close>

definition sl_init :: "real \<Rightarrow> slide list \<Rightarrow> slider \<Rightarrow> error + slider" where
  "sl_init cw slides s =
     (case sl_updateDimensions cw slides of
        Inl err \<Rightarrow> Inl err
      | Inr g \<Rightarrow>
          (let s1 = s\<lparr>slidesGrid := g_slidesGrid g, minTranslate := g_minTranslate g,
                       maxTranslate := g_maxTranslate g\<rparr>
           in Inr (if slidesGrid s1 \<noteq> [] then setTranslate (hd (slidesGrid s1)) s1
                   else setTranslate 0 s1)))"

text \<open>
  \<^verbatim>\<open>updateDimensions\<close> of \<^verbatim>\<open>part_000\<close>.  The host supplies the left edge and width of
  the container, the left edge of the wrapper and, per slide, the left edge and width of
  its rectangle and its right margin.  With no slides the function returns after clearing
  the grid and the bounds keep their previous values.
\<close>

record rect_slide =
  rs_left :: real
  rs_width :: real
  rs_marginRight :: real

record layout =
  containerLeft :: real
  containerWidth :: real
  wrapperLeft :: real
  slideRects :: "rect_slide list"

definition p0_updateDimensions :: "layout \<Rightarrow> slider \<Rightarrow> slider" where
  "p0_updateDimensions lay s =
     (let cw = containerWidth lay;
          wrapperOffset = (wrapperLeft lay - containerLeft lay) - currentTranslate s;
          slides = slideRects lay
      in if slides = [] then s\<lparr>slidesGrid := []\<rparr>
         else
           let grid = map (\<lambda>sl.
                         let slideWidth = rs_width sl;
                             slideLeft = rs_left sl - wrapperLeft lay
                         in if centered (opts s)
                            then (cw - slideWidth) / 2 - slideLeft - wrapperOffset
                            else - slideLeft) slides;
               lastSlide = last slides;
               lastSlideLeft = rs_left lastSlide - wrapperLeft lay;
               wrapperWidth = lastSlideLeft + rs_width lastSlide + rs_marginRight lastSlide
           in if centered (opts s)
              then s\<lparr>slidesGrid := grid, minTranslate := hd grid, maxTranslate := last grid\<rparr>
              else
                let maxScroll = cw - wrapperWidth - wrapperOffset
                in s\<lparr>slidesGrid := grid, minTranslate := hd grid,
                      maxTranslate := min (hd grid) maxScroll\<rparr>)"

section \<open>The carousel of \<^verbatim>\<open>TouchSlider.js\<close>\<close>

text \<open>
  The instance of \<^verbatim>\<open>TouchSlider.js\<close>: fields \<open>op_\<close> are \<^verbatim>\<open>this.options\<close>, \<open>st_\<close> are
  \<^verbatim>\<open>this.state\<close>, \<open>tc_\<close> are \<^verbatim>\<open>this.touch\<close>, \<open>an_\<close> are \<^verbatim>\<open>this.animation\<close>
  (\<open>an_rafId\<close> is \<open>Pending ()\<close> when the host holds \<^verbatim>\<open>animate\<close> for the next frame),
  \<open>ts_slides\<close> holds the \<^verbatim>\<open>offsetWidth\<close> of each slide, and \<open>ts_events\<close> logs the names
  passed to \<^verbatim>\<open>dispatchEvent\<close>.  The visibility flags of the last slide and the CSS class are left
  out: nothing modelled here reads them.
\<close>

datatype snap_align = Center | Start

record ts =
  op_friction :: real
  op_bounce :: real
  op_velocityThreshold :: real
  op_freeMode :: bool
  op_snapAlign :: snap_align
  op_velocityMultiplier :: real
  st_currentX :: real
  st_targetX :: real
  st_isDragging :: bool
  st_sliderWidth :: real
  st_trackWidth :: real
  st_isSnapping :: bool
  st_snapTargetX :: real
  st_currentSlideIndex :: nat
  st_previousSlideIndex :: nat
  st_previousX :: real
  tc_startX :: real
  tc_startY :: real
  tc_currentX :: real
  tc_currentY :: real
  tc_startTime :: int
  tc_startPositionX :: real
  tc_isTouching :: bool
  tc_isDirectionDetermined :: bool
  tc_isHorizontalSwipe :: bool
  tc_velocityX :: real
  tc_history :: "point list"
  an_rafId :: "unit raf"
  an_isAnimating :: bool
  ts_slides :: "real list"
  ts_events :: "string list"

definition dispatchEvent :: "string \<Rightarrow> ts \<Rightarrow> ts" where
  "dispatchEvent eventName s = s\<lparr>ts_events := ts_events s @ [eventName]\<rparr>"

subsection \<open>Dimensions, bounds and resistance\<close>

definition calculateDimensions :: "real \<Rightarrow> ts \<Rightarrow> ts" where
  "calculateDimensions sliderOffsetWidth s =
     s\<lparr>st_sliderWidth := sliderOffsetWidth,
       st_trackWidth := foldl (\<lambda>acc w. acc + w) 0 (ts_slides s)\<rparr>"

record bounds =
  b_min :: real
  b_max :: real

definition getBounds :: "ts \<Rightarrow> bounds" where
  "getBounds s = \<lparr>b_min = - (st_trackWidth s - st_sliderWidth s), b_max = 0\<rparr>"

definition clamp :: "real \<Rightarrow> real \<Rightarrow> real \<Rightarrow> real" where
  "clamp v lo hi = min (max v lo) hi"

text \<open>
  \<^verbatim>\<open>applyRubberBand(position, delta)\<close>; the function never reads \<open>delta\<close>.  The overshoot
  is positive in both branches, so \<^verbatim>\<open>Math.pow\<close> is \<open>powr\<close> and \<^verbatim>\<open>Math.sign\<close> is \<open>sgn\<close>.
\<close>

definition applyRubberBand :: "ts \<Rightarrow> real \<Rightarrow> real" where
  "applyRubberBand s position =
     (let bnd = getBounds s; resistance = 0.5
      in if position \<ge> b_min bnd \<and> position \<le> b_max bnd then position
         else if position > b_max bnd then
           (let overshoot = position - b_max bnd;
                dampedOvershoot = sgn overshoot * (\<bar>overshoot\<bar> powr 0.7) * resistance
            in b_max bnd + dampedOvershoot)
         else if position < b_min bnd then
           (let overshoot = b_min bnd - position;
                dampedOvershoot = sgn overshoot * (\<bar>overshoot\<bar> powr 0.7) * resistance
            in b_min bnd - dampedOvershoot)
         else position)"

subsection \<open>Slide positions and nearest slide\<close>

record slide_pos =
  sp_index :: nat
  sp_position :: real

fun slidePositionsFrom :: "snap_align \<Rightarrow> real \<Rightarrow> nat \<Rightarrow> real \<Rightarrow> real list \<Rightarrow> slide_pos list" where
  "slidePositionsFrom align sw index accumulatedOffset [] = []"
| "slidePositionsFrom align sw index accumulatedOffset (slideWidth # rest) =
     (let position =
            (if align = Center
             then - ((accumulatedOffset + slideWidth / 2) - sw / 2)
             else - accumulatedOffset)
      in \<lparr>sp_index = index, sp_position = position\<rparr>
         # slidePositionsFrom align sw (index + 1) (accumulatedOffset + slideWidth) rest)"

definition getSlidePositions :: "ts \<Rightarrow> slide_pos list" where
  "getSlidePositions s = slidePositionsFrom (op_snapAlign s) (st_sliderWidth s) 0 0 (ts_slides s)"

text \<open>The \<^verbatim>\<open>forEach\<close> of \<^verbatim>\<open>findNearestSlide\<close>, carrying \<open>(nearestSlide, minDistance)\<close>.\<close>

fun scanSlides :: "real \<Rightarrow> slide_pos list \<Rightarrow> slide_pos \<times> real \<Rightarrow> slide_pos \<times> real" where
  "scanSlides projectedPosition [] acc = acc"
| "scanSlides projectedPosition (sl # rest) (nearestSlide, minDistance) =
     (let distance = \<bar>projectedPosition - sp_position sl\<bar>
      in if distance < minDistance then scanSlides projectedPosition rest (sl, distance)
         else scanSlides projectedPosition rest (nearestSlide, minDistance))"

text \<open>
  \<^verbatim>\<open>findNearestSlide\<close>.  Reading \<^verbatim>\<open>slidePositions[i]\<close> outside the array gives
  \<^verbatim>\<open>undefined\<close>, and the later read of its \<^verbatim>\<open>position\<close> raises a \<^verbatim>\<open>TypeError\<close>.
\<close>

definition slideAt :: "slide_pos list \<Rightarrow> nat \<Rightarrow> error + slide_pos" where
  "slideAt slidePositions i =
     (if i < length slidePositions then Inr (slidePositions ! i) else Inl TypeError)"

text \<open>The nearest slide by distance, before the velocity rule.\<close>

definition nearestByDistance :: "slide_pos list \<Rightarrow> real \<Rightarrow> slide_pos" where
  "nearestByDistance slidePositions projectedPosition =
     (let first = hd slidePositions
      in fst (scanSlides projectedPosition slidePositions
                (first, \<bar>projectedPosition - sp_position first\<bar>)))"

text \<open>
  The velocity rule: above 0.5 the slide next to the current one in the direction of the
  swipe, when the grid has one, replaces the nearest one.  Indices are naturals: \<open>max (c - 1) 0\<close> agrees with
  \<^verbatim>\<open>Math.max(c - 1, 0)\<close>, and the list is not empty where its length is decremented.
\<close>

definition forceAdjacent :: "slide_pos list \<Rightarrow> nat \<Rightarrow> real \<Rightarrow> slide_pos \<Rightarrow> error + slide_pos" where
  "forceAdjacent slidePositions currentSlideIndex vel nearestSlide =
     (let velocityThreshold = 0.5
      in if \<bar>vel\<bar> > velocityThreshold then
           (if vel < 0 then
              (let nextIndex = min (currentSlideIndex + 1) (length slidePositions - 1)
               in if nextIndex > currentSlideIndex then slideAt slidePositions nextIndex
                  else Inr nearestSlide)
            else if vel > 0 then
              (let prevIndex = max (currentSlideIndex - 1) 0
               in if prevIndex < currentSlideIndex then slideAt slidePositions prevIndex
                  else Inr nearestSlide)
            else Inr nearestSlide)
         else Inr nearestSlide)"

definition findNearestSlide :: "ts \<Rightarrow> real \<Rightarrow> real \<Rightarrow> error + slide_pos" where
  "findNearestSlide s currentPosition vel =
     (let slidePositions = getSlidePositions s
      in if length slidePositions = 0 then Inr \<lparr>sp_index = 0, sp_position = 0\<rparr>
         else
           let velocityOffset = vel * op_velocityMultiplier s * 100;
               projectedPosition = currentPosition + velocityOffset;
               nearestSlide = nearestByDistance slidePositions projectedPosition;
               bnd = getBounds s
           in case forceAdjacent slidePositions (st_currentSlideIndex s) vel nearestSlide of
                Inl err \<Rightarrow> Inl err
              | Inr sl \<Rightarrow>
                  Inr \<lparr>sp_index = sp_index sl,
                       sp_position = clamp (sp_position sl) (b_min bnd) (b_max bnd)\<rparr>)"

subsection \<open>Touch handlers\<close>

definition handleTouchStart :: "int \<Rightarrow> touch \<Rightarrow> ts \<Rightarrow> ts" where
  "handleTouchStart now e s =
     s\<lparr>tc_startX := clientX e, tc_startY := clientY e,
       tc_currentX := clientX e, tc_currentY := clientY e,
       tc_startTime := now,
       tc_startPositionX := st_currentX s,
       tc_isDirectionDetermined := False, tc_isHorizontalSwipe := False,
       tc_isTouching := True,
       tc_velocityX := 0,
       tc_history := [\<lparr>pt_x = st_currentX s, pt_time = now\<rparr>]\<rparr>"

text \<open>The block under \<^verbatim>\<open>if (!this.touch.isDirectionDetermined)\<close>.\<close>

definition determineDirection :: "real \<Rightarrow> real \<Rightarrow> ts \<Rightarrow> ts" where
  "determineDirection deltaX deltaY s =
     (let threshold = 10; absDeltaX = \<bar>deltaX\<bar>; absDeltaY = \<bar>deltaY\<bar>
      in if absDeltaX > threshold \<or> absDeltaY > threshold then
           (let tan80deg = 5.6713;
                s1 = s\<lparr>tc_isDirectionDetermined := True\<rparr>;
                s2 = (if absDeltaX = 0 then s1\<lparr>tc_isHorizontalSwipe := False\<rparr>
                      else s1\<lparr>tc_isHorizontalSwipe := (absDeltaY / absDeltaX < tan80deg)\<rparr>)
            in if tc_isHorizontalSwipe s2 then
                 (let s3 = (if an_rafId s2 \<noteq> Null
                            then dispatchEvent ''manualStop''
                                   (s2\<lparr>an_rafId := Null, an_isAnimating := False\<rparr>)
                            else s2);
                      s4 = s3\<lparr>st_isSnapping := False,
                              tc_startPositionX := st_currentX s3,
                              st_isDragging := True\<rparr>
                  in dispatchEvent ''sliderDragStart'' s4)
               else s2)
         else s)"

text \<open>
  The block under \<^verbatim>\<open>if (isDirectionDetermined && isHorizontalSwipe)\<close>: the resisted
  position is written and recorded in the history, which keeps the last 150ms.
  \<^verbatim>\<open>preventDefault\<close> is called without looking at \<^verbatim>\<open>e.cancelable\<close>.
\<close>

definition ts_drag :: "int \<Rightarrow> real \<Rightarrow> ts \<Rightarrow> ts" where
  "ts_drag now deltaX s =
     (let newPositionX = applyRubberBand s (tc_startPositionX s + deltaX);
          s1 = s\<lparr>st_currentX := newPositionX, st_targetX := newPositionX\<rparr>;
          s2 = s1\<lparr>tc_history := tc_history s1 @ [\<lparr>pt_x = newPositionX, pt_time = now\<rparr>]\<rparr>
      in s2\<lparr>tc_history := filter (\<lambda>p. now - pt_time p \<le> 150) (tc_history s2)\<rparr>)"

definition handleTouchMove :: "int \<Rightarrow> touch \<Rightarrow> ts \<Rightarrow> ts" where
  "handleTouchMove now e s =
     (if \<not> tc_isTouching s then s
      else
        let s1 = s\<lparr>tc_currentX := clientX e, tc_currentY := clientY e\<rparr>;
            deltaX = tc_currentX s1 - tc_startX s1;
            deltaY = tc_currentY s1 - tc_startY s1;
            s2 = (if \<not> tc_isDirectionDetermined s1 then determineDirection deltaX deltaY s1
                  else s1)
        in if tc_isDirectionDetermined s2 \<and> tc_isHorizontalSwipe s2
           then ts_drag now deltaX s2
           else s2)"

subsection \<open>The frame callback \<^verbatim>\<open>animate\<close>\<close>

definition moveEvent :: "ts \<Rightarrow> ts" where
  "moveEvent s =
     (if st_currentX s \<noteq> st_previousX s
      then (dispatchEvent ''sliderMove'' s)\<lparr>st_previousX := st_currentX s\<rparr>
      else s)"

text \<open>The branch of \<^verbatim>\<open>animate\<close> under \<^verbatim>\<open>if (this.state.isSnapping)\<close>.\<close>

definition animateSnap :: "ts \<Rightarrow> ts" where
  "animateSnap s =
     (let diff = st_snapTargetX s - st_currentX s;
          snapEasing = 0.15;
          s1 = s\<lparr>st_currentX := st_currentX s + diff * snapEasing\<rparr>
      in if \<bar>diff\<bar> < 0.5 then
           dispatchEvent ''sliderStop''
             (dispatchEvent ''sliderSnapComplete''
                (s1\<lparr>st_currentX := st_snapTargetX s1, st_isSnapping := False,
                    an_isAnimating := False, an_rafId := Null\<rparr>))
         else (moveEvent s1)\<lparr>an_rafId := Pending ()\<rparr>)"

text \<open>The spring at the edges, applied after the velocity has moved the track.\<close>

definition edgeSpring :: "ts \<Rightarrow> ts" where
  "edgeSpring s =
     (let bnd = getBounds s
      in if st_currentX s > b_max bnd then
           (let overshoot = st_currentX s - b_max bnd;
                springForce = - overshoot * op_bounce s;
                s1 = s\<lparr>tc_velocityX := (tc_velocityX s + springForce) * 0.95\<rparr>
            in if \<bar>overshoot\<bar> < 1 \<and> \<bar>tc_velocityX s1\<bar> < 0.1
               then s1\<lparr>st_currentX := b_max bnd, tc_velocityX := 0\<rparr>
               else s1)
         else if st_currentX s < b_min bnd then
           (let overshoot = b_min bnd - st_currentX s;
                springForce = overshoot * op_bounce s;
                s1 = s\<lparr>tc_velocityX := (tc_velocityX s + springForce) * 0.95\<rparr>
            in if \<bar>overshoot\<bar> < 1 \<and> \<bar>tc_velocityX s1\<bar> < 0.1
               then s1\<lparr>st_currentX := b_min bnd, tc_velocityX := 0\<rparr>
               else s1)
         else s)"

text \<open>The tail of \<^verbatim>\<open>animate\<close>: move by the velocity, spring, events, stop test.\<close>

definition animateMove :: "ts \<Rightarrow> ts" where
  "animateMove s =
     (let s1 = s\<lparr>st_currentX := st_currentX s + tc_velocityX s\<rparr>;
          s2 = moveEvent (edgeSpring s1)
      in if \<bar>tc_velocityX s2\<bar> < op_velocityThreshold s2
         then dispatchEvent ''sliderStop''
                (s2\<lparr>tc_velocityX := 0, an_isAnimating := False, an_rafId := Null\<rparr>)
         else s2\<lparr>an_rafId := Pending ()\<rparr>)"

definition startSnap :: "slide_pos \<Rightarrow> ts \<Rightarrow> ts" where
  "startSnap nearestSlide s =
     (let s1 = s\<lparr>st_isSnapping := True, st_snapTargetX := sp_position nearestSlide\<rparr>;
          s2 = (if sp_index nearestSlide \<noteq> st_currentSlideIndex s1
                then dispatchEvent ''slideChange''
                       (s1\<lparr>st_previousSlideIndex := st_currentSlideIndex s1,
                           st_currentSlideIndex := sp_index nearestSlide\<rparr>)
                else s1\<lparr>st_currentSlideIndex := sp_index nearestSlide\<rparr>)
      in (dispatchEvent ''sliderSnapStart'' s2)\<lparr>an_rafId := Pending ()\<rparr>)"

definition animate :: "ts \<Rightarrow> error + ts" where
  "animate s =
     (if \<not> an_isAnimating s then Inr s
      else if st_isSnapping s then Inr (animateSnap s)
      else if \<not> st_isDragging s then
        (let s1 = s\<lparr>tc_velocityX := tc_velocityX s * op_friction s\<rparr>
         in if \<not> op_freeMode s1 \<and> \<not> st_isSnapping s1
               \<and> \<bar>tc_velocityX s1\<bar> < op_velocityThreshold s1 * 3
            then (case findNearestSlide s1 (st_currentX s1) (tc_velocityX s1) of
                    Inl err \<Rightarrow> Inl err
                  | Inr nearestSlide \<Rightarrow> Inr (startSnap nearestSlide s1))
            else Inr (animateMove s1))
      else Inr (animateMove s))"

text \<open>The host's frame: it takes \<^verbatim>\<open>animate\<close> out of its queue and runs it.\<close>

definition ts_frame :: "ts \<Rightarrow> error + ts" where
  "ts_frame s = (if an_rafId s = Pending () then animate (s\<lparr>an_rafId := Fired\<rparr>) else Inr s)"

definition handleTouchEnd :: "int \<Rightarrow> ts \<Rightarrow> error + ts" where
  "handleTouchEnd now s =
     (let s1 = s\<lparr>tc_isTouching := False\<rparr>
      in if \<not> st_isDragging s1 then Inr s1
         else
           let s2 = s1\<lparr>tc_velocityX := ts_calculateVelocity now (tc_history s1) * 16\<rparr>;
               s3 = s2\<lparr>st_isDragging := False\<rparr>
           in case (if \<not> an_isAnimating s3 then animate (s3\<lparr>an_isAnimating := True\<rparr>)
                    else Inr s3) of
                Inl err \<Rightarrow> Inl err
              | Inr s4 \<Rightarrow> Inr (dispatchEvent ''sliderDragEnd'' s4))"

section \<open>Example instances\<close>

text \<open>
  Three slides of width 300 without margins in a container of width 300, leading-edge
  alignment: the grid is \<open>[0, -300, -600]\<close> and the bounds are 0 and -600.  The options
  are the defaults of the sources.
\<close>

definition defaultOptions :: options where
  "defaultOptions =
     \<lparr>freeMode = False, centered = True, friction = 95 / 100, angleThreshold = 65,
      speed = 300, springK = 5 / 100, springDamping = 8 / 10\<rparr>"

definition exampleSlider :: slider where
  "exampleSlider =
     \<lparr>opts = defaultOptions, slidesGrid = [0, -300, -600],
      minTranslate = 0, maxTranslate = -600,
      isDragging = False, startTouchX = 0, startTouchY = 0,
      currentTranslate = 0, startTranslate = 0, startTime = 0,
      isHorizontal = None, rafId = Null,
      velocity = 0, positions = [], events = []\<rparr>"

definition exampleTs :: ts where
  "exampleTs =
     \<lparr>op_friction = 94 / 100, op_bounce = 12 / 100, op_velocityThreshold = 1 / 10,
      op_freeMode = False, op_snapAlign = Start, op_velocityMultiplier = 12 / 10,
      st_currentX = 0, st_targetX = 0, st_isDragging = False,
      st_sliderWidth = 300, st_trackWidth = 900,
      st_isSnapping = False, st_snapTargetX = 0,
      st_currentSlideIndex = 0, st_previousSlideIndex = 0, st_previousX = 0,
      tc_startX = 0, tc_startY = 0, tc_currentX = 0, tc_currentY = 0,
      tc_startTime = 0, tc_startPositionX = 0,
      tc_isTouching = False, tc_isDirectionDetermined = False,
      tc_isHorizontalSwipe = False, tc_velocityX = 0, tc_history = [],
      an_rafId = Null, an_isAnimating = False,
      ts_slides = [300, 300, 300], ts_events = []\<rparr>"

text \<open>
  The claims speak of the entry that minimises the distance to the search position, the
  first such entry winning ties: \<open>firstMin sp xs k\<close> says that \<open>k\<close> is that index in \<open>xs\<close>.
\<close>

definition firstMin :: "real \<Rightarrow> real list \<Rightarrow> nat \<Rightarrow> bool" where
  "firstMin sp xs k \<longleftrightarrow>
     k < length xs
     \<and> (\<forall>j < length xs. \<bar>sp - xs ! k\<bar> \<le> \<bar>sp - xs ! j\<bar>)
     \<and> (\<forall>j < k. \<bar>sp - xs ! k\<bar> < \<bar>sp - xs ! j\<bar>)"

text \<open>The example instances in the middle of a horizontal drag.\<close>

definition dragSlider :: slider where
  "dragSlider = exampleSlider\<lparr>isDragging := True, isHorizontal := Some True\<rparr>"

definition dragTs :: ts where
  "dragTs = exampleTs\<lparr>tc_isTouching := True, tc_isDirectionDetermined := True,
                       tc_isHorizontalSwipe := True, st_isDragging := True\<rparr>"


text \<open>
  Degenerate instances: no slides at all, and a single slide of width 100 in a container
  of width 300.  A sequence of slide rectangles is laid out in a row when each one starts
  at or after the right edge of the one before.
\<close>

definition emptySlider :: slider where
  "emptySlider = exampleSlider\<lparr>slidesGrid := [], minTranslate := 0, maxTranslate := 0\<rparr>"

definition emptyTs :: ts where
  "emptyTs = exampleTs\<lparr>ts_slides := [], st_trackWidth := 0\<rparr>"

definition narrowTs :: ts where
  "narrowTs = calculateDimensions 300 (exampleTs\<lparr>ts_slides := [100]\<rparr>)"

fun inRow :: "rect_slide list \<Rightarrow> bool" where
  "inRow [] = True"
| "inRow [sl] = True"
| "inRow (sl # sl' # rest) = (rs_left sl + rs_width sl \<le> rs_left sl' \<and> inRow (sl' # rest))"

section \<open>Touch sessions\<close>

text \<open>
  A touch session is a touch start followed by move events, each with the time at which
  the handler runs.  \<open>sl_moves\<close> and \<open>ts_moves\<close> deliver the moves in order.  In
  \<^verbatim>\<open>TouchSlider.js\<close> the direction is held in two flags; \<open>ts_direction\<close> reads them as
  unknown (\<open>None\<close>), horizontal (\<open>Some True\<close>) or vertical (\<open>Some False\<close>).
\<close>

fun sl_moves :: "(int \<times> touch) list \<Rightarrow> slider \<Rightarrow> slider" where
  "sl_moves [] s = s"
| "sl_moves (m # ms) s = sl_moves ms (sl_onTouchMove (fst m) (snd m) s)"

fun p0_moves :: "(int \<times> touch) list \<Rightarrow> slider \<Rightarrow> slider" where
  "p0_moves [] s = s"
| "p0_moves (m # ms) s = p0_moves ms (p0_onTouchMove (fst m) (snd m) s)"

fun ts_moves :: "(int \<times> touch) list \<Rightarrow> ts \<Rightarrow> ts" where
  "ts_moves [] s = s"
| "ts_moves (m # ms) s = ts_moves ms (handleTouchMove (fst m) (snd m) s)"

definition ts_direction :: "ts \<Rightarrow> bool option" where
  "ts_direction s =
     (if tc_isDirectionDetermined s then Some (tc_isHorizontalSwipe s) else None)"

text \<open>
  The angle, in degrees, between the displacement \<open>(dx, dy)\<close> and the horizontal axis, and
  the two dead zones: \<^verbatim>\<open>slider.js\<close> ignores a move while both displacements are below
  10, \<^verbatim>\<open>TouchSlider.js\<close> until one of them exceeds 10.
\<close>

definition angleDeg :: "real \<Rightarrow> real \<Rightarrow> real" where
  "angleDeg dx dy = Math_atan2 \<bar>dy\<bar> \<bar>dx\<bar> * 180 / pi"

definition sl_inDeadZone :: "touch \<Rightarrow> touch \<Rightarrow> bool" where
  "sl_inDeadZone e0 e \<longleftrightarrow> \<bar>clientX e - clientX e0\<bar> < 10 \<and> \<bar>clientY e - clientY e0\<bar> < 10"

definition ts_inDeadZone :: "touch \<Rightarrow> touch \<Rightarrow> bool" where
  "ts_inDeadZone e0 e \<longleftrightarrow>
     \<not> (\<bar>clientX e - clientX e0\<bar> > 10 \<or> \<bar>clientY e - clientY e0\<bar> > 10)"

text \<open>
  The direction a session resolves to according to the claim: unknown while every move
  stays in the dead zone, otherwise decided by the first move outside it, horizontal when
  the angle is below the threshold.
\<close>

definition resolved :: "(touch \<Rightarrow> bool) \<Rightarrow> real \<Rightarrow> touch \<Rightarrow> (int \<times> touch) list \<Rightarrow> bool option" where
  "resolved dead threshold e0 ms =
     (case find (\<lambda>m. \<not> dead (snd m)) ms of
        None \<Rightarrow> None
      | Some m \<Rightarrow>
          Some (angleDeg (clientX (snd m) - clientX e0) (clientY (snd m) - clientY e0)
                < threshold))"

text \<open>
  An example session: a touch at the origin, a move inside the dead zone, a move to
  (20, 5), and a later move straight down to (20, 500).
\<close>

definition touchAt :: "real \<Rightarrow> real \<Rightarrow> touch" where
  "touchAt x y = \<lparr>clientX = x, clientY = y, cancelable = True\<rparr>"

definition swipeMoves :: "(int \<times> touch) list" where
  "swipeMoves = [(16, touchAt 3 2), (32, touchAt 20 5)]"

definition laterMoves :: "(int \<times> touch) list" where
  "laterMoves = [(48, touchAt 20 500)]"

text \<open>What a touch session of \<^verbatim>\<open>TouchSlider.js\<close> may change besides the touch record.\<close>

definition ts_motion :: "ts \<Rightarrow> real \<times> bool \<times> unit raf \<times> bool \<times> bool \<times> string list" where
  "ts_motion s =
     (st_currentX s, st_isDragging s, an_rafId s, an_isAnimating s, st_isSnapping s, ts_events s)"


text \<open>
  A second touch start while a horizontal drag is in progress.  The first finger touches at
  the origin and drags the track from 0 to -100; then a second finger touches.  The
  handlers read \<^verbatim>\<open>e.touches[0]\<close>, which is still the first finger, at (-100, 0).  The
  session that follows is a tap (no move) or one move straight down.
\<close>

definition secondTouchTs :: ts where
  "secondTouchTs =
     handleTouchStart 32 (touchAt (-100) 0)
       (ts_moves [(16, touchAt (-100) 0)] (handleTouchStart 0 (touchAt 0 0) exampleTs))"

definition secondTouchSlider :: slider where
  "secondTouchSlider =
     onTouchStart 32 (touchAt (-100) 0)
       (sl_moves [(16, touchAt (-100) 0)] (onTouchStart 0 (touchAt 0 0) exampleSlider))"

definition downMoves :: "(int \<times> touch) list" where
  "downMoves = [(40, touchAt (-100) 50)]"

section \<open>Frames of the inertia loop\<close>

text \<open>
  \<open>reaches frame terminal nows s\<close>: firing one frame per timestamp of \<open>nows\<close> from \<open>s\<close>, a
  terminal state is met at the latest when the timestamps are used up.
\<close>

fun reaches :: "('i \<Rightarrow> 's \<Rightarrow> 's) \<Rightarrow> ('s \<Rightarrow> bool) \<Rightarrow> 'i list \<Rightarrow> 's \<Rightarrow> bool" where
  "reaches frame terminal [] s = terminal s"
| "reaches frame terminal (i # rest) s =
     (terminal s \<or> reaches frame terminal rest (frame i s))"

text \<open>
  In \<^verbatim>\<open>slider.js\<close> and \<^verbatim>\<open>part_000\<close> the inertia loop is running when no drag is in progress
  and \<^verbatim>\<open>step\<close> is pending with its closure position equal to the track offset (as
  \<^verbatim>\<open>startInertia\<close> sets it up and every frame keeps it); its velocity is the closure
  variable.  The loop has halted when \<^verbatim>\<open>sliderStop\<close> was emitted and nothing is pending, or
  a timed animation (\<^verbatim>\<open>snapToNearest\<close>, \<^verbatim>\<open>snapToBounds\<close>) is pending.  In \<^verbatim>\<open>slider.js\<close>
  the return to the bounds is the spring branch of the same loop: it is entered when the
  loop is pending with its position beyond a bound.
\<close>

definition inertiaRunning :: "slider \<Rightarrow> bool" where
  "inertiaRunning s \<longleftrightarrow>
     \<not> isDragging s \<and> (\<exists>v lt. rafId s = Pending (InertiaStep v (currentTranslate s) lt))"

definition inertiaVelocity :: "slider \<Rightarrow> real" where
  "inertiaVelocity s = (case rafId s of Pending (InertiaStep v cur lt) \<Rightarrow> v | _ \<Rightarrow> 0)"

definition halted :: "slider \<Rightarrow> bool" where
  "halted s \<longleftrightarrow>
     phase s = Animating
     \<or> (rafId s = Fired \<and> events s \<noteq> [] \<and> last (events s) = ''sliderStop'')"

definition sl_terminal :: "slider \<Rightarrow> bool" where
  "sl_terminal s \<longleftrightarrow>
     halted s
     \<or> (phase s = Inertia
        \<and> (currentTranslate s > minTranslate s \<or> currentTranslate s < maxTranslate s))"

text \<open>
  In \<^verbatim>\<open>TouchSlider.js\<close> a frame is \<^verbatim>\<open>animate\<close>, which ignores the timestamp the host
  passes; an exception ends the run.  The inertia phase is running when \<^verbatim>\<open>animate\<close> is
  pending with \<^verbatim>\<open>isAnimating\<close> set and neither a snap nor a drag in progress.  Terminal
  are: the snap has started, \<^verbatim>\<open>sliderStop\<close> was emitted, or the loop goes on with the
  track beyond a bound, where the edge spring acts.
\<close>

definition ts_frameAt :: "int \<Rightarrow> error + ts \<Rightarrow> error + ts" where
  "ts_frameAt now r = (case r of Inl err \<Rightarrow> Inl err | Inr s \<Rightarrow> ts_frame s)"

definition ts_inertiaRunning :: "ts \<Rightarrow> bool" where
  "ts_inertiaRunning s \<longleftrightarrow>
     an_isAnimating s \<and> \<not> st_isSnapping s \<and> \<not> st_isDragging s \<and> an_rafId s = Pending ()"

definition ts_terminal :: "error + ts \<Rightarrow> bool" where
  "ts_terminal r =
     (case r of
        Inl err \<Rightarrow> False
      | Inr s \<Rightarrow>
          (st_isSnapping s \<and> an_rafId s = Pending ())
          \<or> (\<not> an_isAnimating s \<and> ts_events s \<noteq> [] \<and> last (ts_events s) = ''sliderStop'')
          \<or> (an_rafId s = Pending ()
             \<and> (st_currentX s > b_max (getBounds s) \<or> st_currentX s < b_min (getBounds s))))"

text \<open>
  The example instances right after a release at 2 px/ms, resp. 20 px per frame, with the
  friction option set to 1/2, and eleven frame times 16ms apart.
\<close>

definition flungSlider :: slider where
  "flungSlider =
     exampleSlider\<lparr>opts := defaultOptions\<lparr>friction := 1 / 2\<rparr>, currentTranslate := -300,
                    rafId := Pending (InertiaStep 2 (-300) 0)\<rparr>"

definition flungTs :: ts where
  "flungTs = exampleTs\<lparr>op_friction := 1 / 2, st_currentX := -300, tc_velocityX := 20,
                        an_isAnimating := True, an_rafId := Pending ()\<rparr>"

definition frameTimes :: "int list" where
  "frameTimes = [16, 32, 48, 64, 80, 96, 112, 128, 144, 160, 176]"

text \<open>What a frame of the inertia phase of \<^verbatim>\<open>TouchSlider.js\<close> never changes.\<close>

definition ts_fixed :: "ts \<Rightarrow> (real \<times> real \<times> bool \<times> real) \<times> (nat \<times> real list \<times> real \<times> real)" where
  "ts_fixed s =
     ((op_friction s, op_velocityThreshold s, op_freeMode s, op_velocityMultiplier s),
      (st_currentSlideIndex s, ts_slides s, st_trackWidth s, st_sliderWidth s))"

definition ts_outOfBounds :: "ts \<Rightarrow> bool" where
  "ts_outOfBounds s \<longleftrightarrow>
     st_currentX s > b_max (getBounds s) \<or> st_currentX s < b_min (getBounds s)"

section \<open>Velocity estimator: results\<close>

lemma filter_window_absorb:
  fixes t T :: int
  assumes "t \<le> T"
  shows "filter (\<lambda>p. T - pt_time p < 100) (filter (\<lambda>p. t - pt_time p < 100) xs)
         = filter (\<lambda>p. T - pt_time p < 100) xs"
proof -
  have both: "(t - pt_time p < 100 \<and> T - pt_time p < 100) = (T - pt_time p < 100)" for p
    using assms by auto
  show ?thesis by (simp add: both)
qed

lemma recordAll_window_gen:
  "ss \<noteq> [] \<Longrightarrow> sorted (map pt_time ss) \<Longrightarrow>
   recordAll ps ss = filter (\<lambda>p. pt_time (last ss) - pt_time p < 100) (ps @ ss)"
proof (induction ss arbitrary: ps)
  case Nil
  then show ?case by simp
next
  case (Cons s ss)
  show ?case
  proof (cases "ss = []")
    case True
    then show ?thesis by (simp add: trackVelocity_def)
  next
    case False
    from Cons.prems have srt: "sorted (map pt_time ss)" by simp
    from Cons.prems False have le: "pt_time s \<le> pt_time (last ss)" by simp
    have "recordAll ps (s # ss) =
          filter (\<lambda>p. pt_time (last ss) - pt_time p < 100)
            (trackVelocity (pt_time s) (pt_x s) ps @ ss)"
      using Cons.IH [OF False srt] by simp
    also have "\<dots> = filter (\<lambda>p. pt_time (last ss) - pt_time p < 100) (ps @ [s] @ ss)"
      using filter_window_absorb [OF le, of "ps @ [s]"]
      by (simp add: trackVelocity_def)
    finally show ?thesis using False by simp
  qed
qed

text \<open>
  The retained window of a session: after recording the samples \<open>ss\<close> (time-ordered, as
  \<^verbatim>\<open>Date.now()\<close> delivers them), the history holds exactly the samples less than 100ms
  older than the latest one.
\<close>

lemma recordAll_window:
  "ss \<noteq> [] \<Longrightarrow> sorted (map pt_time ss) \<Longrightarrow>
   recordAll [] ss = filter (\<lambda>p. pt_time (last ss) - pt_time p < 100) ss"
  using recordAll_window_gen [of ss "[]"] by simp

text \<open>
  Claim C1.  The velocity estimator returns 0 when fewer than two samples remain in the
  retained window or when the first and the last retained sample carry the same timestamp;
  otherwise it returns (last.position - first.position) / (last.timestamp - first.timestamp)
  over the retained window.  This holds for \<open>calculateVelocity\<close> of \<^verbatim>\<open>slider.js\<close> (the
  window is the recorded history) and of \<^verbatim>\<open>TouchSlider.js\<close> (the window is the history
  filtered at estimation time, the samples at most 100ms older than the time of the
  estimate).  For the samples (0,0), (10,50), (20,100) (position, ms) under the 100ms
  window both return 1/5 = 0.2 px/ms.  The recorded history of \<^verbatim>\<open>slider.js\<close> is the
  trailing window of the session: after the samples of a session have been recorded in
  the order of their timestamps, it holds exactly the samples less than 100ms older than
  the latest one.
\<close>

theorem C1_velocity_estimator:
  "calculateVelocity ps =
     (if length ps < 2 \<or> pt_time (last ps) - pt_time (hd ps) = 0 then 0
      else (pt_x (last ps) - pt_x (hd ps)) / real_of_int (pt_time (last ps) - pt_time (hd ps)))
   \<and> ts_calculateVelocity now h =
     (if length (ts_recentHistory now h) < 2
         \<or> pt_time (last (ts_recentHistory now h)) - pt_time (hd (ts_recentHistory now h)) = 0
      then 0
      else (pt_x (last (ts_recentHistory now h)) - pt_x (hd (ts_recentHistory now h)))
           / real_of_int (pt_time (last (ts_recentHistory now h))
                          - pt_time (hd (ts_recentHistory now h))))
   \<and> calculateVelocity
       (recordAll [] [\<lparr>pt_x = 0, pt_time = 0\<rparr>, \<lparr>pt_x = 10, pt_time = 50\<rparr>,
                      \<lparr>pt_x = 20, pt_time = 100\<rparr>]) = 2 / 10
   \<and> ts_calculateVelocity 100
       [\<lparr>pt_x = 0, pt_time = 0\<rparr>, \<lparr>pt_x = 10, pt_time = 50\<rparr>, \<lparr>pt_x = 20, pt_time = 100\<rparr>]
       = 2 / 10
   \<and> (ss \<noteq> [] \<longrightarrow> sorted (map pt_time ss) \<longrightarrow>
        recordAll [] ss = filter (\<lambda>p. pt_time (last ss) - pt_time p < 100) ss)"
proof (intro conjI impI)
  show "calculateVelocity ps =
     (if length ps < 2 \<or> pt_time (last ps) - pt_time (hd ps) = 0 then 0
      else (pt_x (last ps) - pt_x (hd ps)) / real_of_int (pt_time (last ps) - pt_time (hd ps)))"
    by (simp add: calculateVelocity_def Let_def)
next
  show "ts_calculateVelocity now h =
     (if length (ts_recentHistory now h) < 2
         \<or> pt_time (last (ts_recentHistory now h)) - pt_time (hd (ts_recentHistory now h)) = 0
      then 0
      else (pt_x (last (ts_recentHistory now h)) - pt_x (hd (ts_recentHistory now h)))
           / real_of_int (pt_time (last (ts_recentHistory now h))
                          - pt_time (hd (ts_recentHistory now h))))"
    by (simp add: ts_calculateVelocity_def Let_def)
next
  show "calculateVelocity
       (recordAll [] [\<lparr>pt_x = 0, pt_time = 0\<rparr>, \<lparr>pt_x = 10, pt_time = 50\<rparr>,
                      \<lparr>pt_x = 20, pt_time = 100\<rparr>]) = 2 / 10"
    by (simp add: calculateVelocity_def trackVelocity_def)
next
  show "ts_calculateVelocity 100
       [\<lparr>pt_x = 0, pt_time = 0\<rparr>, \<lparr>pt_x = 10, pt_time = 50\<rparr>, \<lparr>pt_x = 20, pt_time = 100\<rparr>]
       = 2 / 10"
    by (simp add: ts_calculateVelocity_def ts_recentHistory_def)
next
  assume "ss \<noteq> []" and "sorted (map pt_time ss)"
  then show "recordAll [] ss = filter (\<lambda>p. pt_time (last ss) - pt_time p < 100) ss"
    by (rule recordAll_window)
qed

theorem C1_velocity_estimator_witness:
  "calculateVelocity [\<lparr>pt_x = 3, pt_time = 7\<rparr>] = 0
   \<and> calculateVelocity [\<lparr>pt_x = 3, pt_time = 7\<rparr>, \<lparr>pt_x = 9, pt_time = 7\<rparr>] = 0
   \<and> calculateVelocity [\<lparr>pt_x = 3, pt_time = 7\<rparr>, \<lparr>pt_x = 9, pt_time = 10\<rparr>] = 2
   \<and> ts_calculateVelocity 120 [\<lparr>pt_x = 0, pt_time = 0\<rparr>, \<lparr>pt_x = 10, pt_time = 50\<rparr>,
                                \<lparr>pt_x = 25, pt_time = 100\<rparr>] = 3 / 10
   \<and> recordAll [] [\<lparr>pt_x = 0, pt_time = 0\<rparr>, \<lparr>pt_x = 10, pt_time = 500\<rparr>]
       = [\<lparr>pt_x = 10, pt_time = 500\<rparr>]
   \<and> calculateVelocity (recordAll [] [\<lparr>pt_x = 0, pt_time = 0\<rparr>, \<lparr>pt_x = 10, pt_time = 500\<rparr>])
       = 0"
  using C1_velocity_estimator [of "[\<lparr>pt_x = 3, pt_time = 7\<rparr>]" 120
          "[\<lparr>pt_x = 0, pt_time = 0\<rparr>, \<lparr>pt_x = 10, pt_time = 50\<rparr>, \<lparr>pt_x = 25, pt_time = 100\<rparr>]"
          "[\<lparr>pt_x = 0, pt_time = 0\<rparr>, \<lparr>pt_x = 10, pt_time = 500\<rparr>]"]
        C1_velocity_estimator [of "[\<lparr>pt_x = 3, pt_time = 7\<rparr>, \<lparr>pt_x = 9, pt_time = 7\<rparr>]" 0 "[]"
          "[\<lparr>pt_x = 0, pt_time = 0\<rparr>, \<lparr>pt_x = 10, pt_time = 500\<rparr>]"]
        C1_velocity_estimator [of "[\<lparr>pt_x = 3, pt_time = 7\<rparr>, \<lparr>pt_x = 9, pt_time = 10\<rparr>]" 0 "[]"
          "[\<lparr>pt_x = 0, pt_time = 0\<rparr>, \<lparr>pt_x = 10, pt_time = 500\<rparr>]"]
        C1_velocity_estimator [of "[\<lparr>pt_x = 10, pt_time = 500\<rparr>]" 0 "[]"
          "[\<lparr>pt_x = 0, pt_time = 0\<rparr>, \<lparr>pt_x = 10, pt_time = 500\<rparr>]"]
  by (simp add: ts_recentHistory_def)

section \<open>Nearest slide: results\<close>

lemma firstMin_snoc_new:
  assumes "firstMin sp pre k" and "\<bar>sp - pos\<bar> < \<bar>sp - pre ! k\<bar>"
  shows "firstMin sp (pre @ [pos]) (length pre)"
  unfolding firstMin_def
proof (intro conjI allI impI)
  show "length pre < length (pre @ [pos])" by simp
next
  fix j assume "j < length (pre @ [pos])"
  then show "\<bar>sp - (pre @ [pos]) ! length pre\<bar> \<le> \<bar>sp - (pre @ [pos]) ! j\<bar>"
    using assms by (cases "j < length pre") (force simp: nth_append firstMin_def)+
next
  fix j assume "j < length pre"
  then show "\<bar>sp - (pre @ [pos]) ! length pre\<bar> < \<bar>sp - (pre @ [pos]) ! j\<bar>"
    using assms by (force simp: nth_append firstMin_def)
qed

lemma firstMin_snoc_keep:
  assumes "firstMin sp pre k" and "\<not> \<bar>sp - pos\<bar> < \<bar>sp - pre ! k\<bar>"
  shows "firstMin sp (pre @ [pos]) k"
  unfolding firstMin_def
proof (intro conjI allI impI)
  show "k < length (pre @ [pos])" using assms(1) by (simp add: firstMin_def)
next
  fix j assume "j < length (pre @ [pos])"
  then show "\<bar>sp - (pre @ [pos]) ! k\<bar> \<le> \<bar>sp - (pre @ [pos]) ! j\<bar>"
    using assms by (cases "j < length pre") (force simp: nth_append firstMin_def)+
next
  fix j assume "j < k"
  then show "\<bar>sp - (pre @ [pos]) ! k\<bar> < \<bar>sp - (pre @ [pos]) ! j\<bar>"
    using assms by (force simp: nth_append firstMin_def)
qed

lemma firstMin_less: "firstMin sp xs k \<Longrightarrow> k < length xs"
  by (simp add: firstMin_def)

text \<open>
  The loop invariant of the scan of \<^verbatim>\<open>snapToNearest\<close>: after the entries \<open>pre\<close> the
  accumulator holds the first minimiser among them.
\<close>

lemma scanGrid_firstMin:
  "firstMin sp pre k \<Longrightarrow>
   scanGrid sp rest (length pre) (pre ! k, \<bar>sp - pre ! k\<bar>, k) = (c', d', k') \<Longrightarrow>
   firstMin sp (pre @ rest) k' \<and> c' = (pre @ rest) ! k'"
proof (induction rest arbitrary: pre k)
  case Nil
  then show ?case by auto
next
  case (Cons pos rest)
  from Cons.prems(1) have k: "k < length pre" by (rule firstMin_less)
  show ?case
  proof (cases "\<bar>sp - pos\<bar> < \<bar>sp - pre ! k\<bar>")
    case True
    have "scanGrid sp rest (length (pre @ [pos]))
            ((pre @ [pos]) ! length pre, \<bar>sp - (pre @ [pos]) ! length pre\<bar>, length pre)
          = (c', d', k')"
      using Cons.prems(2) True by simp
    from Cons.IH [OF firstMin_snoc_new [OF Cons.prems(1) True] this]
    show ?thesis by simp
  next
    case False
    have "scanGrid sp rest (length (pre @ [pos]))
            ((pre @ [pos]) ! k, \<bar>sp - (pre @ [pos]) ! k\<bar>, k) = (c', d', k')"
      using Cons.prems(2) False k by (simp add: nth_append)
    from Cons.IH [OF firstMin_snoc_keep [OF Cons.prems(1) False] this]
    show ?thesis by simp
  qed
qed

lemma snapTarget_nonempty:
  assumes "grid \<noteq> []"
  shows "\<exists>k. firstMin sp grid k \<and>
           snapTarget sp grid minT maxT = (Some (max maxT (min minT (grid ! k))), k)"
proof -
  from assms obtain g rest where grid: "grid = g # rest" by (cases grid) auto
  obtain c' d' k' where sc: "scanGrid sp rest 1 (g, \<bar>sp - g\<bar>, 0) = (c', d', k')"
    by (cases "scanGrid sp rest 1 (g, \<bar>sp - g\<bar>, 0)") auto
  then have "scanGrid sp rest (length [g]) ([g] ! 0, \<bar>sp - [g] ! 0\<bar>, 0) = (c', d', k')"
    by simp
  moreover have "firstMin sp [g] 0" by (simp add: firstMin_def)
  ultimately have "firstMin sp grid k'" and "c' = grid ! k'"
    using scanGrid_firstMin [of sp "[g]" 0 rest c' d' k'] by (simp_all add: grid)
  moreover have "snapTarget sp grid minT maxT = (Some (max maxT (min minT c')), k')"
    using sc by (auto simp: snapTarget_def grid Let_def)
  ultimately show ?thesis by blast
qed

text \<open>The same invariant for the \<^verbatim>\<open>forEach\<close> of \<^verbatim>\<open>findNearestSlide\<close>.\<close>

lemma scanSlides_firstMin:
  "firstMin sp (map sp_position pre) k \<Longrightarrow>
   scanSlides sp rest (pre ! k, \<bar>sp - sp_position (pre ! k)\<bar>) = (sl', d') \<Longrightarrow>
   \<exists>k'. firstMin sp (map sp_position (pre @ rest)) k' \<and> sl' = (pre @ rest) ! k'"
proof (induction rest arbitrary: pre k)
  case Nil
  then show ?case by auto
next
  case (Cons x rest)
  from Cons.prems(1) have k: "k < length pre" using firstMin_less by fastforce
  show ?case
  proof (cases "\<bar>sp - sp_position x\<bar> < \<bar>sp - sp_position (pre ! k)\<bar>")
    case True
    then have "\<bar>sp - sp_position x\<bar> < \<bar>sp - map sp_position pre ! k\<bar>" using k by simp
    from firstMin_snoc_new [OF Cons.prems(1) this]
    have fm: "firstMin sp (map sp_position (pre @ [x])) (length pre)" by simp
    have "scanSlides sp rest ((pre @ [x]) ! length pre,
            \<bar>sp - sp_position ((pre @ [x]) ! length pre)\<bar>) = (sl', d')"
      using Cons.prems(2) True by simp
    from Cons.IH [OF fm this] show ?thesis by simp
  next
    case False
    then have "\<not> \<bar>sp - sp_position x\<bar> < \<bar>sp - map sp_position pre ! k\<bar>" using k by simp
    from firstMin_snoc_keep [OF Cons.prems(1) this]
    have fm: "firstMin sp (map sp_position (pre @ [x])) k" by simp
    have "scanSlides sp rest ((pre @ [x]) ! k, \<bar>sp - sp_position ((pre @ [x]) ! k)\<bar>) = (sl', d')"
      using Cons.prems(2) False k by (simp add: nth_append)
    from Cons.IH [OF fm this] show ?thesis by simp
  qed
qed

lemma nearestByDistance_firstMin:
  assumes "xs \<noteq> []"
  shows "\<exists>k. firstMin sp (map sp_position xs) k \<and> nearestByDistance xs sp = xs ! k"
proof -
  from assms obtain x rest where xs: "xs = x # rest" by (cases xs) auto
  obtain sl' d' where sc: "scanSlides sp rest (x, \<bar>sp - sp_position x\<bar>) = (sl', d')"
    by (cases "scanSlides sp rest (x, \<bar>sp - sp_position x\<bar>)") auto
  then have "scanSlides sp rest ([x] ! 0, \<bar>sp - sp_position ([x] ! 0)\<bar>) = (sl', d')" by simp
  moreover have "firstMin sp (map sp_position [x]) 0" by (simp add: firstMin_def)
  ultimately obtain k' where
    "firstMin sp (map sp_position ([x] @ rest)) k'" "sl' = ([x] @ rest) ! k'"
    using scanSlides_firstMin by blast
  then show ?thesis using sc by (auto simp: xs nearestByDistance_def)
qed

lemma slidePositionsFrom_length:
  "length (slidePositionsFrom a sw i off ws) = length ws"
  by (induction ws arbitrary: i off) (simp_all add: Let_def)

lemma slidePositionsFrom_index:
  "j < length ws \<Longrightarrow> sp_index (slidePositionsFrom a sw i off ws ! j) = i + j"
proof (induction ws arbitrary: i off j)
  case Nil
  then show ?case by simp
next
  case (Cons w ws)
  then show ?case by (cases j) (simp_all add: Let_def)
qed

lemma clamp_in_bounds: "lo \<le> hi \<Longrightarrow> lo \<le> clamp v lo hi \<and> clamp v lo hi \<le> hi"
  by (auto simp: clamp_def)

text \<open>
  The velocity rule of \<^verbatim>\<open>findNearestSlide\<close> replaces the nearest slide only when the
  velocity magnitude exceeds 0.5 and the current slide has a neighbour in the direction of
  the swipe: the next slide for a negative velocity, the previous one for a positive
  velocity.  In every other case the nearest slide is returned.
\<close>

lemma findNearestSlide_nearest:
  assumes "ts_slides s \<noteq> []"
    and "\<bar>vel\<bar> \<le> 1 / 2
         \<or> (vel < 0 \<and> length (ts_slides s) \<le> st_currentSlideIndex s + 1)
         \<or> (0 < vel \<and> st_currentSlideIndex s = 0)"
  shows "\<exists>k. firstMin (cur + vel * op_velocityMultiplier s * 100)
                (map sp_position (getSlidePositions s)) k
           \<and> findNearestSlide s cur vel =
               Inr \<lparr>sp_index = k,
                    sp_position = clamp (sp_position (getSlidePositions s ! k))
                                    (b_min (getBounds s)) (b_max (getBounds s))\<rparr>"
proof -
  let ?xs = "getSlidePositions s"
  let ?sp = "cur + vel * op_velocityMultiplier s * 100"
  have len: "length ?xs = length (ts_slides s)"
    by (simp add: getSlidePositions_def slidePositionsFrom_length)
  with assms(1) have ne: "?xs \<noteq> []" by auto
  from nearestByDistance_firstMin [OF ne, of ?sp] obtain k where
    fm: "firstMin ?sp (map sp_position ?xs) k" and sc: "nearestByDistance ?xs ?sp = ?xs ! k"
    by blast
  from fm have "k < length (ts_slides s)" by (simp add: firstMin_def len)
  then have idx: "sp_index (?xs ! k) = k"
    by (simp add: getSlidePositions_def slidePositionsFrom_index)
  have "forceAdjacent ?xs (st_currentSlideIndex s) vel (?xs ! k) = Inr (?xs ! k)"
    using assms(2) by (auto simp: forceAdjacent_def Let_def len)
  then have "findNearestSlide s cur vel =
          Inr \<lparr>sp_index = k,
               sp_position = clamp (sp_position (?xs ! k))
                               (b_min (getBounds s)) (b_max (getBounds s))\<rparr>"
    using ne sc idx by (simp add: findNearestSlide_def Let_def)
  with fm show ?thesis by blast
qed

lemma findNearestSlide_forced:
  assumes "\<bar>vel\<bar> > 1 / 2"
  shows "vel < 0 \<Longrightarrow> st_currentSlideIndex s + 1 < length (ts_slides s) \<Longrightarrow>
           findNearestSlide s cur vel =
             Inr \<lparr>sp_index = st_currentSlideIndex s + 1,
                  sp_position = clamp (sp_position (getSlidePositions s ! (st_currentSlideIndex s + 1)))
                                  (b_min (getBounds s)) (b_max (getBounds s))\<rparr>"
    and "0 < vel \<Longrightarrow> 0 < st_currentSlideIndex s \<Longrightarrow>
           st_currentSlideIndex s \<le> length (ts_slides s) \<Longrightarrow>
           findNearestSlide s cur vel =
             Inr \<lparr>sp_index = st_currentSlideIndex s - 1,
                  sp_position = clamp (sp_position (getSlidePositions s ! (st_currentSlideIndex s - 1)))
                                  (b_min (getBounds s)) (b_max (getBounds s))\<rparr>"
proof -
  let ?xs = "getSlidePositions s"
  let ?c = "st_currentSlideIndex s"
  have len: "length ?xs = length (ts_slides s)"
    by (simp add: getSlidePositions_def slidePositionsFrom_length)
  have idx: "sp_index (?xs ! j) = j" if "j < length (ts_slides s)" for j
    using that by (simp add: getSlidePositions_def slidePositionsFrom_index)
  {
    assume a: "vel < 0" "?c + 1 < length (ts_slides s)"
    then have "forceAdjacent ?xs ?c vel sl = Inr (?xs ! (?c + 1))" for sl
      using assms by (auto simp: forceAdjacent_def Let_def len slideAt_def min_def)
    moreover from a len have "?xs \<noteq> []" by auto
    ultimately show "findNearestSlide s cur vel =
             Inr \<lparr>sp_index = ?c + 1,
                  sp_position = clamp (sp_position (?xs ! (?c + 1)))
                                  (b_min (getBounds s)) (b_max (getBounds s))\<rparr>"
      using a idx [of "?c + 1"] by (simp add: findNearestSlide_def Let_def len)
  }
  {
    assume a: "0 < vel" "0 < ?c" "?c \<le> length (ts_slides s)"
    then have "forceAdjacent ?xs ?c vel sl = Inr (?xs ! (?c - 1))" for sl
      using assms by (auto simp: forceAdjacent_def Let_def len slideAt_def max_def)
    moreover from a len have "?xs \<noteq> []" by auto
    ultimately show "findNearestSlide s cur vel =
             Inr \<lparr>sp_index = ?c - 1,
                  sp_position = clamp (sp_position (?xs ! (?c - 1)))
                                  (b_min (getBounds s)) (b_max (getBounds s))\<rparr>"
      using a idx [of "?c - 1"] by (simp add: findNearestSlide_def Let_def len)
  }
qed

lemma findNearestSlide_in_bounds:
  assumes "b_min (getBounds s) \<le> b_max (getBounds s)"
    and "findNearestSlide s cur vel = Inr sl"
  shows "b_min (getBounds s) \<le> sp_position sl \<and> sp_position sl \<le> b_max (getBounds s)"
proof (cases "length (getSlidePositions s) = 0")
  case True
  then have "sl = \<lparr>sp_index = 0, sp_position = 0\<rparr>"
    using assms(2) by (simp add: findNearestSlide_def Let_def)
  then show ?thesis using assms(1) by (simp add: getBounds_def)
next
  case False
  then obtain x where "sp_position sl = clamp x (b_min (getBounds s)) (b_max (getBounds s))"
    using assms(2) by (auto simp: findNearestSlide_def Let_def split: sum.splits)
  then show ?thesis using clamp_in_bounds [OF assms(1)] by simp
qed

lemma exampleTs_positions:
  "getSlidePositions exampleTs =
     [\<lparr>sp_index = 0, sp_position = 0\<rparr>, \<lparr>sp_index = 1, sp_position = -300\<rparr>,
      \<lparr>sp_index = 2, sp_position = -600\<rparr>]"
  by (simp add: getSlidePositions_def exampleTs_def)

lemma exampleTs_bounds: "getBounds exampleTs = \<lparr>b_min = -600, b_max = 0\<rparr>"
  by (simp add: getBounds_def exampleTs_def)

lemma exampleTs_fields:
  "op_velocityMultiplier exampleTs = 12 / 10" "st_currentSlideIndex exampleTs = 0"
  "ts_slides exampleTs = [300, 300, 300]"
  by (simp_all add: exampleTs_def)

lemma findNearestSlide_example:
  "findNearestSlide exampleTs (-620) 0 = Inr \<lparr>sp_index = 2, sp_position = -600\<rparr>"
proof -
  have "nearestByDistance (getSlidePositions exampleTs) (-620)
        = \<lparr>sp_index = 2, sp_position = -600\<rparr>"
    by (simp add: nearestByDistance_def exampleTs_positions)
  then show ?thesis
    by (simp add: findNearestSlide_def forceAdjacent_def exampleTs_positions
        exampleTs_bounds exampleTs_fields clamp_def)
qed

lemma findNearestSlide_flick:
  "findNearestSlide exampleTs 0 (-1) = Inr \<lparr>sp_index = 1, sp_position = -300\<rparr>"
proof -
  have "nearestByDistance (getSlidePositions exampleTs) (-120)
        = \<lparr>sp_index = 0, sp_position = 0\<rparr>"
    by (simp add: nearestByDistance_def exampleTs_positions)
  then show ?thesis
    by (simp add: findNearestSlide_def forceAdjacent_def exampleTs_positions
        exampleTs_bounds exampleTs_fields clamp_def slideAt_def)
qed

text \<open>
  Claim C2, as amended.  For a non-empty grid, \<^verbatim>\<open>snapToNearest\<close> of \<^verbatim>\<open>part_000\<close> picks
  the first entry that minimises the distance to the search position and animates to that
  entry clamped by the two bounds; the target lies within [maxTranslate, minTranslate]
  whenever maxTranslate \<le> minTranslate.  \<^verbatim>\<open>findNearestSlide\<close> of \<^verbatim>\<open>TouchSlider.js\<close>
  does the same for the projected position, unless the velocity magnitude exceeds 0.5 and
  the current slide has a neighbour in the direction of the swipe (a next slide for a
  negative velocity, a previous one for a positive velocity); its result lies within the
  bounds for every velocity when the lower bound does not exceed the upper one.  With
  grid [0, -300, -600] and bounds 0 and -600 a search at -620 yields -600, index 2.
\<close>

theorem C2_nearest_slide:
  "(grid \<noteq> [] \<longrightarrow>
      (\<exists>k. firstMin sp grid k
         \<and> snapTarget sp grid minT maxT = (Some (max maxT (min minT (grid ! k))), k)
         \<and> (maxT \<le> minT \<longrightarrow>
              maxT \<le> max maxT (min minT (grid ! k))
              \<and> max maxT (min minT (grid ! k)) \<le> minT)))
   \<and> (ts_slides s \<noteq> [] \<longrightarrow>
      (\<bar>vel\<bar> \<le> 1 / 2
         \<or> (vel < 0 \<and> length (ts_slides s) \<le> st_currentSlideIndex s + 1)
         \<or> (0 < vel \<and> st_currentSlideIndex s = 0)) \<longrightarrow>
      (\<exists>k. firstMin (cur + vel * op_velocityMultiplier s * 100)
              (map sp_position (getSlidePositions s)) k
         \<and> findNearestSlide s cur vel =
             Inr \<lparr>sp_index = k,
                  sp_position = clamp (sp_position (getSlidePositions s ! k))
                                  (b_min (getBounds s)) (b_max (getBounds s))\<rparr>))
   \<and> (b_min (getBounds s) \<le> b_max (getBounds s) \<longrightarrow> findNearestSlide s cur vel = Inr sl \<longrightarrow>
        b_min (getBounds s) \<le> sp_position sl \<and> sp_position sl \<le> b_max (getBounds s))
   \<and> snapTarget (-620) [0, -300, -600] 0 (-600) = (Some (-600), 2)
   \<and> findNearestSlide exampleTs (-620) 0 = Inr \<lparr>sp_index = 2, sp_position = -600\<rparr>"
proof (intro conjI impI)
  assume "grid \<noteq> []"
  from snapTarget_nonempty [OF this, of sp minT maxT] obtain k where
    "firstMin sp grid k"
    "snapTarget sp grid minT maxT = (Some (max maxT (min minT (grid ! k))), k)"
    by blast
  then show "\<exists>k. firstMin sp grid k
         \<and> snapTarget sp grid minT maxT = (Some (max maxT (min minT (grid ! k))), k)
         \<and> (maxT \<le> minT \<longrightarrow>
              maxT \<le> max maxT (min minT (grid ! k))
              \<and> max maxT (min minT (grid ! k)) \<le> minT)"
    by (intro exI [of _ k]) auto
next
  assume "ts_slides s \<noteq> []"
    and "\<bar>vel\<bar> \<le> 1 / 2
         \<or> (vel < 0 \<and> length (ts_slides s) \<le> st_currentSlideIndex s + 1)
         \<or> (0 < vel \<and> st_currentSlideIndex s = 0)"
  then show "\<exists>k. firstMin (cur + vel * op_velocityMultiplier s * 100)
              (map sp_position (getSlidePositions s)) k
         \<and> findNearestSlide s cur vel =
             Inr \<lparr>sp_index = k,
                  sp_position = clamp (sp_position (getSlidePositions s ! k))
                                  (b_min (getBounds s)) (b_max (getBounds s))\<rparr>"
    by (rule findNearestSlide_nearest)
next
  assume b: "b_min (getBounds s) \<le> b_max (getBounds s)"
    and r: "findNearestSlide s cur vel = Inr sl"
  from findNearestSlide_in_bounds [OF b r]
  show "b_min (getBounds s) \<le> sp_position sl" and "sp_position sl \<le> b_max (getBounds s)"
    by simp_all
next
  show "snapTarget (-620) [0, -300, -600] 0 (-600) = (Some (-600), 2)"
    by (simp add: snapTarget_def Let_def)
next
  show "findNearestSlide exampleTs (-620) 0 = Inr \<lparr>sp_index = 2, sp_position = -600\<rparr>"
    by (rule findNearestSlide_example)
qed

theorem C2_nearest_slide_witness:
  "(\<exists>k. firstMin (-310) [0, -300, -600] k
       \<and> snapTarget (-310) [0, -300, -600] 0 (-600)
           = (Some (max (-600) (min 0 ([0, -300, -600] ! k))), k)
       \<and> -600 \<le> max (-600) (min 0 ([0, -300, -600 :: real] ! k))
       \<and> max (-600) (min 0 ([0, -300, -600 :: real] ! k)) \<le> 0)
   \<and> (\<exists>k. firstMin (-310 + (1 / 4) * op_velocityMultiplier exampleTs * 100)
             (map sp_position (getSlidePositions exampleTs)) k
        \<and> findNearestSlide exampleTs (-310) (1 / 4) =
            Inr \<lparr>sp_index = k,
                 sp_position = clamp (sp_position (getSlidePositions exampleTs ! k))
                                 (b_min (getBounds exampleTs)) (b_max (getBounds exampleTs))\<rparr>)
   \<and> (\<exists>k. firstMin (-310 + 1 * op_velocityMultiplier exampleTs * 100)
             (map sp_position (getSlidePositions exampleTs)) k
        \<and> findNearestSlide exampleTs (-310) 1 =
            Inr \<lparr>sp_index = k,
                 sp_position = clamp (sp_position (getSlidePositions exampleTs ! k))
                                 (b_min (getBounds exampleTs)) (b_max (getBounds exampleTs))\<rparr>)
   \<and> b_min (getBounds exampleTs) \<le> sp_position \<lparr>sp_index = 2, sp_position = -600\<rparr>
   \<and> sp_position \<lparr>sp_index = 2, sp_position = -600\<rparr> \<le> b_max (getBounds exampleTs)"
  using C2_nearest_slide [of "[0, -300, -600]" "-310" 0 "-600" exampleTs "1 / 4" "-310"
          "\<lparr>sp_index = 2, sp_position = -600\<rparr>"]
        C2_nearest_slide [of "[0, -300, -600]" "-310" 0 "-600" exampleTs 1 "-310"
          "\<lparr>sp_index = 2, sp_position = -600\<rparr>"]
        C2_nearest_slide [of "[0, -300, -600]" "-310" 0 "-600" exampleTs 0 "-620"
          "\<lparr>sp_index = 2, sp_position = -600\<rparr>"]
  by (simp add: exampleTs_fields exampleTs_bounds)

text \<open>
  The claim as stated fails on \<^verbatim>\<open>findNearestSlide\<close>: at position 0 with velocity -1 and
  current slide 0 the projected position is -120, whose nearest entry is slide 0, yet the
  function returns slide 1 at -300.
\<close>

theorem C2_nearest_slide_counterexample:
  "findNearestSlide exampleTs 0 (-1) = Inr \<lparr>sp_index = 1, sp_position = -300\<rparr>
   \<and> firstMin (0 + (-1) * op_velocityMultiplier exampleTs * 100)
        (map sp_position (getSlidePositions exampleTs)) 0
   \<and> \<not> firstMin (0 + (-1) * op_velocityMultiplier exampleTs * 100)
        (map sp_position (getSlidePositions exampleTs)) 1"
proof (intro conjI)
  show "findNearestSlide exampleTs 0 (-1) = Inr \<lparr>sp_index = 1, sp_position = -300\<rparr>"
    by (rule findNearestSlide_flick)
next
  show "firstMin (0 + (-1) * op_velocityMultiplier exampleTs * 100)
        (map sp_position (getSlidePositions exampleTs)) 0"
    by (simp add: firstMin_def exampleTs_positions exampleTs_fields less_Suc_eq numeral_3_eq_3)
next
  show "\<not> firstMin (0 + (-1) * op_velocityMultiplier exampleTs * 100)
        (map sp_position (getSlidePositions exampleTs)) 1"
    by (simp add: firstMin_def exampleTs_positions exampleTs_fields)
qed

section \<open>Drag-time resistance: results\<close>

lemma powr_three_quarters_less_iff:
  fixes x :: real
  assumes "0 < x"
  shows "(x powr 0.75 < x) = (1 < x)"
proof -
  consider "1 < x" | "x = 1" | "x < 1" by linarith
  then show ?thesis
  proof cases
    case 1
    then have "x powr 0.75 < x powr 1" by (intro powr_less_mono) simp_all
    then show ?thesis using 1 assms by simp
  next
    case 2
    then show ?thesis by simp
  next
    case 3
    then have "x powr 1 < x powr 0.75" using assms by (intro powr_less_mono') simp_all
    then show ?thesis using 3 assms by simp
  qed
qed

lemma powr_seven_tenths_half_less:
  fixes x :: real
  assumes "1 \<le> x"
  shows "x powr 0.7 * 0.5 < x"
proof -
  have "x powr 0.7 \<le> x powr 1" using assms by (intro powr_mono) simp_all
  then show ?thesis using assms by simp
qed

lemma sixteenth_powr: "(1 / 16 :: real) powr 0.75 = 1 / 8"
proof -
  have e: "(1 / 16 :: real) = (1 / 2) powr 4" by (simp add: power_divide)
  have "(1 / 16 :: real) powr (3 / 4) = ((1 / 2) powr 4) powr (3 / 4)"
    by (simp only: e [symmetric])
  also have "\<dots> = (1 / 2) powr 3" by (subst powr_powr) simp
  also have "\<dots> = 1 / 8" by (simp add: power_divide)
  finally show ?thesis by simp
qed

lemma hundred_powr_bounds:
  "251 / 10 < (100 :: real) powr 0.7" "(100 :: real) powr 0.7 < 252 / 10"
proof -
  let ?x = "(100 :: real) powr (7 / 10)"
  have pos: "0 < ?x" by simp
  have "?x ^ 10 = ?x powr 10" using pos by simp
  also have "\<dots> = 100 powr 7" by (subst powr_powr) simp
  also have "\<dots> = 100 ^ 7" by simp
  finally have x10: "?x ^ 10 = 100 ^ 7" .
  have "251 / 10 < ?x"
  proof (rule ccontr)
    assume "\<not> 251 / 10 < ?x"
    then have "?x \<le> 251 / 10" by simp
    then have "?x ^ 10 \<le> (251 / 10) ^ 10" using pos by (intro power_mono) simp_all
    then show False unfolding x10 by (simp add: power_divide)
  qed
  then show "251 / 10 < (100 :: real) powr 0.7" by simp
  have "?x < 252 / 10"
  proof (rule ccontr)
    assume "\<not> ?x < 252 / 10"
    then have "252 / 10 \<le> ?x" by simp
    then have "(252 / 10) ^ 10 \<le> ?x ^ 10" by (intro power_mono) simp_all
    then show False unfolding x10 by (simp add: power_divide)
  qed
  then show "(100 :: real) powr 0.7 < 252 / 10" by simp
qed

lemma sl_resist_above:
  assumes "minT < t"
  shows "sl_resist minT maxT t = minT + (t - minT) powr 0.75"
    and "(sl_resist minT maxT t - minT < t - minT) = (1 < t - minT)"
proof -
  show r: "sl_resist minT maxT t = minT + (t - minT) powr 0.75"
    using assms by (simp add: sl_resist_def)
  show "(sl_resist minT maxT t - minT < t - minT) = (1 < t - minT)"
    using powr_three_quarters_less_iff [of "t - minT"] assms by (simp add: r)
qed

lemma sl_resist_below:
  assumes "t < maxT" and "maxT \<le> minT"
  shows "sl_resist minT maxT t = maxT - (maxT - t) powr 0.75"
    and "(maxT - sl_resist minT maxT t < maxT - t) = (1 < maxT - t)"
proof -
  show r: "sl_resist minT maxT t = maxT - (maxT - t) powr 0.75"
    using assms by (simp add: sl_resist_def)
  show "(maxT - sl_resist minT maxT t < maxT - t) = (1 < maxT - t)"
    using powr_three_quarters_less_iff [of "maxT - t"] assms by (simp add: r)
qed

lemma applyRubberBand_above:
  assumes "b_max (getBounds s) < p"
  shows "applyRubberBand s p = b_max (getBounds s) + (p - b_max (getBounds s)) powr 0.7 * 0.5"
    and "1 \<le> p - b_max (getBounds s) \<Longrightarrow>
         applyRubberBand s p - b_max (getBounds s) < p - b_max (getBounds s)"
proof -
  show r: "applyRubberBand s p
           = b_max (getBounds s) + (p - b_max (getBounds s)) powr 0.7 * 0.5"
    using assms by (simp add: applyRubberBand_def Let_def)
  show "applyRubberBand s p - b_max (getBounds s) < p - b_max (getBounds s)"
    if "1 \<le> p - b_max (getBounds s)"
    using powr_seven_tenths_half_less [OF that] by (simp add: r)
qed

lemma applyRubberBand_below:
  assumes "p < b_min (getBounds s)" and "p \<le> b_max (getBounds s)"
  shows "applyRubberBand s p = b_min (getBounds s) - (b_min (getBounds s) - p) powr 0.7 * 0.5"
    and "1 \<le> b_min (getBounds s) - p \<Longrightarrow>
         b_min (getBounds s) - applyRubberBand s p < b_min (getBounds s) - p"
proof -
  show r: "applyRubberBand s p
           = b_min (getBounds s) - (b_min (getBounds s) - p) powr 0.7 * 0.5"
    using assms by (simp add: applyRubberBand_def Let_def)
  show "b_min (getBounds s) - applyRubberBand s p < b_min (getBounds s) - p"
    if "1 \<le> b_min (getBounds s) - p"
    using powr_seven_tenths_half_less [OF that] by (simp add: r)
qed

lemma sl_onTouchMove_horizontal:
  assumes "isDragging s" and "isHorizontal s = Some True"
  shows "currentTranslate (sl_onTouchMove now e s)
         = sl_resist (minTranslate s) (maxTranslate s)
             (startTranslate s + (clientX e - startTouchX s))"
  using assms by (simp add: sl_onTouchMove_def sl_drag_def setTranslate_def emit_def Let_def)

lemma applyRubberBand_touch [simp]:
  "applyRubberBand (s\<lparr>tc_currentX := a, tc_currentY := b\<rparr>) p = applyRubberBand s p"
  by (simp add: applyRubberBand_def getBounds_def)

lemma handleTouchMove_horizontal:
  assumes "tc_isTouching s" and "tc_isDirectionDetermined s" and "tc_isHorizontalSwipe s"
  shows "st_currentX (handleTouchMove now e s)
         = applyRubberBand s (tc_startPositionX s + (clientX e - tc_startX s))"
  using assms by (simp add: handleTouchMove_def ts_drag_def Let_def)

lemma applyRubberBand_example:
  "1255 / 100 < applyRubberBand exampleTs 100" "applyRubberBand exampleTs 100 < 126 / 10"
proof -
  have r: "applyRubberBand exampleTs 100 = 100 powr 0.7 * 0.5"
    using applyRubberBand_above(1) [of exampleTs 100] by (simp add: exampleTs_bounds)
  show "1255 / 100 < applyRubberBand exampleTs 100"
    using hundred_powr_bounds(1) by (simp add: r)
  show "applyRubberBand exampleTs 100 < 126 / 10"
    using hundred_powr_bounds(2) by (simp add: r)
qed

text \<open>
  Claim C3, as amended.  During a horizontal drag the handlers write the resisted offset.
  Beyond a bound it is the bound plus (or minus) f(overshoot), with f(o) = o^0.75 in
  \<^verbatim>\<open>slider.js\<close> and f(o) = o^0.7 * 0.5 in \<^verbatim>\<open>TouchSlider.js\<close>.  In \<^verbatim>\<open>slider.js\<close> the
  applied overshoot is strictly less than the raw overshoot exactly when the raw overshoot
  exceeds 1; in \<^verbatim>\<open>TouchSlider.js\<close> it is strictly less whenever the raw overshoot is at
  least 1.  Dragging from offset 0 to a desired offset 100 past the bound 0 in
  \<^verbatim>\<open>TouchSlider.js\<close> applies an offset between 12.55 and 12.6, less than 100.
\<close>

theorem C3_drag_resistance:
  "(isDragging sl \<longrightarrow> isHorizontal sl = Some True \<longrightarrow>
      currentTranslate (sl_onTouchMove now e sl)
      = sl_resist (minTranslate sl) (maxTranslate sl)
          (startTranslate sl + (clientX e - startTouchX sl)))
   \<and> (minT < t \<longrightarrow>
        sl_resist minT maxT t = minT + (t - minT) powr 0.75
        \<and> (sl_resist minT maxT t - minT < t - minT) = (1 < t - minT))
   \<and> (t < maxT \<longrightarrow> maxT \<le> minT \<longrightarrow>
        sl_resist minT maxT t = maxT - (maxT - t) powr 0.75
        \<and> (maxT - sl_resist minT maxT t < maxT - t) = (1 < maxT - t))
   \<and> (tc_isTouching s \<longrightarrow> tc_isDirectionDetermined s \<longrightarrow> tc_isHorizontalSwipe s \<longrightarrow>
        st_currentX (handleTouchMove now e s)
        = applyRubberBand s (tc_startPositionX s + (clientX e - tc_startX s)))
   \<and> (b_max (getBounds s) < p \<longrightarrow>
        applyRubberBand s p = b_max (getBounds s) + (p - b_max (getBounds s)) powr 0.7 * 0.5
        \<and> (1 \<le> p - b_max (getBounds s) \<longrightarrow>
             applyRubberBand s p - b_max (getBounds s) < p - b_max (getBounds s)))
   \<and> (p < b_min (getBounds s) \<longrightarrow> p \<le> b_max (getBounds s) \<longrightarrow>
        applyRubberBand s p = b_min (getBounds s) - (b_min (getBounds s) - p) powr 0.7 * 0.5
        \<and> (1 \<le> b_min (getBounds s) - p \<longrightarrow>
             b_min (getBounds s) - applyRubberBand s p < b_min (getBounds s) - p))
   \<and> applyRubberBand exampleTs (0 + 100) = 0 + 100 powr 0.7 * 0.5
   \<and> 1255 / 100 < applyRubberBand exampleTs (0 + 100)
   \<and> applyRubberBand exampleTs (0 + 100) < 126 / 10
   \<and> applyRubberBand exampleTs (0 + 100) < 100"
proof (intro conjI impI)
  assume "isDragging sl" and "isHorizontal sl = Some True"
  then show "currentTranslate (sl_onTouchMove now e sl)
      = sl_resist (minTranslate sl) (maxTranslate sl)
          (startTranslate sl + (clientX e - startTouchX sl))"
    by (rule sl_onTouchMove_horizontal)
next
  assume a: "minT < t"
  show "sl_resist minT maxT t = minT + (t - minT) powr 0.75"
    by (rule sl_resist_above(1) [OF a])
  show "(sl_resist minT maxT t - minT < t - minT) = (1 < t - minT)"
    by (rule sl_resist_above(2) [OF a])
next
  assume a: "t < maxT" "maxT \<le> minT"
  show "sl_resist minT maxT t = maxT - (maxT - t) powr 0.75"
    by (rule sl_resist_below(1) [OF a])
  show "(maxT - sl_resist minT maxT t < maxT - t) = (1 < maxT - t)"
    by (rule sl_resist_below(2) [OF a])
next
  assume "tc_isTouching s" and "tc_isDirectionDetermined s" and "tc_isHorizontalSwipe s"
  then show "st_currentX (handleTouchMove now e s)
        = applyRubberBand s (tc_startPositionX s + (clientX e - tc_startX s))"
    by (rule handleTouchMove_horizontal)
next
  assume a: "b_max (getBounds s) < p"
  show "applyRubberBand s p = b_max (getBounds s) + (p - b_max (getBounds s)) powr 0.7 * 0.5"
    by (rule applyRubberBand_above(1) [OF a])
  show "applyRubberBand s p - b_max (getBounds s) < p - b_max (getBounds s)"
    if "1 \<le> p - b_max (getBounds s)"
    by (rule applyRubberBand_above(2) [OF a that])
next
  assume a: "p < b_min (getBounds s)" "p \<le> b_max (getBounds s)"
  show "applyRubberBand s p = b_min (getBounds s) - (b_min (getBounds s) - p) powr 0.7 * 0.5"
    by (rule applyRubberBand_below(1) [OF a])
  show "b_min (getBounds s) - applyRubberBand s p < b_min (getBounds s) - p"
    if "1 \<le> b_min (getBounds s) - p"
    by (rule applyRubberBand_below(2) [OF a that])
next
  show "applyRubberBand exampleTs (0 + 100) = 0 + 100 powr 0.7 * 0.5"
    using applyRubberBand_above(1) [of exampleTs 100] by (simp add: exampleTs_bounds)
  show "1255 / 100 < applyRubberBand exampleTs (0 + 100)"
    using applyRubberBand_example(1) by simp
  show "applyRubberBand exampleTs (0 + 100) < 126 / 10"
    using applyRubberBand_example(2) by simp
  show "applyRubberBand exampleTs (0 + 100) < 100"
    using applyRubberBand_example(2) by simp
qed

lemma dragSlider_fields:
  "isDragging dragSlider" "isHorizontal dragSlider = Some True"
  "minTranslate dragSlider = 0" "maxTranslate dragSlider = -600"
  "startTranslate dragSlider = 0" "startTouchX dragSlider = 0" "startTouchY dragSlider = 0"
  "currentTranslate dragSlider = 0" "positions dragSlider = []"
  "opts dragSlider = defaultOptions" "slidesGrid dragSlider = [0, -300, -600]"
  "rafId dragSlider = Null" "events dragSlider = []"
  by (simp_all add: dragSlider_def exampleSlider_def)

lemma dragTs_fields:
  "tc_isTouching dragTs" "tc_isDirectionDetermined dragTs" "tc_isHorizontalSwipe dragTs"
  "st_isDragging dragTs" "tc_startPositionX dragTs = 0" "tc_startX dragTs = 0"
  "tc_startY dragTs = 0" "st_currentX dragTs = 0"
  "getBounds dragTs = \<lparr>b_min = -600, b_max = 0\<rparr>"
  by (simp_all add: dragTs_def exampleTs_def getBounds_def)

theorem C3_drag_resistance_witness:
  "currentTranslate (sl_onTouchMove 16 \<lparr>clientX = 100, clientY = 0, cancelable = True\<rparr> dragSlider)
   = sl_resist 0 (-600) 100
   \<and> sl_resist 0 (-600) 100 = 0 + (100 - 0) powr 0.75
   \<and> sl_resist 0 (-600) 100 - 0 < 100 - 0
   \<and> sl_resist 0 (-600) (-700) = -600 - (-600 - (-700)) powr 0.75
   \<and> -600 - sl_resist 0 (-600) (-700) < -600 - (-700)
   \<and> st_currentX (handleTouchMove 16 \<lparr>clientX = 100, clientY = 0, cancelable = True\<rparr> dragTs)
      = applyRubberBand dragTs 100
   \<and> applyRubberBand dragTs 100 - 0 < 100 - 0
   \<and> applyRubberBand dragTs (-700) = -600 - (-600 - (-700)) powr 0.7 * 0.5
   \<and> -600 - applyRubberBand dragTs (-700) < -600 - (-700)"
  using C3_drag_resistance [of dragSlider 16
          "\<lparr>clientX = 100, clientY = 0, cancelable = True\<rparr>" 0 100 "-600" dragTs 100]
        C3_drag_resistance [of dragSlider 16
          "\<lparr>clientX = 100, clientY = 0, cancelable = True\<rparr>" 0 "-700" "-600" dragTs "-700"]
  by (simp add: dragSlider_fields dragTs_fields)

text \<open>
  The claim as stated fails for small overshoots: in \<^verbatim>\<open>slider.js\<close>, with the bound at 0,
  a desired offset of 1/16 is applied as 1/8, twice the raw overshoot.
\<close>

theorem C3_drag_resistance_counterexample:
  "sl_resist 0 (-600) (1 / 16) = 1 / 8
   \<and> \<not> (sl_resist 0 (-600) (1 / 16) - 0 < 1 / 16 - 0)
   \<and> currentTranslate
        (sl_onTouchMove 16 \<lparr>clientX = 1 / 16, clientY = 0, cancelable = True\<rparr>
           dragSlider) = 1 / 8"
proof -
  have r: "sl_resist 0 (-600) (1 / 16) = 1 / 8"
    using sixteenth_powr by (simp add: sl_resist_def)
  have "currentTranslate
        (sl_onTouchMove 16 \<lparr>clientX = 1 / 16, clientY = 0, cancelable = True\<rparr>
           dragSlider)
        = sl_resist 0 (-600) (1 / 16)"
    by (subst sl_onTouchMove_horizontal) (simp_all add: dragSlider_fields)
  then show ?thesis using r by simp
qed

section \<open>Direction lock: results\<close>

lemma sl_onTouchMove_locked:
  "isHorizontal s \<noteq> None \<Longrightarrow> isHorizontal (sl_onTouchMove now e s) = isHorizontal s"
  by (auto simp: sl_onTouchMove_def sl_drag_def setTranslate_def emit_def Let_def
      split: bool.splits)

lemma sl_moves_locked:
  "isHorizontal s \<noteq> None \<Longrightarrow> isHorizontal (sl_moves ms s) = isHorizontal s"
  by (induction ms arbitrary: s) (simp_all add: sl_onTouchMove_locked)

lemma sl_onTouchMove_dead:
  assumes "isHorizontal s = None"
    and "\<bar>clientX e - startTouchX s\<bar> < 10" and "\<bar>clientY e - startTouchY s\<bar> < 10"
  shows "sl_onTouchMove now e s = s"
  using assms by (simp add: sl_onTouchMove_def Let_def)

lemma sl_onTouchMove_resolve:
  assumes "isDragging s" and "isHorizontal s = None"
    and "\<not> (\<bar>clientX e - startTouchX s\<bar> < 10 \<and> \<bar>clientY e - startTouchY s\<bar> < 10)"
  shows "isHorizontal (sl_onTouchMove now e s)
         = Some (angleDeg (clientX e - startTouchX s) (clientY e - startTouchY s)
                 < angleThreshold (opts s))"
  using assms
  by (auto simp: sl_onTouchMove_def sl_drag_def setTranslate_def emit_def Let_def angleDeg_def)

lemma sl_moves_resolved:
  assumes "isDragging s" and "isHorizontal s = None"
    and "startTouchX s = clientX e0" and "startTouchY s = clientY e0"
  shows "isHorizontal (sl_moves ms s) = resolved (sl_inDeadZone e0) (angleThreshold (opts s)) e0 ms"
  using assms
proof (induction ms arbitrary: s)
  case Nil
  then show ?case by (simp add: resolved_def)
next
  case (Cons m ms)
  show ?case
  proof (cases "sl_inDeadZone e0 (snd m)")
    case True
    then have "sl_onTouchMove (fst m) (snd m) s = s"
      using Cons.prems by (intro sl_onTouchMove_dead) (simp_all add: sl_inDeadZone_def)
    then show ?thesis using Cons True by (simp add: resolved_def)
  next
    case False
    then have "isHorizontal (sl_onTouchMove (fst m) (snd m) s)
         = Some (angleDeg (clientX (snd m) - startTouchX s) (clientY (snd m) - startTouchY s)
                 < angleThreshold (opts s))"
      using Cons.prems by (intro sl_onTouchMove_resolve) (simp_all add: sl_inDeadZone_def)
    then show ?thesis using False Cons.prems
      by (simp add: resolved_def sl_moves_locked)
  qed
qed

lemma onTouchStart_fields:
  "isDragging (onTouchStart now e s)" "isHorizontal (onTouchStart now e s) = None"
  "startTouchX (onTouchStart now e s) = clientX e" "startTouchY (onTouchStart now e s) = clientY e"
  "opts (onTouchStart now e s) = opts s"
  "currentTranslate (onTouchStart now e s) = currentTranslate s"
  "rafId (onTouchStart now e s) = Null"
  by (simp_all add: onTouchStart_def emit_def stopTransition_def Let_def)

lemma arctan_tan80: "arctan 5.6713 * 180 / pi < 90"
proof -
  have "arctan 5.6713 < pi / 2" by (rule arctan_ubound)
  then show ?thesis by (simp add: field_simps)
qed

lemma ts_classify_angle:
  assumes "\<bar>dx\<bar> > 10 \<or> \<bar>dy\<bar> > 10"
  shows "(if \<bar>dx\<bar> = 0 then False else \<bar>dy\<bar> / \<bar>dx\<bar> < 5.6713)
         = (angleDeg dx dy < arctan 5.6713 * 180 / pi)"
proof (cases "\<bar>dx\<bar> = 0")
  case True
  then have "\<bar>dy\<bar> > 0" using assms by auto
  then have "angleDeg dx dy = 90" using True by (simp add: angleDeg_def Math_atan2_def)
  then show ?thesis using True arctan_tan80 by simp
next
  case False
  then have pos: "\<bar>dx\<bar> > 0" by simp
  then have "angleDeg dx dy = arctan (\<bar>dy\<bar> / \<bar>dx\<bar>) * 180 / pi"
    by (simp add: angleDeg_def Math_atan2_def)
  moreover have "(arctan (\<bar>dy\<bar> / \<bar>dx\<bar>) * 180 / pi < arctan 5.6713 * 180 / pi)
                 = (arctan (\<bar>dy\<bar> / \<bar>dx\<bar>) < arctan 5.6713)"
    by (simp add: field_simps)
  ultimately show ?thesis using False by (simp add: arctan_less_iff)
qed

lemma ts_direction_locked:
  "ts_direction s \<noteq> None \<Longrightarrow> ts_direction (handleTouchMove now e s) = ts_direction s"
  by (auto simp: ts_direction_def handleTouchMove_def ts_drag_def Let_def split: if_splits)

lemma ts_moves_locked:
  "ts_direction s \<noteq> None \<Longrightarrow> ts_direction (ts_moves ms s) = ts_direction s"
  by (induction ms arbitrary: s) (simp_all add: ts_direction_locked)

lemma determineDirection_dead:
  assumes "\<not> (\<bar>dx\<bar> > 10 \<or> \<bar>dy\<bar> > 10)"
  shows "determineDirection dx dy s = s"
  using assms by (simp add: determineDirection_def Let_def)

lemma determineDirection_resolve:
  assumes "\<bar>dx\<bar> > 10 \<or> \<bar>dy\<bar> > 10"
  shows "ts_direction (determineDirection dx dy s)
         = Some (angleDeg dx dy < arctan 5.6713 * 180 / pi)"
    and "tc_isTouching (determineDirection dx dy s) = tc_isTouching s"
proof -
  show "ts_direction (determineDirection dx dy s)
         = Some (angleDeg dx dy < arctan 5.6713 * 180 / pi)"
    using assms ts_classify_angle [OF assms]
    by (auto simp: determineDirection_def ts_direction_def dispatchEvent_def Let_def)
  show "tc_isTouching (determineDirection dx dy s) = tc_isTouching s"
    by (auto simp: determineDirection_def dispatchEvent_def Let_def)
qed


lemma handleTouchMove_dead:
  assumes "tc_isTouching s" and "\<not> tc_isDirectionDetermined s"
    and "\<not> (\<bar>clientX e - tc_startX s\<bar> > 10 \<or> \<bar>clientY e - tc_startY s\<bar> > 10)"
  shows "handleTouchMove now e s = s\<lparr>tc_currentX := clientX e, tc_currentY := clientY e\<rparr>"
  using assms by (simp add: handleTouchMove_def determineDirection_dead Let_def)

lemma handleTouchMove_direction:
  assumes "tc_isTouching s" and "\<not> tc_isDirectionDetermined s"
  shows "ts_direction (handleTouchMove now e s)
         = ts_direction (determineDirection (clientX e - tc_startX s) (clientY e - tc_startY s)
                           (s\<lparr>tc_currentX := clientX e, tc_currentY := clientY e\<rparr>))"
  using assms by (simp add: handleTouchMove_def ts_drag_def ts_direction_def Let_def)

lemma ts_moves_resolved:
  assumes "tc_isTouching s" and "\<not> tc_isDirectionDetermined s"
    and "tc_startX s = clientX e0" and "tc_startY s = clientY e0"
  shows "ts_direction (ts_moves ms s)
         = resolved (ts_inDeadZone e0) (arctan 5.6713 * 180 / pi) e0 ms"
  using assms
proof (induction ms arbitrary: s)
  case Nil
  then show ?case by (simp add: resolved_def ts_direction_def)
next
  case (Cons m ms)
  show ?case
  proof (cases "ts_inDeadZone e0 (snd m)")
    case True
    then have "handleTouchMove (fst m) (snd m) s
               = s\<lparr>tc_currentX := clientX (snd m), tc_currentY := clientY (snd m)\<rparr>"
      using Cons.prems by (intro handleTouchMove_dead) (simp_all add: ts_inDeadZone_def)
    moreover have "ts_direction
                     (ts_moves ms (s\<lparr>tc_currentX := clientX (snd m), tc_currentY := clientY (snd m)\<rparr>))
                   = resolved (ts_inDeadZone e0) (arctan 5.6713 * 180 / pi) e0 ms"
      using Cons.prems by (intro Cons.IH) simp_all
    ultimately show ?thesis using True by (simp add: resolved_def)
  next
    case False
    then have out: "\<bar>clientX (snd m) - tc_startX s\<bar> > 10 \<or> \<bar>clientY (snd m) - tc_startY s\<bar> > 10"
      using Cons.prems by (simp add: ts_inDeadZone_def)
    have "ts_direction (handleTouchMove (fst m) (snd m) s)
          = Some (angleDeg (clientX (snd m) - tc_startX s) (clientY (snd m) - tc_startY s)
                  < arctan 5.6713 * 180 / pi)"
      using Cons.prems determineDirection_resolve(1) [OF out]
      by (simp add: handleTouchMove_direction)
    then show ?thesis using False Cons.prems
      by (simp add: resolved_def ts_moves_locked)
  qed
qed

lemma sl_moves_append: "sl_moves (ms @ ms') s = sl_moves ms' (sl_moves ms s)"
  by (induction ms arbitrary: s) simp_all

lemma ts_moves_append: "ts_moves (ms @ ms') s = ts_moves ms' (ts_moves ms s)"
  by (induction ms arbitrary: s) simp_all

lemma handleTouchStart_fields:
  "tc_isTouching (handleTouchStart now e s)" "\<not> tc_isDirectionDetermined (handleTouchStart now e s)"
  "tc_startX (handleTouchStart now e s) = clientX e" "tc_startY (handleTouchStart now e s) = clientY e"
  "st_currentX (handleTouchStart now e s) = st_currentX s"
  "st_isDragging (handleTouchStart now e s) = st_isDragging s"
  by (simp_all add: handleTouchStart_def)

text \<open>
  Claim C4.  In a touch session the direction is resolved once, by the first move outside
  the dead zone: horizontal when the angle between the displacement and the horizontal
  axis is below the threshold (\<^verbatim>\<open>angleThreshold\<close> in \<^verbatim>\<open>slider.js\<close>; the angle whose tangent
  is 5.6713, about 80 degrees, in \<^verbatim>\<open>TouchSlider.js\<close>), vertical otherwise.  Once resolved
  it stays as it is whatever moves follow.
\<close>

theorem C4_direction_lock:
  "isHorizontal (sl_moves ms (onTouchStart now e0 s))
     = resolved (sl_inDeadZone e0) (angleThreshold (opts s)) e0 ms
   \<and> (isHorizontal (sl_moves ms (onTouchStart now e0 s)) \<noteq> None \<longrightarrow>
        isHorizontal (sl_moves (ms @ ms') (onTouchStart now e0 s))
        = isHorizontal (sl_moves ms (onTouchStart now e0 s)))
   \<and> ts_direction (ts_moves ms (handleTouchStart now e0 t))
     = resolved (ts_inDeadZone e0) (arctan 5.6713 * 180 / pi) e0 ms
   \<and> (ts_direction (ts_moves ms (handleTouchStart now e0 t)) \<noteq> None \<longrightarrow>
        ts_direction (ts_moves (ms @ ms') (handleTouchStart now e0 t))
        = ts_direction (ts_moves ms (handleTouchStart now e0 t)))"
proof (intro conjI impI)
  show "isHorizontal (sl_moves ms (onTouchStart now e0 s))
     = resolved (sl_inDeadZone e0) (angleThreshold (opts s)) e0 ms"
    using sl_moves_resolved [of "onTouchStart now e0 s" e0 ms]
    by (simp add: onTouchStart_fields)
next
  assume "isHorizontal (sl_moves ms (onTouchStart now e0 s)) \<noteq> None"
  then show "isHorizontal (sl_moves (ms @ ms') (onTouchStart now e0 s))
        = isHorizontal (sl_moves ms (onTouchStart now e0 s))"
    by (simp add: sl_moves_append sl_moves_locked)
next
  show "ts_direction (ts_moves ms (handleTouchStart now e0 t))
     = resolved (ts_inDeadZone e0) (arctan 5.6713 * 180 / pi) e0 ms"
    using ts_moves_resolved [of "handleTouchStart now e0 t" e0 ms]
    by (simp add: handleTouchStart_fields)
next
  assume "ts_direction (ts_moves ms (handleTouchStart now e0 t)) \<noteq> None"
  then show "ts_direction (ts_moves (ms @ ms') (handleTouchStart now e0 t))
        = ts_direction (ts_moves ms (handleTouchStart now e0 t))"
    by (simp add: ts_moves_append ts_moves_locked)
qed

lemma angleDeg_swipe: "angleDeg 20 5 < 65" "angleDeg 20 5 < arctan 5.6713 * 180 / pi"
proof -
  have "arctan (1 / 4) < arctan 1" by (simp add: arctan_less_iff)
  then have "arctan (1 / 4) < pi / 4" by (simp add: arctan_one)
  then have "arctan (1 / 4) * 180 / pi < 45" by (simp add: field_simps)
  then show "angleDeg 20 5 < 65" by (simp add: angleDeg_def Math_atan2_def)
  have "arctan (1 / 4) < arctan 5.6713" by (simp add: arctan_less_iff)
  then have "arctan (1 / 4) * 180 / pi < arctan 5.6713 * 180 / pi" by (simp add: field_simps)
  then show "angleDeg 20 5 < arctan 5.6713 * 180 / pi"
    by (simp add: angleDeg_def Math_atan2_def)
qed

lemma resolved_swipe:
  "resolved (sl_inDeadZone (touchAt 0 0)) 65 (touchAt 0 0) swipeMoves = Some True"
  "resolved (ts_inDeadZone (touchAt 0 0)) (arctan 5.6713 * 180 / pi) (touchAt 0 0) swipeMoves
   = Some True"
  using angleDeg_swipe
  by (simp_all add: resolved_def sl_inDeadZone_def ts_inDeadZone_def swipeMoves_def touchAt_def)

theorem C4_direction_lock_witness:
  "isHorizontal (sl_moves swipeMoves (onTouchStart 0 (touchAt 0 0) exampleSlider)) = Some True
   \<and> isHorizontal (sl_moves (swipeMoves @ laterMoves) (onTouchStart 0 (touchAt 0 0) exampleSlider))
       = Some True
   \<and> ts_direction (ts_moves swipeMoves (handleTouchStart 0 (touchAt 0 0) exampleTs)) = Some True
   \<and> ts_direction (ts_moves (swipeMoves @ laterMoves) (handleTouchStart 0 (touchAt 0 0) exampleTs))
       = Some True"
proof -
  note T = C4_direction_lock [of swipeMoves 0 "touchAt 0 0" exampleSlider laterMoves exampleTs]
  have thr: "angleThreshold (opts exampleSlider) = 65"
    by (simp add: exampleSlider_def defaultOptions_def)
  have a: "isHorizontal (sl_moves swipeMoves (onTouchStart 0 (touchAt 0 0) exampleSlider))
           = Some True"
    using T [THEN conjunct1] by (simp only: thr resolved_swipe)
  have b: "isHorizontal (sl_moves (swipeMoves @ laterMoves)
             (onTouchStart 0 (touchAt 0 0) exampleSlider)) = Some True"
    using T [THEN conjunct2, THEN conjunct1] by (simp only: a) simp
  have c: "ts_direction (ts_moves swipeMoves (handleTouchStart 0 (touchAt 0 0) exampleTs))
           = Some True"
    using T [THEN conjunct2, THEN conjunct2, THEN conjunct1] by (simp only: resolved_swipe)
  have d: "ts_direction (ts_moves (swipeMoves @ laterMoves)
             (handleTouchStart 0 (touchAt 0 0) exampleTs)) = Some True"
    using T [THEN conjunct2, THEN conjunct2, THEN conjunct2] by (simp only: c) simp
  from a b c d show ?thesis by blast
qed

section \<open>Release out of bounds: results\<close>




lemma sl_frame_Pending:
  "rafId s = Pending (InertiaStep v cur lt) \<Longrightarrow>
   sl_frame now s = sl_step now v cur lt (s\<lparr>rafId := Fired\<rparr>)"
  by (simp add: sl_frame_def)

lemma p0_frame_Pending:
  "rafId s = Pending (InertiaStep v cur lt) \<Longrightarrow>
   p0_frame now s = p0_step now v cur lt (s\<lparr>rafId := Fired\<rparr>)"
  by (simp add: p0_frame_def)





section \<open>Non-cancelable moves: results\<close>

text \<open>
  \<^verbatim>\<open>part_000\<close> keeps the offset on every non-cancelable move, whatever the state of the
  session.
\<close>

lemma p0_onTouchMove_noncancelable:
  assumes "\<not> cancelable e"
  shows "currentTranslate (p0_onTouchMove now e s) = currentTranslate s"
  using assms
  by (auto simp: p0_onTouchMove_def p0_drag_def Let_def split: option.splits bool.splits)

lemma p0_moves_noncancelable:
  assumes "\<forall>m \<in> set ms. \<not> cancelable (snd m)"
  shows "currentTranslate (p0_moves ms s) = currentTranslate s"
  using assms by (induction ms arbitrary: s) (simp_all add: p0_onTouchMove_noncancelable)

text \<open>
  Claim C6 on \<^verbatim>\<open>slider.js\<close> and \<^verbatim>\<open>TouchSlider.js\<close>.  In a horizontal session with the
  track at 0, a non-cancelable move 50 to the left is applied: \<^verbatim>\<open>slider.js\<close> tests
  \<^verbatim>\<open>e.cancelable\<close> only around \<^verbatim>\<open>preventDefault\<close>, \<^verbatim>\<open>TouchSlider.js\<close> does not test it,
  and both write the offset -50.  \<^verbatim>\<open>part_000\<close> leaves the offset at 0.
\<close>

theorem C6_noncancelable_move:
  "currentTranslate dragSlider = 0
   \<and> currentTranslate
        (sl_onTouchMove 16 \<lparr>clientX = -50, clientY = 0, cancelable = False\<rparr> dragSlider) = -50
   \<and> st_currentX dragTs = 0
   \<and> st_currentX
        (handleTouchMove 16 \<lparr>clientX = -50, clientY = 0, cancelable = False\<rparr> dragTs) = -50
   \<and> currentTranslate
        (p0_onTouchMove 16 \<lparr>clientX = -50, clientY = 0, cancelable = False\<rparr> dragSlider) = 0"
proof (intro conjI)
  show "currentTranslate dragSlider = 0" by (rule dragSlider_fields)
  show "currentTranslate
        (sl_onTouchMove 16 \<lparr>clientX = -50, clientY = 0, cancelable = False\<rparr> dragSlider) = -50"
    by (subst sl_onTouchMove_horizontal) (simp_all add: dragSlider_fields sl_resist_def)
  show "st_currentX dragTs = 0" by (rule dragTs_fields)
  show "st_currentX
        (handleTouchMove 16 \<lparr>clientX = -50, clientY = 0, cancelable = False\<rparr> dragTs) = -50"
    by (subst handleTouchMove_horizontal)
      (simp_all add: dragTs_fields applyRubberBand_def Let_def)
  show "currentTranslate
        (p0_onTouchMove 16 \<lparr>clientX = -50, clientY = 0, cancelable = False\<rparr> dragSlider) = 0"
    by (simp add: p0_onTouchMove_noncancelable dragSlider_fields)
qed

section \<open>Settling of the inertia loop: results\<close>

lemma reaches_terminal: "terminal s \<Longrightarrow> reaches frame terminal nows s"
  by (cases nows) simp_all

text \<open>
  The settling argument, once for the three variants: while the loop runs, each frame either
  reaches a terminal state or goes on with the velocity scaled by at most \<open>q\<close> and still
  not below the stop threshold \<open>eps\<close>; then \<open>N\<close> frames suffice as soon as
  \<open>\<bar>v\<bar> * q ^ N < eps\<close>.
\<close>

lemma decay_reaches:
  fixes vel :: "'s \<Rightarrow> real"
  assumes step: "\<And>i s. running s \<Longrightarrow>
            terminal (frame i s)
            \<or> (running (frame i s) \<and> \<bar>vel (frame i s)\<bar> \<le> q * \<bar>vel s\<bar>
               \<and> \<not> \<bar>vel (frame i s)\<bar> < eps)"
    and q: "0 \<le> q"
  shows "running s \<Longrightarrow> 0 < N \<Longrightarrow> \<bar>vel s\<bar> * q ^ N < eps \<Longrightarrow> N \<le> length nows \<Longrightarrow>
         reaches frame terminal nows s"
proof (induction nows arbitrary: s N)
  case Nil
  then show ?case by simp
next
  case (Cons i rest)
  from Cons.prems(2) obtain M where N: "N = Suc M" by (cases N) auto
  from step [OF Cons.prems(1), of i] show ?case
  proof
    assume "terminal (frame i s)"
    then show ?thesis by (simp add: reaches_terminal)
  next
    assume a: "running (frame i s) \<and> \<bar>vel (frame i s)\<bar> \<le> q * \<bar>vel s\<bar>
               \<and> \<not> \<bar>vel (frame i s)\<bar> < eps"
    then have "\<bar>vel (frame i s)\<bar> * q ^ M \<le> (q * \<bar>vel s\<bar>) * q ^ M"
      using q by (intro mult_right_mono) simp_all
    also have "\<dots> = \<bar>vel s\<bar> * q ^ N" by (simp add: N)
    finally have lt: "\<bar>vel (frame i s)\<bar> * q ^ M < eps" using Cons.prems(3) by simp
    have "M \<noteq> 0"
    proof
      assume "M = 0"
      with lt a show False by simp
    qed
    then have "0 < M" "M \<le> length rest" using Cons.prems(4) N by simp_all
    with lt a have "reaches frame terminal rest (frame i s)"
      using Cons.IH [of "frame i s" M] by simp
    then show ?thesis by simp
  qed
qed

lemma decay_bound_exists:
  fixes a q eps :: real
  assumes "0 \<le> q" and "q < 1" and "0 < eps" and "0 \<le> a"
  shows "\<exists>N>0. a * q ^ N < eps"
proof -
  have "0 < eps / (a + 1)" using assms by simp
  from real_arch_pow_inv [OF this assms(2)] obtain n where n: "q ^ n < eps / (a + 1)" by blast
  have "q ^ Suc n \<le> q ^ n" using assms(1,2) by (simp add: mult_left_le_one_le)
  with n have "q ^ Suc n < eps / (a + 1)" by simp
  then have "(a + 1) * q ^ Suc n < eps" using assms(4) by (simp add: field_simps)
  moreover have "a * q ^ Suc n \<le> (a + 1) * q ^ Suc n"
    using assms(1) by (intro mult_right_mono) simp_all
  ultimately have "a * q ^ Suc n < eps" by simp
  then show ?thesis by blast
qed

lemma halted_animateTo: "halted (animateTo now tgt d ea cb s)"
  by (simp add: halted_def phase_def animateTo_def requestAnimationFrame_def)

lemma halted_snapToNearest:
  "halted (sl_snapToNearest now s)" "halted (p0_snapToNearest now tp s)"
  by (simp_all add: sl_snapToNearest_def p0_snapToNearest_def halted_animateTo Let_def
      split: prod.splits)

lemma halted_snapToBounds:
  "currentTranslate s > minTranslate s \<or> currentTranslate s < maxTranslate s \<Longrightarrow>
   halted (p0_snapToBounds now s)"
  by (auto simp: p0_snapToBounds_def halted_animateTo)

lemma halted_sliderStop: "rafId s = Fired \<Longrightarrow> halted (emit ''sliderStop'' s)"
  by (simp add: halted_def emit_def)

lemma inertia_continues:
  assumes "\<not> isDragging s"
  shows "inertiaRunning (requestAnimationFrame (InertiaStep v1 c now) (setTranslate c s))"
    and "inertiaVelocity (requestAnimationFrame (InertiaStep v1 c now) (setTranslate c s)) = v1"
    and "opts (requestAnimationFrame (InertiaStep v1 c now) (setTranslate c s)) = opts s"
    and "minTranslate (requestAnimationFrame (InertiaStep v1 c now) (setTranslate c s))
         = minTranslate s"
    and "maxTranslate (requestAnimationFrame (InertiaStep v1 c now) (setTranslate c s))
         = maxTranslate s"
  using assms
  by (simp_all add: inertiaRunning_def inertiaVelocity_def requestAnimationFrame_def
      setTranslate_def)

lemma abs_scaled_le:
  fixes a q v :: real
  assumes "\<bar>a\<bar> \<le> q"
  shows "\<bar>v * a\<bar> \<le> q * \<bar>v\<bar>"
proof -
  have "\<bar>v * a\<bar> = \<bar>a\<bar> * \<bar>v\<bar>" by (simp add: abs_mult mult.commute)
  also have "\<dots> \<le> q * \<bar>v\<bar>" using assms by (intro mult_right_mono) simp_all
  finally show ?thesis .
qed

lemma p0_step_cases:
  assumes "\<not> isDragging s" and "rafId s = Fired" and "currentTranslate s = cur"
  shows "halted (p0_step now v cur lt s)
         \<or> (\<exists>v1 c. p0_step now v cur lt s
                      = requestAnimationFrame (InertiaStep v1 c now) (setTranslate c s)
                    \<and> \<bar>v1\<bar> \<le> max (6 / 10) \<bar>friction (opts s)\<bar> * \<bar>v\<bar>
                    \<and> \<not> \<bar>v1\<bar> < 1 / 100)"
proof (cases "cur > minTranslate s \<or> cur < maxTranslate s")
  case oob: True
  show ?thesis
  proof (cases "\<bar>v * 0.6\<bar> < 0.1")
    case True
    then have "p0_step now v cur lt s = p0_snapToBounds now s"
      using assms(1) oob by (simp add: p0_step_def Let_def)
    then show ?thesis using halted_snapToBounds [of s now] oob assms(3) by simp
  next
    case False
    then have "p0_step now v cur lt s
               = requestAnimationFrame (InertiaStep (v * 0.6) (cur + v * 0.6 * min (real_of_int (now - lt)) 60) now)
                   (setTranslate (cur + v * 0.6 * min (real_of_int (now - lt)) 60) s)"
      using assms(1) oob by (simp add: p0_step_def Let_def)
    moreover have "\<bar>v * 0.6\<bar> \<le> max (6 / 10) \<bar>friction (opts s)\<bar> * \<bar>v\<bar>"
      by (rule abs_scaled_le) simp
    moreover have "\<not> \<bar>v * 0.6\<bar> < 1 / 100" using False by simp
    ultimately show ?thesis by blast
  qed
next
  case inb: False
  let ?v1 = "v * friction (opts s)"
  show ?thesis
  proof (cases "\<bar>?v1\<bar> < 0.01")
    case True
    then have "p0_step now v cur lt s
               = (if freeMode (opts s) then emit ''sliderStop'' s
                  else p0_snapToNearest now None s)"
      using assms(1) inb by (simp add: p0_step_def Let_def)
    then show ?thesis using halted_sliderStop [OF assms(2)] halted_snapToNearest(2) by simp
  next
    case False
    then have "p0_step now v cur lt s
               = requestAnimationFrame (InertiaStep ?v1 (cur + ?v1 * min (real_of_int (now - lt)) 60) now)
                   (setTranslate (cur + ?v1 * min (real_of_int (now - lt)) 60) s)"
      using assms(1) inb by (simp add: p0_step_def Let_def)
    moreover have "\<bar>?v1\<bar> \<le> max (6 / 10) \<bar>friction (opts s)\<bar> * \<bar>v\<bar>"
      by (rule abs_scaled_le) simp
    moreover have "\<not> \<bar>?v1\<bar> < 1 / 100" using False by simp
    ultimately show ?thesis by blast
  qed
qed


lemma sl_step_cases:
  assumes "\<not> isDragging s" and "rafId s = Fired" and "currentTranslate s = cur"
    and "\<not> (cur > minTranslate s \<or> cur < maxTranslate s)"
  shows "halted (sl_step now v cur lt s)
         \<or> (\<exists>v1 c. sl_step now v cur lt s
                      = requestAnimationFrame (InertiaStep v1 c now) (setTranslate c s)
                    \<and> \<bar>v1\<bar> \<le> \<bar>friction (opts s)\<bar> * \<bar>v\<bar>
                    \<and> \<not> \<bar>v1\<bar> < 1 / 100)"
proof -
  let ?v1 = "v * friction (opts s)"
  show ?thesis
  proof (cases "\<bar>?v1\<bar> < 0.01")
    case True
    then have "sl_step now v cur lt s
               = (if freeMode (opts s) then emit ''sliderStop'' s else sl_snapToNearest now s)"
      using assms(1,4) by (simp add: sl_step_def Let_def)
    then show ?thesis using halted_sliderStop [OF assms(2)] halted_snapToNearest(1) by simp
  next
    case False
    then have "sl_step now v cur lt s
               = requestAnimationFrame (InertiaStep ?v1 (cur + ?v1 * min (real_of_int (now - lt)) 60) now)
                   (setTranslate (cur + ?v1 * min (real_of_int (now - lt)) 60) s)"
      using assms(1,4) by (simp add: sl_step_def Let_def)
    moreover have "\<bar>?v1\<bar> \<le> \<bar>friction (opts s)\<bar> * \<bar>v\<bar>"
      by (rule abs_scaled_le) simp
    moreover have "\<not> \<bar>?v1\<bar> < 1 / 100" using False by simp
    ultimately show ?thesis by blast
  qed
qed

lemma inertiaRunningE:
  assumes "inertiaRunning s"
  obtains v lt where "rafId s = Pending (InertiaStep v (currentTranslate s) lt)"
    and "\<not> isDragging s" and "inertiaVelocity s = v"
  using assms by (auto simp: inertiaRunning_def inertiaVelocity_def)

lemma p0_frame_step:
  assumes "inertiaRunning s"
  shows "halted (p0_frame now s)
         \<or> (inertiaRunning (p0_frame now s) \<and> opts (p0_frame now s) = opts s
            \<and> \<bar>inertiaVelocity (p0_frame now s)\<bar>
                \<le> max (6 / 10) \<bar>friction (opts s)\<bar> * \<bar>inertiaVelocity s\<bar>
            \<and> \<not> \<bar>inertiaVelocity (p0_frame now s)\<bar> < 1 / 100)"
proof -
  from assms obtain v lt where r: "rafId s = Pending (InertiaStep v (currentTranslate s) lt)"
    and nd: "\<not> isDragging s" and vel: "inertiaVelocity s = v"
    by (rule inertiaRunningE)
  let ?s0 = "s\<lparr>rafId := Fired\<rparr>"
  have fr: "p0_frame now s = p0_step now v (currentTranslate s) lt ?s0"
    by (rule p0_frame_Pending [OF r])
  have s0: "\<not> isDragging ?s0" "rafId ?s0 = Fired" "currentTranslate ?s0 = currentTranslate s"
    "opts ?s0 = opts s"
    using nd by simp_all
  from p0_step_cases [OF s0(1,2,3), of now v lt] show ?thesis
  proof
    assume "halted (p0_step now v (currentTranslate s) lt ?s0)"
    then show ?thesis by (simp add: fr)
  next
    assume "\<exists>v1 c. p0_step now v (currentTranslate s) lt ?s0
                      = requestAnimationFrame (InertiaStep v1 c now) (setTranslate c ?s0)
                    \<and> \<bar>v1\<bar> \<le> max (6 / 10) \<bar>friction (opts ?s0)\<bar> * \<bar>v\<bar>
                    \<and> \<not> \<bar>v1\<bar> < 1 / 100"
    then obtain v1 c where
      e: "p0_frame now s = requestAnimationFrame (InertiaStep v1 c now) (setTranslate c ?s0)"
      and b: "\<bar>v1\<bar> \<le> max (6 / 10) \<bar>friction (opts s)\<bar> * \<bar>v\<bar>" "\<not> \<bar>v1\<bar> < 1 / 100"
      unfolding fr s0(4) by blast
    from inertia_continues(1,2,3) [OF s0(1), of v1 c now] b vel
    show ?thesis unfolding e s0(4) by simp
  qed
qed

lemma sl_frame_step:
  assumes "inertiaRunning s"
    and "\<not> (currentTranslate s > minTranslate s \<or> currentTranslate s < maxTranslate s)"
  shows "sl_terminal (sl_frame now s)
         \<or> ((inertiaRunning (sl_frame now s)
              \<and> \<not> (currentTranslate (sl_frame now s) > minTranslate (sl_frame now s)
                    \<or> currentTranslate (sl_frame now s) < maxTranslate (sl_frame now s))
              \<and> opts (sl_frame now s) = opts s)
            \<and> \<bar>inertiaVelocity (sl_frame now s)\<bar>
                \<le> \<bar>friction (opts s)\<bar> * \<bar>inertiaVelocity s\<bar>
            \<and> \<not> \<bar>inertiaVelocity (sl_frame now s)\<bar> < 1 / 100)"
proof -
  from assms(1) obtain v lt where r: "rafId s = Pending (InertiaStep v (currentTranslate s) lt)"
    and nd: "\<not> isDragging s" and vel: "inertiaVelocity s = v"
    by (rule inertiaRunningE)
  let ?s0 = "s\<lparr>rafId := Fired\<rparr>"
  have fr: "sl_frame now s = sl_step now v (currentTranslate s) lt ?s0"
    by (rule sl_frame_Pending [OF r])
  have s0: "\<not> isDragging ?s0" "rafId ?s0 = Fired" "currentTranslate ?s0 = currentTranslate s"
    "opts ?s0 = opts s"
    using nd by simp_all
  have inb: "\<not> (currentTranslate s > minTranslate ?s0 \<or> currentTranslate s < maxTranslate ?s0)"
    using assms(2) by simp
  from sl_step_cases [OF s0(1,2,3) inb, of now v lt] show ?thesis
  proof
    assume "halted (sl_step now v (currentTranslate s) lt ?s0)"
    then show ?thesis by (simp add: fr sl_terminal_def)
  next
    assume "\<exists>v1 c. sl_step now v (currentTranslate s) lt ?s0
                      = requestAnimationFrame (InertiaStep v1 c now) (setTranslate c ?s0)
                    \<and> \<bar>v1\<bar> \<le> \<bar>friction (opts ?s0)\<bar> * \<bar>v\<bar>
                    \<and> \<not> \<bar>v1\<bar> < 1 / 100"
    then obtain v1 c where
      e: "sl_frame now s = requestAnimationFrame (InertiaStep v1 c now) (setTranslate c ?s0)"
      and b: "\<bar>v1\<bar> \<le> \<bar>friction (opts s)\<bar> * \<bar>v\<bar>" "\<not> \<bar>v1\<bar> < 1 / 100"
      unfolding fr s0(4) by blast
    let ?s' = "requestAnimationFrame (InertiaStep v1 c now) (setTranslate c ?s0)"
    note c = inertia_continues [OF s0(1), of v1 c now]
    show ?thesis
    proof (cases "currentTranslate ?s' > minTranslate ?s' \<or> currentTranslate ?s' < maxTranslate ?s'")
      case True
      moreover have "phase ?s' = Inertia" by (simp add: phase_def requestAnimationFrame_def)
      ultimately show ?thesis unfolding e by (simp add: sl_terminal_def)
    next
      case False
      with c(1,2,3) b vel show ?thesis unfolding e s0(4) by simp
    qed
  qed
qed

lemma forceAdjacent_total:
  assumes "xs \<noteq> []" and "c \<le> length xs"
  shows "\<exists>sl. forceAdjacent xs c vel n = Inr sl"
  using assms by (auto simp: forceAdjacent_def slideAt_def Let_def)

lemma findNearestSlide_total:
  assumes "st_currentSlideIndex s \<le> length (ts_slides s)"
  shows "\<exists>sl. findNearestSlide s cur vel = Inr sl"
proof (cases "getSlidePositions s = []")
  case True
  then show ?thesis by (simp add: findNearestSlide_def)
next
  case False
  have "length (getSlidePositions s) = length (ts_slides s)"
    by (simp add: getSlidePositions_def slidePositionsFrom_length)
  with assms have "st_currentSlideIndex s \<le> length (getSlidePositions s)" by simp
  from forceAdjacent_total [OF False this] obtain sl where
    "forceAdjacent (getSlidePositions s) (st_currentSlideIndex s) vel
       (nearestByDistance (getSlidePositions s) (cur + vel * op_velocityMultiplier s * 100))
     = Inr sl"
    by blast
  then show ?thesis using False by (simp add: findNearestSlide_def Let_def)
qed

lemma getBounds_fixed: "ts_fixed s' = ts_fixed s \<Longrightarrow> getBounds s' = getBounds s"
  by (simp add: ts_fixed_def getBounds_def)

lemma edgeSpring_inside: "\<not> ts_outOfBounds s \<Longrightarrow> edgeSpring s = s"
  by (simp add: edgeSpring_def ts_outOfBounds_def Let_def)

lemma edgeSpring_keeps:
  "ts_fixed (edgeSpring s) = ts_fixed s"
  "an_isAnimating (edgeSpring s) = an_isAnimating s"
  "st_isSnapping (edgeSpring s) = st_isSnapping s"
  "st_isDragging (edgeSpring s) = st_isDragging s"
  "ts_events (edgeSpring s) = ts_events s"
  by (simp_all add: edgeSpring_def ts_fixed_def getBounds_def Let_def)

lemma edgeSpring_outside:
  assumes "ts_outOfBounds s"
  shows "st_currentX (edgeSpring s) = st_currentX s \<or> tc_velocityX (edgeSpring s) = 0"
  by (simp add: edgeSpring_def Let_def)

lemma moveEvent_keeps:
  "ts_fixed (moveEvent s) = ts_fixed s"
  "an_isAnimating (moveEvent s) = an_isAnimating s"
  "st_isSnapping (moveEvent s) = st_isSnapping s"
  "st_isDragging (moveEvent s) = st_isDragging s"
  "st_currentX (moveEvent s) = st_currentX s"
  "tc_velocityX (moveEvent s) = tc_velocityX s"
  by (simp_all add: moveEvent_def dispatchEvent_def ts_fixed_def)


lemma ts_outOfBounds_cong:
  "ts_fixed s' = ts_fixed s \<Longrightarrow> st_currentX s' = st_currentX s \<Longrightarrow>
   ts_outOfBounds s' = ts_outOfBounds s"
  using getBounds_fixed [of s' s] by (simp add: ts_outOfBounds_def)

lemma animateMove_cases:
  assumes "0 < op_velocityThreshold s"
  shows "ts_terminal (Inr (animateMove s))
         \<or> (ts_fixed (animateMove s) = ts_fixed s
            \<and> an_isAnimating (animateMove s) = an_isAnimating s
            \<and> st_isSnapping (animateMove s) = st_isSnapping s
            \<and> st_isDragging (animateMove s) = st_isDragging s
            \<and> an_rafId (animateMove s) = Pending ()
            \<and> tc_velocityX (animateMove s) = tc_velocityX s
            \<and> \<not> \<bar>tc_velocityX s\<bar> < op_velocityThreshold s)"
proof -
  define s1 where "s1 = s\<lparr>st_currentX := st_currentX s + tc_velocityX s\<rparr>"
  define s2 where "s2 = moveEvent (edgeSpring s1)"
  have unf: "animateMove s =
      (if \<bar>tc_velocityX s2\<bar> < op_velocityThreshold s2
       then dispatchEvent ''sliderStop''
              (s2\<lparr>tc_velocityX := 0, an_isAnimating := False, an_rafId := Null\<rparr>)
       else s2\<lparr>an_rafId := Pending ()\<rparr>)"
    unfolding animateMove_def s2_def s1_def Let_def ..
  have f1: "ts_fixed s1 = ts_fixed s" by (simp add: s1_def ts_fixed_def)
  have f2: "ts_fixed s2 = ts_fixed s"
    by (simp add: s2_def moveEvent_keeps edgeSpring_keeps f1)
  then have thr2: "op_velocityThreshold s2 = op_velocityThreshold s"
    by (simp add: ts_fixed_def)
  have k2: "an_isAnimating s2 = an_isAnimating s" "st_isSnapping s2 = st_isSnapping s"
    "st_isDragging s2 = st_isDragging s"
    by (simp_all add: s2_def moveEvent_keeps edgeSpring_keeps s1_def)
  have v2: "tc_velocityX s2 = tc_velocityX (edgeSpring s1)"
    and x2: "st_currentX s2 = st_currentX (edgeSpring s1)"
    by (simp_all add: s2_def moveEvent_keeps)
  show ?thesis
  proof (cases "\<bar>tc_velocityX s2\<bar> < op_velocityThreshold s2")
    case True
    then have "animateMove s = dispatchEvent ''sliderStop''
              (s2\<lparr>tc_velocityX := 0, an_isAnimating := False, an_rafId := Null\<rparr>)"
      by (simp add: unf)
    then have "ts_terminal (Inr (animateMove s))"
      by (simp add: ts_terminal_def dispatchEvent_def)
    then show ?thesis ..
  next
    case slow: False
    then have res: "animateMove s = s2\<lparr>an_rafId := Pending ()\<rparr>" by (simp add: unf)
    show ?thesis
    proof (cases "ts_outOfBounds s2")
      case True
      then have "ts_terminal (Inr (animateMove s))"
        by (simp add: res ts_terminal_def ts_outOfBounds_def getBounds_def)
      then show ?thesis ..
    next
      case inside: False
      have "\<not> ts_outOfBounds s1"
      proof
        assume out: "ts_outOfBounds s1"
        from edgeSpring_outside [OF out] show False
        proof
          assume "st_currentX (edgeSpring s1) = st_currentX s1"
          then have "st_currentX s2 = st_currentX s1" by (simp add: x2)
          from ts_outOfBounds_cong [OF _ this] f1 f2 out inside show False by simp
        next
          assume "tc_velocityX (edgeSpring s1) = 0"
          then have "tc_velocityX s2 = 0" by (simp add: v2)
          with slow assms thr2 show False by simp
        qed
      qed
      then have "edgeSpring s1 = s1" by (rule edgeSpring_inside)
      then have "tc_velocityX s2 = tc_velocityX s" by (simp add: v2 s1_def)
      with slow thr2 f2 k2 show ?thesis by (simp add: res ts_fixed_def)
    qed
  qed
qed


lemma startSnap_terminal: "ts_terminal (Inr (startSnap sl s))"
  by (simp add: ts_terminal_def startSnap_def dispatchEvent_def Let_def)

lemma ts_frame_step:
  assumes run: "ts_inertiaRunning s"
    and thr: "0 < op_velocityThreshold s"
    and idx: "st_currentSlideIndex s \<le> length (ts_slides s)"
  shows "\<exists>s'. ts_frame s = Inr s'
           \<and> (ts_terminal (Inr s')
              \<or> (ts_inertiaRunning s' \<and> ts_fixed s' = ts_fixed s
                 \<and> \<bar>tc_velocityX s'\<bar> \<le> \<bar>op_friction s\<bar> * \<bar>tc_velocityX s\<bar>
                 \<and> \<not> \<bar>tc_velocityX s'\<bar> < op_velocityThreshold s))"
proof -
  define s0 where "s0 = s\<lparr>an_rafId := Fired\<rparr>"
  define s1 where "s1 = s0\<lparr>tc_velocityX := tc_velocityX s0 * op_friction s0\<rparr>"
  have k0: "an_isAnimating s0" "\<not> st_isSnapping s0" "\<not> st_isDragging s0"
    using run by (simp_all add: s0_def ts_inertiaRunning_def)
  have f1: "ts_fixed s1 = ts_fixed s" by (simp add: s1_def s0_def ts_fixed_def)
  have k1: "an_isAnimating s1" "\<not> st_isSnapping s1" "\<not> st_isDragging s1"
    "op_velocityThreshold s1 = op_velocityThreshold s"
    "st_currentSlideIndex s1 = st_currentSlideIndex s" "ts_slides s1 = ts_slides s"
    "tc_velocityX s1 = tc_velocityX s * op_friction s"
    using run by (simp_all add: s1_def s0_def ts_inertiaRunning_def)
  have "ts_frame s = animate s0"
    using run by (simp add: ts_frame_def ts_inertiaRunning_def s0_def)
  also have "animate s0 =
      (if \<not> op_freeMode s1 \<and> \<not> st_isSnapping s1
          \<and> \<bar>tc_velocityX s1\<bar> < op_velocityThreshold s1 * 3
       then (case findNearestSlide s1 (st_currentX s1) (tc_velocityX s1) of
               Inl err \<Rightarrow> Inl err
             | Inr nearestSlide \<Rightarrow> Inr (startSnap nearestSlide s1))
       else Inr (animateMove s1))"
    unfolding animate_def Let_def s1_def
    by (simp only: k0 not_True_eq_False not_False_eq_True if_False if_True)
  finally have unf: "ts_frame s =
      (if \<not> op_freeMode s1 \<and> \<not> st_isSnapping s1
          \<and> \<bar>tc_velocityX s1\<bar> < op_velocityThreshold s1 * 3
       then (case findNearestSlide s1 (st_currentX s1) (tc_velocityX s1) of
               Inl err \<Rightarrow> Inl err
             | Inr nearestSlide \<Rightarrow> Inr (startSnap nearestSlide s1))
       else Inr (animateMove s1))" .
  show ?thesis
  proof (cases "\<not> op_freeMode s1 \<and> \<not> st_isSnapping s1
                 \<and> \<bar>tc_velocityX s1\<bar> < op_velocityThreshold s1 * 3")
    case True
    from findNearestSlide_total [of s1 "st_currentX s1" "tc_velocityX s1"] idx k1(5,6)
    obtain sl where "findNearestSlide s1 (st_currentX s1) (tc_velocityX s1) = Inr sl" by auto
    with True have "ts_frame s = Inr (startSnap sl s1)" unfolding unf by simp
    then show ?thesis using startSnap_terminal by blast
  next
    case False
    then have res: "ts_frame s = Inr (animateMove s1)" unfolding unf by (rule if_not_P)
    from thr k1(4) have "0 < op_velocityThreshold s1" by simp
    from animateMove_cases [OF this] show ?thesis
    proof
      assume "ts_terminal (Inr (animateMove s1))"
      then show ?thesis using res by blast
    next
      assume a: "ts_fixed (animateMove s1) = ts_fixed s1
            \<and> an_isAnimating (animateMove s1) = an_isAnimating s1
            \<and> st_isSnapping (animateMove s1) = st_isSnapping s1
            \<and> st_isDragging (animateMove s1) = st_isDragging s1
            \<and> an_rafId (animateMove s1) = Pending ()
            \<and> tc_velocityX (animateMove s1) = tc_velocityX s1
            \<and> \<not> \<bar>tc_velocityX s1\<bar> < op_velocityThreshold s1"
      then have "ts_inertiaRunning (animateMove s1)"
        using k1(1,2,3) by (simp add: ts_inertiaRunning_def)
      moreover have "\<bar>tc_velocityX (animateMove s1)\<bar> \<le> \<bar>op_friction s\<bar> * \<bar>tc_velocityX s\<bar>"
        using a k1(7) by (simp add: abs_mult mult.commute)
      ultimately show ?thesis using a f1 k1(4) res by auto
    qed
  qed
qed

lemma p0_settles:
  assumes "inertiaRunning s" and "0 < N"
    and "\<bar>inertiaVelocity s\<bar> * max (6 / 10) \<bar>friction (opts s)\<bar> ^ N < 1 / 100"
    and "N \<le> length nows"
  shows "reaches p0_frame halted nows s"
proof (rule decay_reaches [where running = "\<lambda>x. inertiaRunning x \<and> opts x = opts s"
        and vel = inertiaVelocity and q = "max (6 / 10) \<bar>friction (opts s)\<bar>"
        and eps = "1 / 100" and N = N])
  fix i x
  assume "inertiaRunning x \<and> opts x = opts s"
  then show "halted (p0_frame i x)
      \<or> ((inertiaRunning (p0_frame i x) \<and> opts (p0_frame i x) = opts s)
         \<and> \<bar>inertiaVelocity (p0_frame i x)\<bar>
             \<le> max (6 / 10) \<bar>friction (opts s)\<bar> * \<bar>inertiaVelocity x\<bar>
         \<and> \<not> \<bar>inertiaVelocity (p0_frame i x)\<bar> < 1 / 100)"
    using p0_frame_step [of x i] by auto
qed (use assms in simp_all)

lemma sl_settles:
  assumes "inertiaRunning s" and "0 < N"
    and "\<bar>inertiaVelocity s\<bar> * \<bar>friction (opts s)\<bar> ^ N < 1 / 100"
    and "N \<le> length nows"
  shows "reaches sl_frame sl_terminal nows s"
proof (cases "currentTranslate s > minTranslate s \<or> currentTranslate s < maxTranslate s")
  case True
  from assms(1) have "phase s = Inertia" by (auto simp: inertiaRunning_def phase_def)
  with True have "sl_terminal s" by (simp add: sl_terminal_def)
  then show ?thesis by (rule reaches_terminal)
next
  case False
  show ?thesis
  proof (rule decay_reaches [where
        running = "\<lambda>x. inertiaRunning x
                      \<and> \<not> (currentTranslate x > minTranslate x \<or> currentTranslate x < maxTranslate x)
                      \<and> opts x = opts s"
        and vel = inertiaVelocity and q = "\<bar>friction (opts s)\<bar>"
        and eps = "1 / 100" and N = N])
    fix i x
    assume "inertiaRunning x
            \<and> \<not> (currentTranslate x > minTranslate x \<or> currentTranslate x < maxTranslate x)
            \<and> opts x = opts s"
    then show "sl_terminal (sl_frame i x)
      \<or> ((inertiaRunning (sl_frame i x)
           \<and> \<not> (currentTranslate (sl_frame i x) > minTranslate (sl_frame i x)
                 \<or> currentTranslate (sl_frame i x) < maxTranslate (sl_frame i x))
           \<and> opts (sl_frame i x) = opts s)
         \<and> \<bar>inertiaVelocity (sl_frame i x)\<bar> \<le> \<bar>friction (opts s)\<bar> * \<bar>inertiaVelocity x\<bar>
         \<and> \<not> \<bar>inertiaVelocity (sl_frame i x)\<bar> < 1 / 100)"
      using sl_frame_step [of x i] by auto
  qed (use assms False in simp_all)
qed

lemma ts_settles:
  assumes "ts_inertiaRunning t" and "0 < op_velocityThreshold t"
    and "st_currentSlideIndex t \<le> length (ts_slides t)" and "0 < N"
    and "\<bar>tc_velocityX t\<bar> * \<bar>op_friction t\<bar> ^ N < op_velocityThreshold t"
    and "N \<le> length nows"
  shows "reaches ts_frameAt ts_terminal nows (Inr t)"
proof (rule decay_reaches [where
      running = "\<lambda>r :: error + ts. \<exists>x. r = Inr x \<and> ts_inertiaRunning x \<and> ts_fixed x = ts_fixed t"
      and vel = "\<lambda>r :: error + ts. case r of Inl err \<Rightarrow> 0 | Inr x \<Rightarrow> tc_velocityX x"
      and q = "\<bar>op_friction t\<bar>" and eps = "op_velocityThreshold t" and N = N])
  fix i and r :: "error + ts"
  assume "\<exists>x. r = Inr x \<and> ts_inertiaRunning x \<and> ts_fixed x = ts_fixed t"
  then obtain x where r: "r = Inr x" and run: "ts_inertiaRunning x"
    and fx: "ts_fixed x = ts_fixed t"
    by blast
  from fx have p: "op_velocityThreshold x = op_velocityThreshold t"
    "op_friction x = op_friction t" "st_currentSlideIndex x = st_currentSlideIndex t"
    "ts_slides x = ts_slides t"
    by (simp_all add: ts_fixed_def)
  from ts_frame_step [OF run] assms(2,3) p obtain x' where
    fr: "ts_frame x = Inr x'"
    and alt: "ts_terminal (Inr x')
              \<or> (ts_inertiaRunning x' \<and> ts_fixed x' = ts_fixed x
                 \<and> \<bar>tc_velocityX x'\<bar> \<le> \<bar>op_friction t\<bar> * \<bar>tc_velocityX x\<bar>
                 \<and> \<not> \<bar>tc_velocityX x'\<bar> < op_velocityThreshold t)"
    by auto
  have e: "ts_frameAt i (Inr x) = Inr x'" by (simp add: ts_frameAt_def fr)
  from alt show "ts_terminal (ts_frameAt i r)
      \<or> ((\<exists>y. ts_frameAt i r = Inr y \<and> ts_inertiaRunning y \<and> ts_fixed y = ts_fixed t)
         \<and> \<bar>case ts_frameAt i r of Inl err \<Rightarrow> 0 | Inr y \<Rightarrow> tc_velocityX y\<bar>
             \<le> \<bar>op_friction t\<bar> * \<bar>case r of Inl err \<Rightarrow> 0 | Inr y \<Rightarrow> tc_velocityX y\<bar>
         \<and> \<not> \<bar>case ts_frameAt i r of Inl err \<Rightarrow> 0 | Inr y \<Rightarrow> tc_velocityX y\<bar>
               < op_velocityThreshold t)"
    unfolding r e using fx by auto
qed (use assms in simp_all)

text \<open>
  Claim C7.  Once the inertia loop runs with velocity \<open>v\<close> and a friction option of
  magnitude below 1, the velocity decays geometrically, so some \<open>N\<close> has
  \<open>\<bar>v\<bar> * q ^ N\<close> below the stop threshold, and for every such \<open>N\<close> the loop reaches a
  terminal transition within \<open>N\<close> frames, whatever the frame times: in \<^verbatim>\<open>part_000\<close> the loop
  halts (stop emitted, snap animation or return-to-bounds animation scheduled; \<open>q\<close> is the
  larger of the friction and the 0.6 used beyond the bounds); in \<^verbatim>\<open>slider.js\<close> it halts or
  enters the spring branch beyond a bound; in \<^verbatim>\<open>TouchSlider.js\<close> (positive velocity
  threshold, current slide index within the slide list) the snap starts, the stop is
  emitted, or the track is beyond a bound under the edge spring.
\<close>

theorem C7_inertia_settles:
  "(inertiaRunning s \<longrightarrow> \<bar>friction (opts s)\<bar> < 1 \<longrightarrow>
      (\<exists>N>0. \<bar>inertiaVelocity s\<bar> * max (6 / 10) \<bar>friction (opts s)\<bar> ^ N < 1 / 100)
      \<and> (\<forall>N nows. 0 < N \<longrightarrow>
            \<bar>inertiaVelocity s\<bar> * max (6 / 10) \<bar>friction (opts s)\<bar> ^ N < 1 / 100 \<longrightarrow>
            N \<le> length nows \<longrightarrow> reaches p0_frame halted nows s))
   \<and> (inertiaRunning s \<longrightarrow> \<bar>friction (opts s)\<bar> < 1 \<longrightarrow>
      (\<exists>N>0. \<bar>inertiaVelocity s\<bar> * \<bar>friction (opts s)\<bar> ^ N < 1 / 100)
      \<and> (\<forall>N nows. 0 < N \<longrightarrow>
            \<bar>inertiaVelocity s\<bar> * \<bar>friction (opts s)\<bar> ^ N < 1 / 100 \<longrightarrow>
            N \<le> length nows \<longrightarrow> reaches sl_frame sl_terminal nows s))
   \<and> (ts_inertiaRunning t \<longrightarrow> \<bar>op_friction t\<bar> < 1 \<longrightarrow> 0 < op_velocityThreshold t \<longrightarrow>
       st_currentSlideIndex t \<le> length (ts_slides t) \<longrightarrow>
      (\<exists>N>0. \<bar>tc_velocityX t\<bar> * \<bar>op_friction t\<bar> ^ N < op_velocityThreshold t)
      \<and> (\<forall>N nows. 0 < N \<longrightarrow>
            \<bar>tc_velocityX t\<bar> * \<bar>op_friction t\<bar> ^ N < op_velocityThreshold t \<longrightarrow>
            N \<le> length nows \<longrightarrow> reaches ts_frameAt ts_terminal nows (Inr t)))"
proof (intro conjI impI allI)
  assume "\<bar>friction (opts s)\<bar> < 1"
  then show "\<exists>N>0. \<bar>inertiaVelocity s\<bar> * max (6 / 10) \<bar>friction (opts s)\<bar> ^ N < 1 / 100"
    by (intro decay_bound_exists) simp_all
next
  fix N and nows :: "int list"
  assume "inertiaRunning s" "0 < N"
    "\<bar>inertiaVelocity s\<bar> * max (6 / 10) \<bar>friction (opts s)\<bar> ^ N < 1 / 100" "N \<le> length nows"
  then show "reaches p0_frame halted nows s" by (rule p0_settles)
next
  assume "\<bar>friction (opts s)\<bar> < 1"
  then show "\<exists>N>0. \<bar>inertiaVelocity s\<bar> * \<bar>friction (opts s)\<bar> ^ N < 1 / 100"
    by (intro decay_bound_exists) simp_all
next
  fix N and nows :: "int list"
  assume "inertiaRunning s" "0 < N"
    "\<bar>inertiaVelocity s\<bar> * \<bar>friction (opts s)\<bar> ^ N < 1 / 100" "N \<le> length nows"
  then show "reaches sl_frame sl_terminal nows s" by (rule sl_settles)
next
  assume "\<bar>op_friction t\<bar> < 1" "0 < op_velocityThreshold t"
  then show "\<exists>N>0. \<bar>tc_velocityX t\<bar> * \<bar>op_friction t\<bar> ^ N < op_velocityThreshold t"
    by (intro decay_bound_exists) simp_all
next
  fix N and nows :: "int list"
  assume "ts_inertiaRunning t" "0 < op_velocityThreshold t"
    "st_currentSlideIndex t \<le> length (ts_slides t)" "0 < N"
    "\<bar>tc_velocityX t\<bar> * \<bar>op_friction t\<bar> ^ N < op_velocityThreshold t" "N \<le> length nows"
  then show "reaches ts_frameAt ts_terminal nows (Inr t)" by (rule ts_settles)
qed

lemma flungSlider_fields:
  "inertiaRunning flungSlider" "inertiaVelocity flungSlider = 2"
  "friction (opts flungSlider) = 1 / 2"
  by (simp_all add: flungSlider_def exampleSlider_def inertiaRunning_def inertiaVelocity_def)

lemma flungTs_fields:
  "ts_inertiaRunning flungTs" "tc_velocityX flungTs = 20" "op_friction flungTs = 1 / 2"
  "op_velocityThreshold flungTs = 1 / 10" "st_currentSlideIndex flungTs = 0"
  "ts_slides flungTs = [300, 300, 300]"
  by (simp_all add: flungTs_def exampleTs_def ts_inertiaRunning_def)

theorem C7_inertia_settles_witness:
  "reaches p0_frame halted frameTimes flungSlider
   \<and> reaches sl_frame sl_terminal frameTimes flungSlider
   \<and> reaches ts_frameAt ts_terminal frameTimes (Inr flungTs)"
proof -
  note T = C7_inertia_settles [of flungSlider flungTs]
  have len: "length frameTimes = 11" by (simp add: frameTimes_def)
  have f: "\<bar>friction (opts flungSlider)\<bar> < 1" by (simp add: flungSlider_fields)
  have "\<forall>N nows. 0 < N \<longrightarrow>
          \<bar>inertiaVelocity flungSlider\<bar> * max (6 / 10) \<bar>friction (opts flungSlider)\<bar> ^ N < 1 / 100 \<longrightarrow>
          N \<le> length nows \<longrightarrow> reaches p0_frame halted nows flungSlider"
    using T [THEN conjunct1] flungSlider_fields(1) f by blast
  from this [rule_format, of 11 frameTimes]
  have a: "reaches p0_frame halted frameTimes flungSlider"
    by (simp add: flungSlider_fields len power_divide)
  have "\<forall>N nows. 0 < N \<longrightarrow>
          \<bar>inertiaVelocity flungSlider\<bar> * \<bar>friction (opts flungSlider)\<bar> ^ N < 1 / 100 \<longrightarrow>
          N \<le> length nows \<longrightarrow> reaches sl_frame sl_terminal nows flungSlider"
    using T [THEN conjunct2, THEN conjunct1] flungSlider_fields(1) f by blast
  from this [rule_format, of 8 frameTimes]
  have b: "reaches sl_frame sl_terminal frameTimes flungSlider"
    by (simp add: flungSlider_fields len power_divide)
  have "\<forall>N nows. 0 < N \<longrightarrow>
          \<bar>tc_velocityX flungTs\<bar> * \<bar>op_friction flungTs\<bar> ^ N < op_velocityThreshold flungTs \<longrightarrow>
          N \<le> length nows \<longrightarrow> reaches ts_frameAt ts_terminal nows (Inr flungTs)"
    using T [THEN conjunct2, THEN conjunct2] by (simp add: flungTs_fields)
  from this [rule_format, of 8 frameTimes]
  have c: "reaches ts_frameAt ts_terminal frameTimes (Inr flungTs)"
    by (simp add: flungTs_fields len power_divide)
  from a b c show ?thesis by blast
qed

section \<open>Zero slides: results\<close>

lemma emptySlider_fields:
  "slidesGrid emptySlider = []" "currentTranslate emptySlider = 0"
  "minTranslate emptySlider = 0" "maxTranslate emptySlider = 0"
  "rafId emptySlider = Null" "opts emptySlider = defaultOptions"
  by (simp_all add: emptySlider_def exampleSlider_def)

text \<open>
  Claim C8 on the code.  With no slides \<^verbatim>\<open>findNearestSlide\<close> of \<^verbatim>\<open>TouchSlider.js\<close> returns
  index 0 at offset 0.  In \<^verbatim>\<open>slider.js\<close>, \<^verbatim>\<open>snapToNearest\<close> on the empty grid hands an
  undefined target to \<^verbatim>\<open>animateTo\<close>, whose frames then write a not-a-number offset, and
  \<^verbatim>\<open>updateDimensions\<close> (so \<^verbatim>\<open>init\<close> too) raises a \<^verbatim>\<open>TypeError\<close>.
\<close>

theorem C8_zero_slides:
  "findNearestSlide emptyTs 0 0 = Inr \<lparr>sp_index = 0, sp_position = 0\<rparr>
   \<and> snapTarget 0 [] 0 0 = (None, 0)
   \<and> rafId (sl_snapToNearest 0 emptySlider)
       = Pending (AnimLoop 0 None 0 300 EaseOutQuad (Some 0))
   \<and> loopNewPos 0 None (applyEasing EaseOutQuad 1) = None
   \<and> sl_updateDimensions 300 [] = Inl TypeError
   \<and> sl_init 300 [] exampleSlider = Inl TypeError"
proof (intro conjI)
  show "findNearestSlide emptyTs 0 0 = Inr \<lparr>sp_index = 0, sp_position = 0\<rparr>"
    by (simp add: findNearestSlide_def getSlidePositions_def emptyTs_def)
  show "snapTarget 0 [] 0 0 = (None, 0)" by (simp add: snapTarget_def)
  show "rafId (sl_snapToNearest 0 emptySlider)
       = Pending (AnimLoop 0 None 0 300 EaseOutQuad (Some 0))"
    by (simp add: sl_snapToNearest_def snapTarget_def animateTo_def requestAnimationFrame_def
        stopTransition_def emptySlider_fields defaultOptions_def)
  show "loopNewPos 0 None (applyEasing EaseOutQuad 1) = None" by (simp add: loopNewPos_def)
  show u: "sl_updateDimensions 300 [] = Inl TypeError"
    by (simp add: sl_updateDimensions_def getMarginRight_def)
  show "sl_init 300 [] exampleSlider = Inl TypeError" by (simp add: sl_init_def u)
qed

section \<open>Bounds: results\<close>

text \<open>\<^verbatim>\<open>slider.js\<close>: the last grid entry never exceeds the first one.\<close>

lemma sl_grid_Cons:
  "fst (sl_grid cw off (sl # rest))
   = (- off + (cw - offsetWidth sl) / 2)
     # fst (sl_grid cw (off + (offsetWidth sl + marginRight sl)) rest)"
  by (simp add: Let_def split: prod.splits)

lemma sl_grid_last_le:
  assumes "slides \<noteq> []" and "\<forall>sl \<in> set slides. 0 \<le> offsetWidth sl \<and> 0 \<le> marginRight sl"
  shows "fst (sl_grid cw off slides) \<noteq> []
         \<and> hd (fst (sl_grid cw off slides)) = - off + (cw - offsetWidth (hd slides)) / 2
         \<and> last (fst (sl_grid cw off slides)) \<le> - off + (cw - offsetWidth (hd slides)) / 2"
  using assms
proof (induction slides arbitrary: off)
  case Nil
  then show ?case by simp
next
  case (Cons sl rest)
  show ?case
  proof (cases "rest = []")
    case True
    then show ?thesis by (simp add: Let_def)
  next
    case False
    let ?off' = "off + (offsetWidth sl + marginRight sl)"
    from Cons.prems have nn: "\<forall>sl \<in> set rest. 0 \<le> offsetWidth sl \<and> 0 \<le> marginRight sl"
      and sl: "0 \<le> offsetWidth sl" "0 \<le> marginRight sl"
      by simp_all
    from False nn have hd_nn: "0 \<le> offsetWidth (hd rest)" by (cases rest) auto
    from Cons.IH [OF False nn, of ?off']
    have ne: "fst (sl_grid cw ?off' rest) \<noteq> []"
      and le: "last (fst (sl_grid cw ?off' rest)) \<le> - ?off' + (cw - offsetWidth (hd rest)) / 2"
      by simp_all
    have eq: "last (fst (sl_grid cw off (sl # rest))) = last (fst (sl_grid cw ?off' rest))"
      using ne by (simp add: sl_grid_Cons del: sl_grid.simps)
    have mono: "- ?off' + (cw - offsetWidth (hd rest)) / 2 \<le> - off + (cw - offsetWidth sl) / 2"
      using sl hd_nn by (simp add: field_simps)
    have "last (fst (sl_grid cw off (sl # rest))) \<le> - off + (cw - offsetWidth sl) / 2"
      using eq mono le by linarith
    moreover have "fst (sl_grid cw off (sl # rest)) \<noteq> []"
      and "hd (fst (sl_grid cw off (sl # rest))) = - off + (cw - offsetWidth sl) / 2"
      by (simp_all add: sl_grid_Cons del: sl_grid.simps)
    ultimately show ?thesis by simp
  qed
qed

lemma sl_updateDimensions_bounds:
  assumes "\<forall>sl \<in> set slides. 0 \<le> offsetWidth sl \<and> 0 \<le> marginRight sl"
    and "sl_updateDimensions cw slides = Inr g"
  shows "g_maxTranslate g \<le> g_minTranslate g"
proof (cases "slides = []")
  case True
  then show ?thesis using assms(2) by (simp add: sl_updateDimensions_def getMarginRight_def)
next
  case False
  from sl_grid_last_le [OF False assms(1), of cw 0]
  have "fst (sl_grid cw 0 slides) \<noteq> []"
    and "last (fst (sl_grid cw 0 slides)) \<le> hd (fst (sl_grid cw 0 slides))"
    by simp_all
  then show ?thesis using assms(2) False
    by (auto simp: sl_updateDimensions_def getMarginRight_def split: prod.splits)
qed

text \<open>
  \<^verbatim>\<open>part_000\<close>: the recomputation keeps the bounds ordered; with leading-edge alignment by
  the explicit \<^verbatim>\<open>Math.min\<close>, with centred alignment for slides laid out in a row.
\<close>

lemma inRow_last:
  assumes "inRow (sl # rest)" and "rest \<noteq> []" and "\<forall>r \<in> set (sl # rest). 0 \<le> rs_width r"
  shows "rs_left sl + rs_width sl \<le> rs_left (last (sl # rest))"
  using assms
proof (induction rest arbitrary: sl)
  case Nil
  then show ?case by simp
next
  case (Cons sl' rest)
  show ?case
  proof (cases "rest = []")
    case True
    then show ?thesis using Cons.prems by simp
  next
    case False
    from Cons.prems have "inRow (sl' # rest)" and "\<forall>r \<in> set (sl' # rest). 0 \<le> rs_width r"
      and step: "rs_left sl + rs_width sl \<le> rs_left sl'" and "0 \<le> rs_width sl'"
      by simp_all
    from Cons.IH [OF this(1) False this(2)] step \<open>0 \<le> rs_width sl'\<close>
    show ?thesis by simp
  qed
qed

lemma p0_updateDimensions_bounds:
  assumes "maxTranslate s \<le> minTranslate s"
    and "\<forall>r \<in> set (slideRects lay). 0 \<le> rs_width r"
    and "centered (opts s) \<longrightarrow> inRow (slideRects lay)"
  shows "maxTranslate (p0_updateDimensions lay s) \<le> minTranslate (p0_updateDimensions lay s)"
proof (cases "slideRects lay")
  case Nil
  then show ?thesis using assms(1) by (simp add: p0_updateDimensions_def)
next
  case (Cons sl rest)
  show ?thesis
  proof (cases "centered (opts s)")
    case False
    then show ?thesis by (simp add: p0_updateDimensions_def Cons Let_def)
  next
    case True
    have "rs_left sl - rs_width (last (sl # rest)) / 2
          \<le> rs_left (last (sl # rest)) - rs_width sl / 2"
    proof (cases "rest = []")
      case True
      then show ?thesis by simp
    next
      case False
      from inRow_last [OF _ False, of sl] assms(2,3) True Cons
      have "rs_left sl + rs_width sl \<le> rs_left (last (sl # rest))" by simp
      moreover have "0 \<le> rs_width sl" "0 \<le> rs_width (last (sl # rest))"
        using assms(2) Cons last_in_set [of "sl # rest"] by auto
      ultimately show ?thesis by simp
    qed
    then show ?thesis using True
      by (auto simp add: p0_updateDimensions_def Cons Let_def last_map field_simps
          split: if_splits)
  qed
qed

lemma narrowTs_fields: "st_trackWidth narrowTs = 100" "st_sliderWidth narrowTs = 300"
  by (simp_all add: narrowTs_def calculateDimensions_def exampleTs_def)

text \<open>
  Claim C9 on \<^verbatim>\<open>TouchSlider.js\<close>.  For one slide of width 100 in a container of width 300,
  \<^verbatim>\<open>calculateDimensions\<close> and \<^verbatim>\<open>getBounds\<close> give the leftmost bound \<open>min = 200\<close> and the
  rightmost bound \<open>max = 0\<close>: the rightmost bound is below the leftmost one.
\<close>

theorem C9_bounds_order:
  "getBounds narrowTs = \<lparr>b_min = 200, b_max = 0\<rparr>
   \<and> \<not> b_max (getBounds narrowTs) \<ge> b_min (getBounds narrowTs)"
  by (simp add: getBounds_def narrowTs_fields)

section \<open>Sessions without a horizontal swipe: results\<close>

lemma sl_onTouchMove_not_horizontal:
  assumes "isHorizontal (sl_onTouchMove now e s) \<noteq> Some True"
  shows "currentTranslate (sl_onTouchMove now e s) = currentTranslate s"
    and "rafId (sl_onTouchMove now e s) = rafId s"
    and "events (sl_onTouchMove now e s) = events s"
  using assms
  by (auto simp: sl_onTouchMove_def sl_drag_def setTranslate_def emit_def Let_def
      split: option.splits bool.splits if_splits)

lemma sl_moves_not_horizontal:
  assumes "isHorizontal (sl_moves ms s) \<noteq> Some True"
  shows "currentTranslate (sl_moves ms s) = currentTranslate s
         \<and> rafId (sl_moves ms s) = rafId s \<and> events (sl_moves ms s) = events s"
  using assms
proof (induction ms arbitrary: s)
  case Nil
  then show ?case by simp
next
  case (Cons m ms)
  let ?s' = "sl_onTouchMove (fst m) (snd m) s"
  have nh: "isHorizontal ?s' \<noteq> Some True"
  proof
    assume h: "isHorizontal ?s' = Some True"
    then have "isHorizontal (sl_moves ms ?s') = Some True"
      using sl_moves_locked [of ?s' ms] by simp
    with Cons.prems show False by simp
  qed
  from Cons.IH [of ?s'] Cons.prems sl_onTouchMove_not_horizontal [OF nh]
  show ?case by simp
qed

lemma sl_onTouchEnd_not_horizontal:
  assumes "isHorizontal s \<noteq> Some True"
  shows "currentTranslate (sl_onTouchEnd now ty s) = currentTranslate s"
    and "rafId (sl_onTouchEnd now ty s) = rafId s"
    and "events (sl_onTouchEnd now ty s) = events s"
  using assms by (cases "isHorizontal s"; auto simp: sl_onTouchEnd_def)+

lemma determineDirection_vertical:
  assumes "\<bar>dx\<bar> > 10 \<or> \<bar>dy\<bar> > 10" and "\<not> (\<bar>dx\<bar> \<noteq> 0 \<and> \<bar>dy\<bar> / \<bar>dx\<bar> < 5.6713)"
  shows "determineDirection dx dy s
         = s\<lparr>tc_isDirectionDetermined := True, tc_isHorizontalSwipe := False\<rparr>"
  using assms by (auto simp: determineDirection_def Let_def)

lemma determineDirection_horizontal:
  assumes "\<bar>dx\<bar> > 10 \<or> \<bar>dy\<bar> > 10" and "\<bar>dx\<bar> \<noteq> 0 \<and> \<bar>dy\<bar> / \<bar>dx\<bar> < 5.6713"
  shows "tc_isDirectionDetermined (determineDirection dx dy s)"
    and "tc_isHorizontalSwipe (determineDirection dx dy s)"
  using assms by (auto simp: determineDirection_def dispatchEvent_def Let_def)

lemma determineDirection_not_horizontal:
  assumes "\<not> (tc_isDirectionDetermined (determineDirection dx dy s)
              \<and> tc_isHorizontalSwipe (determineDirection dx dy s))"
  shows "ts_motion (determineDirection dx dy s) = ts_motion s"
proof (cases "\<bar>dx\<bar> > 10 \<or> \<bar>dy\<bar> > 10")
  case False
  then show ?thesis by (simp add: determineDirection_dead)
next
  case out: True
  show ?thesis
  proof (cases "\<bar>dx\<bar> \<noteq> 0 \<and> \<bar>dy\<bar> / \<bar>dx\<bar> < 5.6713")
    case True
    from determineDirection_horizontal [OF out True, of s] assms show ?thesis by simp
  next
    case False
    show ?thesis
      unfolding determineDirection_vertical [OF out False] by (simp add: ts_motion_def)
  qed
qed


lemma ts_drag_flags:
  "tc_isDirectionDetermined (ts_drag now dx s) = tc_isDirectionDetermined s"
  "tc_isHorizontalSwipe (ts_drag now dx s) = tc_isHorizontalSwipe s"
  by (simp_all add: ts_drag_def Let_def)

lemma handleTouchMove_touching:
  assumes "tc_isTouching s"
  shows "handleTouchMove now e s =
     (let s1 = s\<lparr>tc_currentX := clientX e, tc_currentY := clientY e\<rparr>;
          s2 = (if \<not> tc_isDirectionDetermined s1
                then determineDirection (clientX e - tc_startX s) (clientY e - tc_startY s) s1
                else s1)
      in if tc_isDirectionDetermined s2 \<and> tc_isHorizontalSwipe s2
         then ts_drag now (clientX e - tc_startX s) s2
         else s2)"
  using assms by (simp add: handleTouchMove_def Let_def)

lemma handleTouchMove_not_horizontal:
  assumes "ts_direction (handleTouchMove now e s) \<noteq> Some True"
  shows "ts_motion (handleTouchMove now e s) = ts_motion s"
proof (cases "tc_isTouching s")
  case False
  then show ?thesis by (simp add: handleTouchMove_def)
next
  case True
  define s1 where "s1 = s\<lparr>tc_currentX := clientX e, tc_currentY := clientY e\<rparr>"
  define d where "d = determineDirection (clientX e - tc_startX s) (clientY e - tc_startY s) s1"
  define s2 where "s2 = (if \<not> tc_isDirectionDetermined s1 then d else s1)"
  have m1: "ts_motion s1 = ts_motion s" by (simp add: ts_motion_def s1_def)
  have unf: "handleTouchMove now e s =
     (if tc_isDirectionDetermined s2 \<and> tc_isHorizontalSwipe s2
      then ts_drag now (clientX e - tc_startX s) s2 else s2)"
    unfolding handleTouchMove_touching [OF True] s2_def d_def s1_def Let_def ..
  have nh: "\<not> (tc_isDirectionDetermined s2 \<and> tc_isHorizontalSwipe s2)"
  proof
    assume h: "tc_isDirectionDetermined s2 \<and> tc_isHorizontalSwipe s2"
    then have "ts_direction (handleTouchMove now e s) = Some True"
      by (simp add: unf ts_direction_def ts_drag_flags)
    with assms show False by simp
  qed
  then have res: "handleTouchMove now e s = s2" unfolding unf by (rule if_not_P)
  have "ts_motion s2 = ts_motion s1"
  proof (cases "tc_isDirectionDetermined s1")
    case True
    then show ?thesis by (simp add: s2_def)
  next
    case False
    then have e2: "s2 = d" by (simp add: s2_def)
    from nh have "\<not> (tc_isDirectionDetermined d \<and> tc_isHorizontalSwipe d)"
      unfolding e2 .
    then show ?thesis
      unfolding e2 d_def by (rule determineDirection_not_horizontal)
  qed
  with res m1 show ?thesis by simp
qed

lemma ts_moves_not_horizontal:
  assumes "ts_direction (ts_moves ms s) \<noteq> Some True"
  shows "ts_motion (ts_moves ms s) = ts_motion s"
  using assms
proof (induction ms arbitrary: s)
  case Nil
  then show ?case by simp
next
  case (Cons m ms)
  let ?s' = "handleTouchMove (fst m) (snd m) s"
  have nh: "ts_direction ?s' \<noteq> Some True"
  proof
    assume h: "ts_direction ?s' = Some True"
    then have "ts_direction (ts_moves ms ?s') = Some True"
      using ts_moves_locked [of ?s' ms] by simp
    with Cons.prems show False by simp
  qed
  from Cons.IH [of ?s'] Cons.prems handleTouchMove_not_horizontal [OF nh]
  show ?case by simp
qed

lemma handleTouchEnd_not_dragging:
  assumes "\<not> st_isDragging s"
  shows "handleTouchEnd now s = Inr (s\<lparr>tc_isTouching := False\<rparr>)"
  using assms by (simp add: handleTouchEnd_def Let_def)

lemma onTouchStart_rafId: "rafId (onTouchStart now e s) = Null"
  by (simp add: onTouchStart_def emit_def stopTransition_def Let_def)

text \<open>
  A session that is never classified horizontal.  In \<^verbatim>\<open>slider.js\<close> the touch-end handler
  returns early whatever the state at touch start was: the offset is the one at touch
  start, no frame callback is pending and no event has been emitted since the touch
  start.  In \<^verbatim>\<open>TouchSlider.js\<close> the handlers leave the offset, the animation flags and the
  event log as they were, provided \<^verbatim>\<open>state.isDragging\<close> was false at touch start.
\<close>

lemma sl_session_not_horizontal:
  assumes nh: "isHorizontal (sl_moves ms (onTouchStart now e0 s)) \<noteq> Some True"
  shows "currentTranslate (sl_onTouchEnd now' ty (sl_moves ms (onTouchStart now e0 s)))
           = currentTranslate s"
    and "rafId (sl_onTouchEnd now' ty (sl_moves ms (onTouchStart now e0 s))) = Null"
    and "phase (sl_onTouchEnd now' ty (sl_moves ms (onTouchStart now e0 s))) = Idle"
    and "events (sl_onTouchEnd now' ty (sl_moves ms (onTouchStart now e0 s)))
           = events (onTouchStart now e0 s)"
proof -
  let ?s1 = "sl_moves ms (onTouchStart now e0 s)"
  from sl_moves_not_horizontal [OF nh]
  have m: "currentTranslate ?s1 = currentTranslate s" "rafId ?s1 = Null"
    "events ?s1 = events (onTouchStart now e0 s)"
    by (simp_all add: onTouchStart_fields onTouchStart_rafId)
  show "currentTranslate (sl_onTouchEnd now' ty ?s1) = currentTranslate s"
    using sl_onTouchEnd_not_horizontal(1) [OF nh] m by simp
  show r: "rafId (sl_onTouchEnd now' ty ?s1) = Null"
    using sl_onTouchEnd_not_horizontal(2) [OF nh] m by simp
  show "phase (sl_onTouchEnd now' ty ?s1) = Idle"
    by (simp add: phase_def r)
  show "events (sl_onTouchEnd now' ty ?s1) = events (onTouchStart now e0 s)"
    using sl_onTouchEnd_not_horizontal(3) [OF nh] m by simp
qed

lemma ts_session_not_horizontal:
  assumes nd: "\<not> st_isDragging t"
    and nh: "ts_direction (ts_moves ms (handleTouchStart now e0 t)) \<noteq> Some True"
  shows "\<exists>t'. handleTouchEnd now' (ts_moves ms (handleTouchStart now e0 t)) = Inr t'
           \<and> st_currentX t' = st_currentX t
           \<and> an_rafId t' = an_rafId t
           \<and> an_isAnimating t' = an_isAnimating t
           \<and> st_isSnapping t' = st_isSnapping t
           \<and> ts_events t' = ts_events t"
proof -
  let ?t1 = "ts_moves ms (handleTouchStart now e0 t)"
  have "ts_motion (handleTouchStart now e0 t) = ts_motion t"
    by (simp add: ts_motion_def handleTouchStart_def)
  with ts_moves_not_horizontal [OF nh] have m: "ts_motion ?t1 = ts_motion t" by simp
  then have "\<not> st_isDragging ?t1" using nd by (simp add: ts_motion_def)
  from handleTouchEnd_not_dragging [OF this, of now'] m
  show ?thesis by (simp add: ts_motion_def)
qed

text \<open>The second touch start, evaluated.\<close>

lemma firstDrag:
  "ts_moves [(16, touchAt (-100) 0)] (handleTouchStart 0 (touchAt 0 0) exampleTs)
   = exampleTs\<lparr>tc_startX := 0, tc_startY := 0, tc_currentX := -100, tc_currentY := 0,
       tc_startTime := 0, tc_startPositionX := 0,
       tc_isDirectionDetermined := True, tc_isHorizontalSwipe := True,
       tc_isTouching := True, tc_velocityX := 0,
       tc_history := [\<lparr>pt_x = 0, pt_time = 0\<rparr>, \<lparr>pt_x = -100, pt_time = 16\<rparr>],
       st_isSnapping := False, st_isDragging := True,
       st_currentX := -100, st_targetX := -100,
       ts_events := [''sliderDragStart'']\<rparr>"
  by (simp add: handleTouchStart_def handleTouchMove_def determineDirection_def ts_drag_def
      applyRubberBand_def getBounds_def dispatchEvent_def touchAt_def exampleTs_def Let_def)

lemma secondTouchTs_eq:
  "secondTouchTs
   = exampleTs\<lparr>tc_startX := -100, tc_startY := 0, tc_currentX := -100, tc_currentY := 0,
       tc_startTime := 32, tc_startPositionX := -100,
       tc_isDirectionDetermined := False, tc_isHorizontalSwipe := False,
       tc_isTouching := True, tc_velocityX := 0,
       tc_history := [\<lparr>pt_x = -100, pt_time = 32\<rparr>],
       st_isSnapping := False, st_isDragging := True,
       st_currentX := -100, st_targetX := -100,
       ts_events := [''sliderDragStart'']\<rparr>"
  unfolding secondTouchTs_def firstDrag
  by (simp add: handleTouchStart_def touchAt_def exampleTs_def)

lemma secondTouchTs_down:
  "ts_moves downMoves secondTouchTs
   = secondTouchTs\<lparr>tc_currentY := 50, tc_isDirectionDetermined := True\<rparr>"
  unfolding secondTouchTs_eq
  by (simp add: downMoves_def handleTouchMove_def determineDirection_def touchAt_def
      exampleTs_def Let_def)

lemma secondTouchTs_end:
  "handleTouchEnd 48 secondTouchTs
   = Inr (secondTouchTs\<lparr>tc_isTouching := False, st_isDragging := False,
            an_isAnimating := True, st_isSnapping := True, st_snapTargetX := 0,
            an_rafId := Pending (),
            ts_events := [''sliderDragStart'', ''sliderSnapStart'', ''sliderDragEnd'']\<rparr>)"
  unfolding secondTouchTs_eq
  by (simp add: handleTouchEnd_def ts_calculateVelocity_def ts_recentHistory_def animate_def
      findNearestSlide_def nearestByDistance_def forceAdjacent_def getSlidePositions_def
      getBounds_def clamp_def startSnap_def dispatchEvent_def exampleTs_def Let_def)

lemma secondTouchTs_down_end:
  "handleTouchEnd 48 (ts_moves downMoves secondTouchTs)
   = Inr (secondTouchTs\<lparr>tc_currentY := 50, tc_isDirectionDetermined := True,
            tc_isTouching := False, st_isDragging := False,
            an_isAnimating := True, st_isSnapping := True, st_snapTargetX := 0,
            an_rafId := Pending (),
            ts_events := [''sliderDragStart'', ''sliderSnapStart'', ''sliderDragEnd'']\<rparr>)"
  unfolding secondTouchTs_down unfolding secondTouchTs_eq
  by (simp add: handleTouchEnd_def ts_calculateVelocity_def ts_recentHistory_def animate_def
      findNearestSlide_def nearestByDistance_def forceAdjacent_def getSlidePositions_def
      getBounds_def clamp_def startSnap_def dispatchEvent_def exampleTs_def Let_def)

lemma snap_frame:
  assumes "an_rafId t = Pending ()" "an_isAnimating t" "st_isSnapping t"
    "st_snapTargetX t = 0" "st_currentX t = -100"
  shows "\<exists>t'. ts_frame t = Inr t' \<and> st_currentX t' = -85"
  using assms
  by (simp add: ts_frame_def animate_def animateSnap_def moveEvent_def dispatchEvent_def Let_def)

lemma secondTouchSlider_fields:
  "isDragging secondTouchSlider" "isHorizontal secondTouchSlider = None"
  "currentTranslate secondTouchSlider = -100" "rafId secondTouchSlider = Null"
  "startTouchX secondTouchSlider = -100" "startTouchY secondTouchSlider = 0"
  "angleThreshold (opts secondTouchSlider) = 65"
proof -
  have a0: "Math_atan2 0 100 = 0" by (simp add: Math_atan2_def)
  show "isDragging secondTouchSlider" "isHorizontal secondTouchSlider = None"
    "rafId secondTouchSlider = Null"
    "startTouchX secondTouchSlider = -100" "startTouchY secondTouchSlider = 0"
    by (simp_all add: secondTouchSlider_def onTouchStart_fields touchAt_def)
  show "currentTranslate secondTouchSlider = -100"
    "angleThreshold (opts secondTouchSlider) = 65"
    by (simp_all add: secondTouchSlider_def onTouchStart_fields)
      (simp_all add: onTouchStart_def sl_onTouchMove_def sl_drag_def sl_resist_def a0
        setTranslate_def emit_def touchAt_def exampleSlider_def defaultOptions_def Let_def)
qed

lemma secondTouchSlider_down:
  "sl_moves downMoves secondTouchSlider
   = secondTouchSlider\<lparr>isHorizontal := Some False, isDragging := False\<rparr>"
proof -
  have a: "Math_atan2 50 0 = pi / 2" by (simp add: Math_atan2_def)
  show ?thesis
    by (simp add: downMoves_def sl_onTouchMove_def secondTouchSlider_fields touchAt_def a Let_def)
qed

text \<open>
  Claim C10 on \<^verbatim>\<open>TouchSlider.js\<close>.  \<^verbatim>\<open>handleTouchEnd\<close> returns early on
  \<^verbatim>\<open>state.isDragging\<close>, which \<^verbatim>\<open>handleTouchStart\<close> does not reset, and not on the
  direction of the session that ends.  After a second touch start during a horizontal
  drag that has moved the track to -100, the session is a tap (direction unknown) or a
  move straight down (direction vertical); all the same the touch-end handler runs
  \<^verbatim>\<open>animate\<close>, which starts the snap to slide 0 and requests a frame, and that frame moves
  the track from -100 to -85.  On the same input \<^verbatim>\<open>slider.js\<close>, whose touch start resets
  the direction that its touch end tests, returns early: the offset stays at -100 and no
  frame is requested.
\<close>

theorem C10_session_without_horizontal:
  "st_isDragging secondTouchTs \<and> st_currentX secondTouchTs = -100
   \<and> an_rafId secondTouchTs = Null
   \<and> ts_direction secondTouchTs = None
   \<and> ts_direction (ts_moves downMoves secondTouchTs) = Some False
   \<and> (\<exists>t' t''. handleTouchEnd 48 secondTouchTs = Inr t'
          \<and> an_rafId t' = Pending () \<and> an_isAnimating t' \<and> st_isSnapping t'
          \<and> st_snapTargetX t' = 0
          \<and> ts_events t' = ts_events secondTouchTs @ [''sliderSnapStart'', ''sliderDragEnd'']
          \<and> ts_frame t' = Inr t'' \<and> st_currentX t'' = -85)
   \<and> (\<exists>t' t''. handleTouchEnd 48 (ts_moves downMoves secondTouchTs) = Inr t'
          \<and> an_rafId t' = Pending () \<and> an_isAnimating t' \<and> st_isSnapping t'
          \<and> st_snapTargetX t' = 0
          \<and> ts_events t' = ts_events secondTouchTs @ [''sliderSnapStart'', ''sliderDragEnd'']
          \<and> ts_frame t' = Inr t'' \<and> st_currentX t'' = -85)
   \<and> isHorizontal secondTouchSlider = None
   \<and> currentTranslate secondTouchSlider = -100
   \<and> currentTranslate (sl_onTouchEnd 48 TouchEnd secondTouchSlider) = -100
   \<and> rafId (sl_onTouchEnd 48 TouchEnd secondTouchSlider) = Null
   \<and> isHorizontal (sl_moves downMoves secondTouchSlider) = Some False
   \<and> currentTranslate (sl_onTouchEnd 48 TouchEnd (sl_moves downMoves secondTouchSlider)) = -100
   \<and> rafId (sl_onTouchEnd 48 TouchEnd (sl_moves downMoves secondTouchSlider)) = Null"
proof -
  have f: "st_isDragging secondTouchTs" "st_currentX secondTouchTs = -100"
    "an_rafId secondTouchTs = Null" "ts_direction secondTouchTs = None"
    "ts_events secondTouchTs = [''sliderDragStart'']"
    unfolding secondTouchTs_eq by (simp_all add: ts_direction_def exampleTs_def)
  have d: "ts_direction (ts_moves downMoves secondTouchTs) = Some False"
    unfolding secondTouchTs_down unfolding secondTouchTs_eq by (simp add: ts_direction_def)
  define t1 where "t1 = secondTouchTs\<lparr>tc_isTouching := False, st_isDragging := False,
            an_isAnimating := True, st_isSnapping := True, st_snapTargetX := 0,
            an_rafId := Pending (),
            ts_events := [''sliderDragStart'', ''sliderSnapStart'', ''sliderDragEnd'']\<rparr>"
  define t2 where "t2 = t1\<lparr>tc_currentY := 50, tc_isDirectionDetermined := True\<rparr>"
  have e1: "handleTouchEnd 48 secondTouchTs = Inr t1"
    unfolding t1_def by (rule secondTouchTs_end)
  have e2: "handleTouchEnd 48 (ts_moves downMoves secondTouchTs) = Inr t2"
    unfolding t2_def t1_def secondTouchTs_down_end by simp
  have g1: "an_rafId t1 = Pending ()" "an_isAnimating t1" "st_isSnapping t1"
    "st_snapTargetX t1 = 0" "st_currentX t1 = -100"
    "ts_events t1 = ts_events secondTouchTs @ [''sliderSnapStart'', ''sliderDragEnd'']"
    by (simp_all add: t1_def f)
  have g2: "an_rafId t2 = Pending ()" "an_isAnimating t2" "st_isSnapping t2"
    "st_snapTargetX t2 = 0" "st_currentX t2 = -100"
    "ts_events t2 = ts_events secondTouchTs @ [''sliderSnapStart'', ''sliderDragEnd'']"
    by (simp_all add: t2_def g1)
  from snap_frame [OF g1(1-5)] obtain t1' where
    h1: "ts_frame t1 = Inr t1'" "st_currentX t1' = -85" by blast
  from snap_frame [OF g2(1-5)] obtain t2' where
    h2: "ts_frame t2 = Inr t2'" "st_currentX t2' = -85" by blast
  have c1: "\<exists>t' t''. handleTouchEnd 48 secondTouchTs = Inr t'
          \<and> an_rafId t' = Pending () \<and> an_isAnimating t' \<and> st_isSnapping t'
          \<and> st_snapTargetX t' = 0
          \<and> ts_events t' = ts_events secondTouchTs @ [''sliderSnapStart'', ''sliderDragEnd'']
          \<and> ts_frame t' = Inr t'' \<and> st_currentX t'' = -85"
    using e1 g1 h1 by blast
  have c2: "\<exists>t' t''. handleTouchEnd 48 (ts_moves downMoves secondTouchTs) = Inr t'
          \<and> an_rafId t' = Pending () \<and> an_isAnimating t' \<and> st_isSnapping t'
          \<and> st_snapTargetX t' = 0
          \<and> ts_events t' = ts_events secondTouchTs @ [''sliderSnapStart'', ''sliderDragEnd'']
          \<and> ts_frame t' = Inr t'' \<and> st_currentX t'' = -85"
    using e2 g2 h2 by blast
  have sl: "isHorizontal secondTouchSlider = None
   \<and> currentTranslate secondTouchSlider = -100
   \<and> currentTranslate (sl_onTouchEnd 48 TouchEnd secondTouchSlider) = -100
   \<and> rafId (sl_onTouchEnd 48 TouchEnd secondTouchSlider) = Null
   \<and> isHorizontal (sl_moves downMoves secondTouchSlider) = Some False
   \<and> currentTranslate (sl_onTouchEnd 48 TouchEnd (sl_moves downMoves secondTouchSlider)) = -100
   \<and> rafId (sl_onTouchEnd 48 TouchEnd (sl_moves downMoves secondTouchSlider)) = Null"
    by (simp add: secondTouchSlider_down secondTouchSlider_fields sl_onTouchEnd_def)
  from f(1-4) d c1 c2 sl show ?thesis by blast
qed
end
